(* ===== verification/Prelude.thy ===== *)
theory Prelude
  imports Main "HOL-Library.Word" "HOL-Library.Char_ord" "HOL-Library.List_Lexorder"
    "HOL-Library.Sublist"
begin

unbundle bit_operations_syntax

text \<open>
  Shared vocabulary of the development: Go errors and results as values, the functions of
  package \<^verbatim>\<open>strings\<close> that the program calls, and the list lemmas the components share.
  A Go string is a byte sequence, so it is a \<^typ>\<open>string\<close> (a list of 8-bit characters) here.

  The collection \<open>go_defs\<close> holds the definitions that evaluation of concrete inputs unfolds;
  \<open>frame\<close> holds the equations that say which part of a state an operation leaves alone.
\<close>

named_theorems go_defs
named_theorems frame

section \<open>Errors and results\<close>

datatype errno = ENOENT | EEXIST | EACCES | ENOTDIR | EISDIR | ENOTEMPTY | EIO

fun errno_text :: "errno \<Rightarrow> string" where
  "errno_text ENOENT = ''no such file or directory''"
| "errno_text EEXIST = ''file exists''"
| "errno_text EACCES = ''permission denied''"
| "errno_text ENOTDIR = ''not a directory''"
| "errno_text EISDIR = ''is a directory''"
| "errno_text ENOTEMPTY = ''directory not empty''"
| "errno_text EIO = ''input/output error''"

text \<open>The status codes of \<^verbatim>\<open>google.golang.org/grpc/codes\<close> the program answers with.\<close>

datatype code = InvalidArgument | Unknown | Unimplemented

fun code_text :: "code \<Rightarrow> string" where
  "code_text InvalidArgument = ''InvalidArgument''"
| "code_text Unknown = ''Unknown''"
| "code_text Unimplemented = ''Unimplemented''"

text \<open>
  An error value: an \<^verbatim>\<open>os.PathError\<close> (operation, path, system error), the sentinel
  \<^verbatim>\<open>io.EOF\<close>, a gRPC status, or a text made by \<^verbatim>\<open>fmt.Errorf\<close>. Only the first keeps
  the system error that \<^verbatim>\<open>os.IsNotExist\<close> and its kin inspect; \<^verbatim>\<open>fmt.Errorf\<close> with the
  verb \<^verbatim>\<open>%s\<close> keeps the text only.
\<close>

datatype gerror =
    PathError string string errno
  | EOFError
  | StatusError code string
  | ErrMsg string

fun error_text :: "gerror \<Rightarrow> string" where
  "error_text (PathError oper path e) = oper @ '' '' @ path @ '': '' @ errno_text e"
| "error_text EOFError = ''EOF''"
| "error_text (StatusError c m) = ''rpc error: code = '' @ code_text c @ '' desc = '' @ m"
| "error_text (ErrMsg m) = m"

fun IsNotExist :: "gerror \<Rightarrow> bool" where
  "IsNotExist (PathError _ _ e) = (e = ENOENT)"
| "IsNotExist _ = False"

fun IsExist :: "gerror \<Rightarrow> bool" where
  "IsExist (PathError _ _ e) = (e = EEXIST \<or> e = ENOTEMPTY)"
| "IsExist _ = False"

fun IsPermission :: "gerror \<Rightarrow> bool" where
  "IsPermission (PathError _ _ e) = (e = EACCES)"
| "IsPermission _ = False"

text \<open>What a Go call ends with: its value, a non-nil error, or a run-time panic.\<close>

datatype 'a outcome = Ok 'a | Err gerror | Panic string

fun is_ok :: "'a outcome \<Rightarrow> bool" where
  "is_ok (Ok _) = True"
| "is_ok _ = False"

lemma is_ok_iff: "is_ok r \<longleftrightarrow> (\<exists>v. r = Ok v)"
  by (cases r) auto

text \<open>Calls that only return an \<^verbatim>\<open>error\<close>: \<^const>\<open>None\<close> is the nil error.\<close>

type_synonym nilerr = "gerror option"

fun outcome_of :: "nilerr \<Rightarrow> unit outcome" where
  "outcome_of None = Ok ()"
| "outcome_of (Some e) = Err e"

section \<open>Package strings\<close>

text \<open>\<^verbatim>\<open>strings.Split\<close> with a separator of one byte: never the empty list.\<close>

fun split_on :: "char \<Rightarrow> string \<Rightarrow> string list" where
  "split_on c [] = [[]]"
| "split_on c (x # xs) =
     (if x = c then [] # split_on c xs
      else (case split_on c xs of [] \<Rightarrow> [[x]] | w # ws \<Rightarrow> (x # w) # ws))"

text \<open>\<^verbatim>\<open>strings.Join\<close>.\<close>

fun join_with :: "string \<Rightarrow> string list \<Rightarrow> string" where
  "join_with sep [] = []"
| "join_with sep [w] = w"
| "join_with sep (w # v # ws) = w @ sep @ join_with sep (v # ws)"

text \<open>\<^verbatim>\<open>strings.Contains\<close>.\<close>

fun contains_str :: "string \<Rightarrow> string \<Rightarrow> bool" where
  "contains_str sub [] = (sub = [])"
| "contains_str sub (x # xs) = (prefix sub (x # xs) \<or> contains_str sub xs)"

text \<open>
  \<^verbatim>\<open>strings.ToLower\<close> on the ASCII letters. The program only compares the result with
  ASCII constants that contain neither \<^verbatim>\<open>i\<close> nor \<^verbatim>\<open>k\<close>. Go lowers a rune outside ASCII to
  a rune outside ASCII, but for U+0130 and U+212A, which become \<^verbatim>\<open>i\<close> and \<^verbatim>\<open>k\<close>: the
  outcome of every comparison the program makes is the one computed here.
\<close>

definition to_lower_char :: "char \<Rightarrow> char" where
  "to_lower_char c =
     (if 65 \<le> (of_char c :: nat) \<and> (of_char c :: nat) \<le> 90 then char_of (of_char c + 32 :: nat) else c)"

definition to_lower :: "string \<Rightarrow> string" where
  "to_lower s = map to_lower_char s"

definition has_prefix :: "string \<Rightarrow> string \<Rightarrow> bool" where
  "has_prefix s p = (take (length p) s = p)"

definition has_suffix :: "string \<Rightarrow> string \<Rightarrow> bool" where
  "has_suffix s p = (length p \<le> length s \<and> drop (length s - length p) s = p)"

definition trim_suffix :: "string \<Rightarrow> string \<Rightarrow> string" where
  "trim_suffix s p = (if has_suffix s p then take (length s - length p) s else s)"

definition trim_prefix :: "string \<Rightarrow> string \<Rightarrow> string" where
  "trim_prefix s p = (if has_prefix s p then drop (length p) s else s)"

text \<open>\<^verbatim>\<open>strings.Replace\<close> of one byte by one byte, everywhere, and the removal of one byte.\<close>

definition replace_char :: "char \<Rightarrow> char \<Rightarrow> string \<Rightarrow> string" where
  "replace_char a b s = map (\<lambda>c. if c = a then b else c) s"

definition remove_char :: "char \<Rightarrow> string \<Rightarrow> string" where
  "remove_char a s = filter (\<lambda>c. c \<noteq> a) s"

lemmas string_defs [go_defs] = to_lower_def to_lower_char_def has_prefix_def has_suffix_def
  trim_suffix_def trim_prefix_def replace_char_def remove_char_def

subsection \<open>Splitting and joining\<close>

lemma split_on_not_Nil [simp]: "split_on c s \<noteq> []"
  by (induction s) (auto split: list.splits)

lemma split_on_no_sep: "w \<in> set (split_on c s) \<Longrightarrow> c \<notin> set w"
  by (induction s arbitrary: w) (auto split: list.splits if_splits)

lemma split_on_single [simp]: "c \<notin> set s \<Longrightarrow> split_on c s = [s]"
  by (induction s) auto

lemma join_with_Cons: "ws \<noteq> [] \<Longrightarrow> join_with sep (w # ws) = w @ sep @ join_with sep ws"
  by (cases ws) auto

lemma join_with_head [simp]: "join_with sep ((x # w) # ws) = x # join_with sep (w # ws)"
  by (cases ws) auto

lemma join_with_append:
  assumes "vs \<noteq> []"
  shows "us \<noteq> [] \<Longrightarrow> join_with sep (us @ vs) = join_with sep us @ sep @ join_with sep vs"
proof (induction us)
  case (Cons u us)
  then show ?case by (cases "us = []") (simp_all add: join_with_Cons assms)
qed simp

text \<open>Joining the pieces of a split gives the string back.\<close>

lemma join_split: "join_with [c] (split_on c s) = s"
proof (induction s)
  case (Cons x xs)
  then show ?case by (cases "split_on c xs") (auto simp: join_with_Cons neq_Nil_conv)
qed simp

lemma split_on_append_sep:
  "split_on c (u @ c # v) = split_on c u @ split_on c v"
proof (induction u)
  case (Cons x u)
  then show ?case by (cases "split_on c u") auto
qed simp

text \<open>Splitting a join of pieces without the separator gives the pieces back.\<close>

lemma split_join:
  "ws \<noteq> [] \<Longrightarrow> (\<And>w. w \<in> set ws \<Longrightarrow> c \<notin> set w) \<Longrightarrow> split_on c (join_with [c] ws) = ws"
proof (induction ws)
  case (Cons w ws)
  show ?case
  proof (cases "ws = []")
    case False
    with Cons show ?thesis by (simp add: join_with_Cons split_on_append_sep)
  qed (use Cons in auto)
qed simp

lemma split_on_concat_set: "w \<in> set (split_on c s) \<Longrightarrow> set w \<subseteq> set s"
  by (induction s arbitrary: w) (fastforce split: list.splits if_splits)+

lemma set_join_with: "set (join_with sep ws) \<subseteq> \<Union> (set ` set ws) \<union> set sep"
  by (induction ws rule: join_with.induct) auto

lemma split_on_length: "length (split_on c s) = Suc (count_list s c)"
  by (induction s) (auto split: list.splits)

lemma contains_str_Cons_iff:
  "(\<exists>u v. x # xs = u @ sub @ v) \<longleftrightarrow> prefix sub (x # xs) \<or> (\<exists>u v. xs = u @ sub @ v)"
proof
  assume "\<exists>u v. x # xs = u @ sub @ v"
  then obtain u v where uv: "x # xs = u @ sub @ v" by blast
  show "prefix sub (x # xs) \<or> (\<exists>u v. xs = u @ sub @ v)"
  proof (cases u)
    case Nil
    with uv show ?thesis by (auto simp: prefix_def)
  next
    case (Cons y u')
    with uv show ?thesis by auto
  qed
next
  assume "prefix sub (x # xs) \<or> (\<exists>u v. xs = u @ sub @ v)"
  then show "\<exists>u v. x # xs = u @ sub @ v"
    by (metis append_Cons append_Nil prefixE)
qed

lemma contains_str_iff: "contains_str sub s \<longleftrightarrow> (\<exists>u v. s = u @ sub @ v)"
  by (induction s) (simp_all add: contains_str_Cons_iff)

lemma contains_str_trans: "contains_str a b \<Longrightarrow> contains_str b c \<Longrightarrow> contains_str a c"
  by (simp add: contains_str_iff) (metis append.assoc)

lemma contains_str_prepend: "contains_str a s \<Longrightarrow> contains_str a (u @ s)"
  unfolding contains_str_iff by (metis append.assoc)

lemma contains_str_self [simp]: "contains_str w (w @ v)" "contains_str w w"
  unfolding contains_str_iff by (metis append_Nil append_Nil2)+

lemma contains_str_join: "contains_str w (join_with sep (us @ w # vs))"
proof -
  have tl: "contains_str w (join_with sep (w # vs))"
    by (cases vs) (auto simp: contains_str_self)
  show ?thesis
  proof (cases "us = []")
    case False
    then show ?thesis using tl by (simp add: join_with_append contains_str_prepend)
  qed (use tl in simp)
qed

lemma contains_str_split: "w \<in> set (split_on c s) \<Longrightarrow> contains_str w s"
  by (metis contains_str_join join_split split_list)

lemma has_suffix_append [simp]: "has_suffix (s @ p) p"
  by (simp add: has_suffix_def)

lemma trim_suffix_append [simp]: "trim_suffix (s @ p) p = s"
  by (simp add: trim_suffix_def)

lemma has_prefix_append [simp]: "has_prefix (p @ s) p"
  by (simp add: has_prefix_def)

section \<open>Encodings\<close>

text \<open>
  An encoding whose texts can be read back, for the values \<open>ok\<close> admits: base64 in headers and
  secrets, percent-encoding in URLs, a certificate on one line.
\<close>

locale codec =
  fixes enc :: "string \<Rightarrow> string" and dec :: "string \<Rightarrow> string option" and ok :: "string \<Rightarrow> bool"
  assumes dec_enc: "ok s \<Longrightarrow> dec (enc s) = Some s"
begin

lemma enc_inj: "ok s \<Longrightarrow> ok t \<Longrightarrow> enc s = enc t \<Longrightarrow> s = t"
  using dec_enc by (metis option.inject)

lemma dec_unique: "ok s \<Longrightarrow> enc s = e \<Longrightarrow> dec e = Some t \<Longrightarrow> t = s"
  using dec_enc by fastforce

end

end
