(* ===== verification/GoPath.thy ===== *)
theory GoPath
  imports Prelude
begin

text \<open>
  Slash-separated paths: \<^verbatim>\<open>path.Clean\<close>, \<^verbatim>\<open>path.Join\<close>, \<^verbatim>\<open>path.Base\<close> and, on Linux,
  \<^verbatim>\<open>filepath.Clean\<close>, \<^verbatim>\<open>filepath.Join\<close>, \<^verbatim>\<open>filepath.Dir\<close>, \<^verbatim>\<open>filepath.Ext\<close> and
  \<^verbatim>\<open>filepath.Rel\<close>, which agree with them. A path is cleaned segment by segment on a stack.
  The lemmas say what a cleaned path looks like, that cleaning does not change the place a path
  names, and that joining a root with segments free of \<^verbatim>\<open>..\<close> stays below the root.
\<close>

definition is_rooted :: "string \<Rightarrow> bool" where
  "is_rooted s = (case s of [] \<Rightarrow> False | c # _ \<Rightarrow> c = CHR ''/'')"

abbreviation slash_split :: "string \<Rightarrow> string list" where
  "slash_split s \<equiv> split_on (CHR ''/'') s"

text \<open>
  The elements of a path processed left to right; the second argument is the stack of elements
  kept so far, last one first. \<^verbatim>\<open>..\<close> removes the element before it, stays at the front of a
  relative path and vanishes at the root of an absolute one.
\<close>

fun clean_segs :: "bool \<Rightarrow> string list \<Rightarrow> string list \<Rightarrow> string list" where
  "clean_segs r acc [] = rev acc"
| "clean_segs r acc (w # ws) =
     (if w = [] \<or> w = ''.'' then clean_segs r acc ws
      else if w = ''..'' then
        (case acc of
           [] \<Rightarrow> (if r then clean_segs r [] ws else clean_segs r [''..''] ws)
         | a # as \<Rightarrow> (if a = ''..'' then clean_segs r (''..'' # acc) ws else clean_segs r as ws))
      else clean_segs r (w # acc) ws)"

definition path_segs :: "string \<Rightarrow> string list" where
  "path_segs s = clean_segs (is_rooted s) [] (slash_split s)"

definition unsegs :: "bool \<Rightarrow> string list \<Rightarrow> string" where
  "unsegs r ws = (if r then CHR ''/'' # join_with ''/'' ws
     else if ws = [] then ''.'' else join_with ''/'' ws)"

definition path_Clean :: "string \<Rightarrow> string" where
  "path_Clean s = unsegs (is_rooted s) (path_segs s)"

definition path_Join :: "string list \<Rightarrow> string" where
  "path_Join elem = (case dropWhile (\<lambda>e. e = []) elem of
     [] \<Rightarrow> [] | es \<Rightarrow> path_Clean (join_with ''/'' es))"

definition path_Base :: "string \<Rightarrow> string" where
  "path_Base s = (if s = [] then ''.''
     else (let t = rev (dropWhile (\<lambda>c. c = CHR ''/'') (rev s)) in
       if t = [] then ''/'' else last (slash_split t)))"

definition path_Dir :: "string \<Rightarrow> string" where
  "path_Dir s = path_Clean (rev (dropWhile (\<lambda>c. c \<noteq> CHR ''/'') (rev s)))"

definition path_Ext :: "string \<Rightarrow> string" where
  "path_Ext s = (let w = last (slash_split s) in
     if CHR ''.'' \<in> set w then CHR ''.'' # last (split_on (CHR ''.'') w) else [])"

text \<open>\<^verbatim>\<open>filepath.Rel\<close>: strip the common elements, then go up once per element left in the base.\<close>

fun strip_common :: "string list \<Rightarrow> string list \<Rightarrow> string list \<times> string list" where
  "strip_common (b # bs) (t # ts) = (if b = t then strip_common bs ts else (b # bs, t # ts))"
| "strip_common bs ts = (bs, ts)"

definition path_Rel :: "string \<Rightarrow> string \<Rightarrow> string outcome" where
  "path_Rel basepath targpath =
     (let b = path_Clean basepath; t = path_Clean targpath;
          refuse = Err (ErrMsg (''Rel: can't make '' @ targpath @ '' relative to '' @ basepath)) in
      if t = b then Ok ''.''
      else if is_rooted b \<noteq> is_rooted t then refuse
      else (let tw = (if t = ''.'' then [''.''] else path_segs t) in
        case strip_common (path_segs b) tw of
          ([], ts) \<Rightarrow> Ok (join_with ''/'' ts)
        | (x # xs, ts) \<Rightarrow>
            if x = ''..'' then refuse
            else Ok (join_with ''/'' (replicate (Suc (length xs)) ''..'' @ ts))))"

lemmas path_defs [go_defs] = is_rooted_def path_segs_def unsegs_def path_Clean_def path_Join_def
  path_Base_def path_Dir_def path_Ext_def path_Rel_def

text \<open>
  The place a path names, as the list of directory entries from the root, for a process whose
  working directory is \<open>cwd\<close>; the file system has no symbolic links.
\<close>

definition resolve :: "string list \<Rightarrow> string \<Rightarrow> string list" where
  "resolve cwd s = clean_segs True (if is_rooted s then [] else rev cwd) (slash_split s)"

section \<open>What cleaning keeps\<close>

text \<open>An element that names something: not empty, not \<^verbatim>\<open>.\<close>, not \<^verbatim>\<open>..\<close>, without a slash.\<close>

definition is_name :: "string \<Rightarrow> bool" where
  "is_name w \<longleftrightarrow> w \<noteq> [] \<and> w \<noteq> ''.'' \<and> w \<noteq> ''..'' \<and> CHR ''/'' \<notin> set w"

lemma is_nameD: "is_name w \<Longrightarrow> w \<noteq> [] \<and> w \<noteq> ''.'' \<and> w \<noteq> ''..''"
  by (simp add: is_name_def)

text \<open>The stack of \<^const>\<open>clean_segs\<close>: names above, \<^verbatim>\<open>..\<close> below (none when rooted).\<close>

fun stack_ok :: "bool \<Rightarrow> string list \<Rightarrow> bool" where
  "stack_ok r [] = True"
| "stack_ok r (a # as) =
     (if a = ''..'' then \<not> r \<and> set as \<subseteq> {''..''} else is_name a \<and> stack_ok r as)"

lemma stack_ok_dots: "set as \<subseteq> {''..''} \<Longrightarrow> \<not> r \<Longrightarrow> stack_ok r as"
  by (induction as) auto

lemma stack_ok_rooted: "stack_ok True as \<longleftrightarrow> (\<forall>a \<in> set as. is_name a)"
  by (induction as) (auto simp: is_name_def)

lemma stack_ok_no_slash: "stack_ok r as \<Longrightarrow> a \<in> set as \<Longrightarrow> CHR ''/'' \<notin> set a"
  by (induction as) (auto simp: is_name_def split: if_splits)

lemma stack_ok_not_Nil: "stack_ok r as \<Longrightarrow> a \<in> set as \<Longrightarrow> a \<noteq> []"
  by (induction as) (auto simp: is_name_def split: if_splits)

lemma clean_segs_append:
  "clean_segs r acc (xs @ ys) = clean_segs r (rev (clean_segs r acc xs)) ys"
  by (induction r acc xs rule: clean_segs.induct) (auto split: list.split)

lemma clean_segs_names:
  "(\<And>w. w \<in> set ws \<Longrightarrow> is_name w) \<Longrightarrow> clean_segs r acc ws = rev acc @ ws"
  by (induction ws arbitrary: acc) (auto simp: is_name_def)

lemma stack_ok_clean:
  "stack_ok r acc \<Longrightarrow> (\<And>w. w \<in> set ws \<Longrightarrow> CHR ''/'' \<notin> set w) \<Longrightarrow>
   stack_ok r (rev (clean_segs r acc ws))"
proof (induction r acc ws rule: clean_segs.induct)
  case (2 r acc w ws)
  show ?case
  proof (cases "w = [] \<or> w = ''.''")
    case True
    with 2 show ?thesis by auto
  next
    case False
    show ?thesis
    proof (cases "w = ''..''")
      case True
      with 2 show ?thesis
        by (cases acc) (auto split: if_splits simp: stack_ok_dots)
    next
      case nd: False
      with False 2 have "stack_ok r (w # acc)" by (auto simp: is_name_def)
      with False nd 2 show ?thesis by auto
    qed
  qed
qed simp

lemma split_segs_no_slash: "w \<in> set (slash_split s) \<Longrightarrow> CHR ''/'' \<notin> set w"
  by (rule split_on_no_sep)

lemma stack_ok_path_segs: "stack_ok (is_rooted s) (rev (path_segs s))"
  unfolding path_segs_def by (rule stack_ok_clean) (auto dest: split_segs_no_slash)

lemma resolve_names:
  assumes "\<And>w. w \<in> set cwd \<Longrightarrow> is_name w" and "w \<in> set (resolve cwd s)"
  shows "is_name w"
proof -
  have "stack_ok True (rev (resolve cwd s))"
    unfolding resolve_def
    by (rule stack_ok_clean) (auto simp: stack_ok_rooted assms(1) dest: split_segs_no_slash)
  with assms(2) show ?thesis by (simp add: stack_ok_rooted)
qed

lemma path_segs_rooted_names: "is_rooted s \<Longrightarrow> w \<in> set (path_segs s) \<Longrightarrow> is_name w"
  using stack_ok_path_segs [of s] by (simp add: stack_ok_rooted)

text \<open>Cleaning a cleaned stack changes nothing.\<close>

lemma clean_segs_fixed: "stack_ok r as \<Longrightarrow> clean_segs r [] (rev as) = rev as"
proof (induction as)
  case (Cons a as)
  have "clean_segs r [] (rev as) = rev as"
  proof (cases "a = ''..''")
    case True
    with Cons.prems have "stack_ok r as" by (auto intro: stack_ok_dots)
    then show ?thesis by (rule Cons.IH)
  qed (use Cons in auto)
  then have "clean_segs r [] (rev (a # as)) = clean_segs r as [a]"
    by (simp add: clean_segs_append)
  also have "\<dots> = rev (a # as)"
    using Cons.prems by (cases as) (auto simp: is_name_def split: if_splits)
  finally show ?case .
qed simp

lemma split_unsegs_rooted: "ws \<noteq> [] \<Longrightarrow> (\<And>w. w \<in> set ws \<Longrightarrow> CHR ''/'' \<notin> set w) \<Longrightarrow>
   slash_split (unsegs r ws) = (if r then [[]] else []) @ ws"
  using split_join [of ws "CHR ''/''"] by (auto simp: unsegs_def)

lemma is_rooted_unsegs:
  assumes "stack_ok r (rev ws)"
  shows "is_rooted (unsegs r ws) = r"
proof (cases ws)
  case (Cons w ws')
  have "w \<noteq> [] \<and> CHR ''/'' \<notin> set w"
    using stack_ok_no_slash [OF assms, of w] stack_ok_not_Nil [OF assms, of w] Cons by auto
  then show ?thesis using Cons
    by (cases w; cases ws') (auto simp: unsegs_def is_rooted_def)
qed (auto simp: unsegs_def is_rooted_def)

lemma unsegs_not_Nil:
  assumes "stack_ok r (rev ws)"
  shows "unsegs r ws \<noteq> []"
proof (cases ws)
  case (Cons w ws')
  then have "w \<noteq> []" using stack_ok_not_Nil [OF assms, of w] by auto
  then show ?thesis using Cons by (cases ws') (auto simp: unsegs_def)
qed (simp add: unsegs_def)

lemma slash_split_unsegs:
  assumes "stack_ok r (rev ws)"
  shows "clean_segs r' acc (slash_split (unsegs r ws)) = clean_segs r' acc ws"
proof (cases "ws = []")
  case False
  then show ?thesis using stack_ok_no_slash [OF assms]
    by (subst split_unsegs_rooted) auto
qed (simp add: unsegs_def)

lemma clean_segs_Clean:
  "clean_segs r acc (slash_split (path_Clean s)) = clean_segs r acc (path_segs s)"
  unfolding path_Clean_def by (rule slash_split_unsegs) (rule stack_ok_path_segs)

text \<open>A cleaned path is rooted as the path was, has the same elements, and is a fixed point.\<close>

lemma is_rooted_Clean [simp]: "is_rooted (path_Clean s) = is_rooted s"
  unfolding path_Clean_def by (rule is_rooted_unsegs) (rule stack_ok_path_segs)

lemma path_segs_Clean [simp]: "path_segs (path_Clean s) = path_segs s"
proof -
  have "path_segs (path_Clean s) = clean_segs (is_rooted s) [] (path_segs s)"
    by (simp add: path_segs_def [of "path_Clean s"] clean_segs_Clean)
  also have "\<dots> = path_segs s"
    using clean_segs_fixed [OF stack_ok_path_segs [of s]] by simp
  finally show ?thesis .
qed

lemma path_Clean_idem [simp]: "path_Clean (path_Clean s) = path_Clean s"
  by (simp add: path_Clean_def [of "path_Clean s"]) (simp add: path_Clean_def)

lemma path_Clean_not_Nil [simp]: "path_Clean s \<noteq> []"
  unfolding path_Clean_def by (rule unsegs_not_Nil) (rule stack_ok_path_segs)

text \<open>
  Cleaning does not move a path: relative elements may first be cleaned on their own, because a
  name pushed on the stack and the \<^verbatim>\<open>..\<close> after it cancel wherever they are processed.
\<close>

lemma clean_segs_pop:
  "is_name b \<Longrightarrow> clean_segs r acc (xs @ b # ''..'' # ys) = clean_segs r acc (xs @ ys)"
  by (simp add: clean_segs_append is_name_def)

lemma clean_segs_rel:
  "stack_ok False bcc \<Longrightarrow> (\<And>w. w \<in> set ws \<Longrightarrow> CHR ''/'' \<notin> set w) \<Longrightarrow>
   clean_segs True acc (clean_segs False bcc ws) = clean_segs True acc (rev bcc @ ws)"
proof (induction "False" bcc ws rule: clean_segs.induct)
  case (2 bcc w ws)
  show ?case
  proof (cases "w = [] \<or> w = ''.''")
    case True
    with 2 show ?thesis by (auto simp: clean_segs_append)
  next
    case False
    show ?thesis
    proof (cases "w = ''..''")
      case True
      show ?thesis
      proof (cases bcc)
        case Nil
        with 2 True show ?thesis by simp
      next
        case (Cons a as)
        with 2 True show ?thesis
          by (cases "a = ''..''") (simp_all add: clean_segs_pop)
      qed
    next
      case nd: False
      with False 2 have "stack_ok False (w # bcc)" by (auto simp: is_name_def)
      with False nd 2 show ?thesis by auto
    qed
  qed
qed simp

lemma resolve_Clean [simp]: "resolve cwd (path_Clean s) = resolve cwd s"
proof -
  have *: "resolve cwd (path_Clean s) = clean_segs True (if is_rooted s then [] else rev cwd) (path_segs s)"
    by (simp add: resolve_def clean_segs_Clean)
  show ?thesis
  proof (cases "is_rooted s")
    case True
    then show ?thesis
      using * clean_segs_fixed [OF stack_ok_path_segs [of s]] by (simp add: resolve_def path_segs_def)
  next
    case False
    then show ?thesis
      using * clean_segs_rel [of "[]" "slash_split s" "rev cwd"]
      by (auto simp: resolve_def path_segs_def dest: split_segs_no_slash)
  qed
qed

text \<open>Joining a non-empty path with further elements resolves them below it.\<close>

lemma is_rooted_append: "a \<noteq> [] \<Longrightarrow> is_rooted (a @ b) = is_rooted a"
  by (cases a) (auto simp: is_rooted_def)

lemma resolve_Join:
  assumes "a \<noteq> []"
  shows "resolve cwd (path_Join [a, b]) = clean_segs True (rev (resolve cwd a)) (slash_split b)"
proof -
  have "resolve cwd (path_Join [a, b]) = resolve cwd (a @ CHR ''/'' # b)"
    using assms by (simp add: path_Join_def)
  also have "\<dots> = clean_segs True (rev (resolve cwd a)) (slash_split b)"
    using assms by (simp add: resolve_def is_rooted_append split_on_append_sep clean_segs_append)
  finally show ?thesis .
qed

lemma resolve_Join_name [simp]:
  "a \<noteq> [] \<Longrightarrow> is_name n \<Longrightarrow> resolve cwd (path_Join [a, n]) = resolve cwd a @ [n]"
  by (simp add: resolve_Join is_name_def)

lemma path_Join_not_Nil [simp]: "a \<noteq> [] \<Longrightarrow> path_Join [a, b] \<noteq> []"
  by (simp add: path_Join_def)

text \<open>Without \<^verbatim>\<open>..\<close> among its elements a path only descends.\<close>

lemma clean_segs_no_dotdot:
  "''..'' \<notin> set ws \<Longrightarrow>
   clean_segs r acc ws = rev acc @ filter (\<lambda>w. w \<noteq> [] \<and> w \<noteq> ''.'') ws"
  by (induction ws arbitrary: acc) auto

lemma resolve_Join_below:
  assumes "a \<noteq> []" and "''..'' \<notin> set (slash_split b)"
  shows "prefix (resolve cwd a) (resolve cwd (path_Join [a, b]))"
  using assms by (simp add: resolve_Join clean_segs_no_dotdot)

lemma slash_split_Clean_dotdot:
  "''..'' \<in> set (slash_split (path_Clean s)) \<Longrightarrow> \<not> is_rooted s"
proof
  assume dd: "''..'' \<in> set (slash_split (path_Clean s))" and r: "is_rooted s"
  have "set (slash_split (path_Clean s)) \<subseteq> insert [] (set (path_segs s))"
    using r stack_ok_no_slash [OF stack_ok_path_segs [of s]]
      split_unsegs_rooted [of "path_segs s" True]
    by (cases "path_segs s = []") (auto simp: path_Clean_def unsegs_def)
  with dd path_segs_rooted_names [OF r] show False by (auto simp: is_name_def)
qed

end
