(* ===== verification/OsModel.thy ===== *)
theory OsModel
  imports GoPath "HOL-Library.AList"
begin

text \<open>
  The operating system as the program uses it through package \<^verbatim>\<open>os\<close>: a file system, the
  process environment and the calls on them. A file is an inode stored under its key, the list of
  directory entries that leads to it from the root. The file system has no symbolic links and
  reading does not change access times; creating or removing an entry changes the modification
  time of its directory, as the kernel does. The field \<open>fault\<close> lets any call fail with any system
  error, so every error branch of the program is reachable.
\<close>

section \<open>Files\<close>

text \<open>
  The fields of a \<^verbatim>\<open>tar.Header\<close> the program reads or writes. Times are nanoseconds; an absent
  access time is the zero \<^verbatim>\<open>time.Time\<close>.
\<close>

record tar_header =
  hName :: string
  hTypeflag :: char
  hMode :: "32 word"
  hModTime :: int
  hAccessTime :: "int option"

text \<open>
  The data of a file: plain bytes, or an archive as package \<^verbatim>\<open>archive/tar\<close> writes and reads it,
  its entries in order and the error that ends it (none when the archive is complete).
\<close>

datatype content = Raw string | Archive "(tar_header \<times> content) list" "gerror option"

text \<open>What \<^verbatim>\<open>tar.NewReader\<close> yields on a file: its entries and the error that ends them.\<close>

fun tar_entries :: "content \<Rightarrow> (tar_header \<times> content) list \<times> gerror option" where
  "tar_entries (Archive es e) = (es, e)"
| "tar_entries (Raw []) = ([], None)"
| "tar_entries (Raw (_ # _)) = ([], Some (ErrMsg ''archive/tar: invalid tar header''))"

datatype fkind = KRegular | KDir | KOther "32 word"

record inode =
  kind :: fkind
  perm :: "32 word"
  data :: content
  atime :: int
  mtime :: int

type_synonym key = "string list"

datatype sysop = OpOpen | OpStat | OpRead | OpWrite | OpClose | OpMkdir | OpChtimes | OpReadDir | OpRemove

record os =
  cwd :: key
  files :: "(key \<times> inode) list"
  umask :: "32 word"
  now :: int
  fault :: "sysop \<Rightarrow> key \<Rightarrow> errno option"
  environ :: "string \<Rightarrow> string option"

definition file_at :: "os \<Rightarrow> key \<Rightarrow> inode option" where
  "file_at s k = map_of (files s) k"

definition is_dir_at :: "os \<Rightarrow> key \<Rightarrow> bool" where
  "is_dir_at s k = (case file_at s k of Some n \<Rightarrow> kind n = KDir | None \<Rightarrow> False)"

text \<open>\<^verbatim>\<open>os.Getenv\<close>: the empty string when the variable is not set.\<close>

definition getenv :: "os \<Rightarrow> string \<Rightarrow> string" where
  "getenv s v = (case environ s v of Some x \<Rightarrow> x | None \<Rightarrow> [])"

text \<open>
  The bits of an \<^verbatim>\<open>os.FileMode\<close> that a created file and a created directory keep: the nine
  permission bits with setuid, setgid and sticky, and with sticky alone.
\<close>

definition file_perm_mask :: "32 word" where "file_perm_mask = 0x00D001FF"
definition dir_perm_mask :: "32 word" where "dir_perm_mask = 0x001001FF"

text \<open>\<^verbatim>\<open>fileInfo.Mode()\<close>: the type bits and the permission bits.\<close>

definition file_mode :: "inode \<Rightarrow> 32 word" where
  "file_mode n = (case kind n of KRegular \<Rightarrow> perm n | KDir \<Rightarrow> 0x80000000 OR perm n
     | KOther b \<Rightarrow> b OR perm n)"

section \<open>Calls that may fail\<close>

type_synonym 'a sys = "os \<Rightarrow> 'a outcome \<times> os"

text \<open>Go's \<^verbatim>\<open>if err != nil { return err }\<close>: the next step runs on success only.\<close>

definition seq :: "'a sys \<Rightarrow> ('a \<Rightarrow> 'b sys) \<Rightarrow> 'b sys" where
  "seq m f = (\<lambda>s. case m s of
      (Ok a, s') \<Rightarrow> f a s'
    | (Err e, s') \<Rightarrow> (Err e, s')
    | (Panic p, s') \<Rightarrow> (Panic p, s'))"

definition ret :: "'a \<Rightarrow> 'a sys" where
  "ret a = (\<lambda>s. (Ok a, s))"

definition throw :: "gerror \<Rightarrow> 'a sys" where
  "throw e = (\<lambda>s. (Err e, s))"

text \<open>\<^verbatim>\<open>fmt.Errorf("<text>: %s", err)\<close> on the way out.\<close>

definition wrap_err :: "string \<Rightarrow> 'a sys \<Rightarrow> 'a sys" where
  "wrap_err t m = (\<lambda>s. case m s of
      (Err e, s') \<Rightarrow> (Err (ErrMsg (t @ error_text e)), s') | r \<Rightarrow> r)"

lemma seq_Ok: "m s = (Ok a, s') \<Longrightarrow> seq m f s = f a s'"
  by (simp add: seq_def)

lemma seq_Err: "m s = (Err e, s') \<Longrightarrow> seq m f s = (Err e, s')"
  by (simp add: seq_def)

lemma seq_OkE:
  assumes "seq m f s = (Ok b, s'')"
  obtains a s' where "m s = (Ok a, s')" and "f a s' = (Ok b, s'')"
  using assms by (cases "m s" rule: prod.exhaust) (auto simp: seq_def split: outcome.splits)

lemma ret_simp [simp]: "ret a s = (Ok a, s)"
  by (simp add: ret_def)

lemma throw_simp [simp]: "throw e s = (Err e, s)"
  by (simp add: throw_def)

lemma wrap_err_Ok [simp]: "wrap_err t m s = (Ok a, s') \<longleftrightarrow> m s = (Ok a, s')"
  by (cases "m s" rule: prod.exhaust) (auto simp: wrap_err_def split: outcome.splits)

section \<open>The file system\<close>

definition put :: "key \<Rightarrow> inode \<Rightarrow> os \<Rightarrow> os" where
  "put k n s = s\<lparr>files := AList.update k n (files s)\<rparr>"

definition touch :: "key \<Rightarrow> os \<Rightarrow> os" where
  "touch k s = (case file_at s k of None \<Rightarrow> s | Some n \<Rightarrow> put k (n\<lparr>mtime := now s\<rparr>) s)"

text \<open>A new directory entry: the directory that holds it is modified.\<close>

definition put_new :: "key \<Rightarrow> inode \<Rightarrow> os \<Rightarrow> os" where
  "put_new k n s = put k n (touch (butlast k) s)"

definition remove_below :: "key \<Rightarrow> os \<Rightarrow> os" where
  "remove_below k s =
     touch (butlast k) (s\<lparr>files := filter (\<lambda>(k', _). \<not> prefix k k') (files s)\<rparr>)"

text \<open>The names of the entries of a directory, sorted as \<^verbatim>\<open>ioutil.ReadDir\<close> sorts them.\<close>

definition children :: "os \<Rightarrow> key \<Rightarrow> string list" where
  "children s k = sort (map last (filter (\<lambda>k'. k' \<noteq> [] \<and> butlast k' = k) (map fst (files s))))"

text \<open>The error for a key without a file: some directory on the way is missing or is a file.\<close>

definition missing :: "os \<Rightarrow> key \<Rightarrow> errno" where
  "missing s k = (if \<exists>p \<in> set (prefixes k). file_at s p \<noteq> None \<and> \<not> is_dir_at s p
     then ENOTDIR else ENOENT)"

definition lookup_key :: "sysop \<Rightarrow> string \<Rightarrow> string \<Rightarrow> key \<Rightarrow> inode sys" where
  "lookup_key op oper path k s = (case fault s op k of
      Some e \<Rightarrow> (Err (PathError oper path e), s)
    | None \<Rightarrow> (case file_at s k of
        Some n \<Rightarrow> (Ok n, s)
      | None \<Rightarrow> (Err (PathError oper path (missing s k)), s)))"

text \<open>A call on a path: the kernel refuses the empty path, otherwise the key is resolved.\<close>

definition with_key :: "string \<Rightarrow> string \<Rightarrow> (key \<Rightarrow> 'a sys) \<Rightarrow> 'a sys" where
  "with_key oper path f s =
     (if path = [] then (Err (PathError oper path ENOENT), s) else f (resolve (cwd s) path) s)"

definition os_Stat :: "string \<Rightarrow> inode sys" where
  "os_Stat path = with_key ''stat'' path (lookup_key OpStat ''stat'' path)"

definition os_Lstat :: "string \<Rightarrow> inode sys" where
  "os_Lstat path = with_key ''lstat'' path (lookup_key OpStat ''lstat'' path)"

text \<open>\<^verbatim>\<open>os.Open\<close>; the handle is the key of the file.\<close>

definition os_Open :: "string \<Rightarrow> key sys" where
  "os_Open path = with_key ''open'' path (\<lambda>k.
     seq (lookup_key OpOpen ''open'' path k) (\<lambda>_. ret k))"

text \<open>Reading an open file to its end; a directory cannot be read.\<close>

definition read_handle :: "string \<Rightarrow> key \<Rightarrow> content sys" where
  "read_handle path k = seq (lookup_key OpRead ''read'' path k) (\<lambda>n.
     if kind n = KDir then throw (PathError ''read'' path EISDIR) else ret (data n))"

definition ioutil_ReadFile :: "string \<Rightarrow> content sys" where
  "ioutil_ReadFile path = seq (os_Open path) (read_handle path)"

text \<open>
  \<^verbatim>\<open>os.OpenFile\<close> for writing with \<^verbatim>\<open>O_CREATE\<close> and either \<^verbatim>\<open>O_TRUNC\<close> or \<^verbatim>\<open>O_EXCL\<close>: an
  existing file is emptied and keeps its permissions (or is refused), a new one gets the given
  permissions less the process's umask.
\<close>

definition new_file :: "os \<Rightarrow> 32 word \<Rightarrow> inode" where
  "new_file s mode = \<lparr>kind = KRegular, perm = mode AND file_perm_mask AND NOT (umask s),
     data = Raw [], atime = now s, mtime = now s\<rparr>"

definition new_dir :: "os \<Rightarrow> 32 word \<Rightarrow> inode" where
  "new_dir s mode = \<lparr>kind = KDir, perm = mode AND dir_perm_mask AND NOT (umask s),
     data = Raw [], atime = now s, mtime = now s\<rparr>"

definition os_OpenFile :: "bool \<Rightarrow> string \<Rightarrow> 32 word \<Rightarrow> key sys" where
  "os_OpenFile excl path mode = with_key ''open'' path (\<lambda>k s.
     case fault s OpOpen k of
       Some e \<Rightarrow> (Err (PathError ''open'' path e), s)
     | None \<Rightarrow> (case file_at s k of
         Some n \<Rightarrow>
           (if excl then (Err (PathError ''open'' path EEXIST), s)
            else if kind n = KDir then (Err (PathError ''open'' path EISDIR), s)
            else (Ok k, put k (n\<lparr>data := Raw [], mtime := now s\<rparr>) s))
       | None \<Rightarrow>
           (if is_dir_at s (butlast k) then
              (Ok k, put_new k (new_file s mode) s)
            else (Err (PathError ''open'' path (missing s k)), s))))"

text \<open>Writing all of \<open>c\<close> through an open handle, and closing it.\<close>

definition write_handle :: "string \<Rightarrow> key \<Rightarrow> content \<Rightarrow> unit sys" where
  "write_handle path k c s = (case fault s OpWrite k of
      Some e \<Rightarrow> (Err (PathError ''write'' path e), s)
    | None \<Rightarrow> (case file_at s k of
        Some n \<Rightarrow> (Ok (), put k (n\<lparr>data := c, mtime := now s\<rparr>) s)
      | None \<Rightarrow> (Ok (), s)))"

definition close_handle :: "string \<Rightarrow> key \<Rightarrow> unit sys" where
  "close_handle path k s = (case fault s OpClose k of
      Some e \<Rightarrow> (Err (PathError ''close'' path e), s) | None \<Rightarrow> (Ok (), s))"

text \<open>\<^verbatim>\<open>os.WriteFile\<close>: the file is closed in any case, and the first error is returned.\<close>

definition os_WriteFile :: "string \<Rightarrow> content \<Rightarrow> 32 word \<Rightarrow> unit sys" where
  "os_WriteFile path c mode = seq (os_OpenFile False path mode) (\<lambda>k s.
     case write_handle path k c s of
       (Ok _, s') \<Rightarrow> close_handle path k s'
     | (r, s') \<Rightarrow> (r, snd (close_handle path k s')))"

definition mkdir_key :: "string \<Rightarrow> key \<Rightarrow> 32 word \<Rightarrow> unit sys" where
  "mkdir_key path k mode s = (case fault s OpMkdir k of
      Some e \<Rightarrow> (Err (PathError ''mkdir'' path e), s)
    | None \<Rightarrow>
        (if file_at s k \<noteq> None then (Err (PathError ''mkdir'' path EEXIST), s)
         else if is_dir_at s (butlast k) then (Ok (), put_new k (new_dir s mode) s)
         else (Err (PathError ''mkdir'' path (missing s k)), s)))"

text \<open>
  \<^verbatim>\<open>os.MkdirAll\<close>, on the reversed key: an existing directory is left alone, a missing one is
  made after its parents, and an error of the last step is forgiven when the directory is there.
\<close>

definition mkdir_last :: "string \<Rightarrow> key \<Rightarrow> 32 word \<Rightarrow> unit sys" where
  "mkdir_last path k mode s =
     (case mkdir_key path k mode s of
        (Ok u, s') \<Rightarrow> (Ok u, s')
      | (r, s') \<Rightarrow> (if is_dir_at s' k then (Ok (), s') else (r, s')))"

fun mkdirs :: "string \<Rightarrow> key \<Rightarrow> 32 word \<Rightarrow> unit sys" where
  "mkdirs path [] mode s = (Ok (), s)"
| "mkdirs path (n # rk) mode s =
     (case lookup_key OpStat ''stat'' path (rev (n # rk)) s of
        (Ok nd, _) \<Rightarrow>
          (if kind nd = KDir then (Ok (), s) else (Err (PathError ''mkdir'' path ENOTDIR), s))
      | _ \<Rightarrow> seq (mkdirs (path_Dir path) rk mode) (\<lambda>_. mkdir_last path (rev (n # rk)) mode) s)"

definition os_MkdirAll :: "string \<Rightarrow> 32 word \<Rightarrow> unit sys" where
  "os_MkdirAll path mode = with_key ''mkdir'' path (\<lambda>k. mkdirs path (rev k) mode)"

text \<open>\<^verbatim>\<open>os.Chtimes\<close>: a zero time leaves the corresponding file time unchanged.\<close>

definition os_Chtimes :: "string \<Rightarrow> int option \<Rightarrow> int option \<Rightarrow> unit sys" where
  "os_Chtimes path at mt = with_key ''chtimes'' path (\<lambda>k.
     seq (lookup_key OpChtimes ''chtimes'' path k) (\<lambda>n s'.
       (Ok (), put k (n\<lparr>atime := (case at of Some t \<Rightarrow> t | None \<Rightarrow> atime n),
                        mtime := (case mt of Some t \<Rightarrow> t | None \<Rightarrow> mtime n)\<rparr>) s')))"

text \<open>\<^verbatim>\<open>ioutil.ReadDir\<close>: the entries with their \<^verbatim>\<open>FileInfo\<close>, sorted by name.\<close>

definition ioutil_ReadDir :: "string \<Rightarrow> (string \<times> inode) list sys" where
  "ioutil_ReadDir path = with_key ''open'' path (\<lambda>k.
     seq (lookup_key OpOpen ''open'' path k) (\<lambda>n.
       seq (lookup_key OpReadDir ''readdirent'' path k) (\<lambda>_ s'.
         if kind n = KDir
         then (Ok (map (\<lambda>c. (c, the (file_at s' (k @ [c])))) (children s' k)), s')
         else (Err (PathError ''readdirent'' path ENOTDIR), s'))))"

text \<open>\<^verbatim>\<open>os.RemoveAll\<close>: the file and everything below it.\<close>

definition os_RemoveAll :: "string \<Rightarrow> unit sys" where
  "os_RemoveAll path s = (let k = resolve (cwd s) path in
     if path = [] then (Ok (), s)
     else case fault s OpRemove k of
       Some e \<Rightarrow> (Err (PathError ''unlinkat'' path e), s)
     | None \<Rightarrow> (Ok (), if file_at s k = None then s else remove_below k s))"

text \<open>
  \<^verbatim>\<open>ioutil.TempDir\<close>: a fresh directory whose name ends in a random string; \<open>rnds\<close> are the random
  strings the generator yields, at most 10000 of which are tried.
\<close>

fun temp_dir_try :: "nat \<Rightarrow> string \<Rightarrow> string \<Rightarrow> string list \<Rightarrow> string sys" where
  "temp_dir_try n dir pat [] s = (Err (ErrMsg ''no random string''), s)"
| "temp_dir_try n dir pat (r # rs) s =
     (let path = (if has_suffix dir ''/'' then dir else dir @ ''/'') @ pat @ r in
      case mkdir_key path (resolve (cwd s) path) 0x1C0 s of
        (Ok _, s') \<Rightarrow> (Ok path, s')
      | (Err e, s') \<Rightarrow>
          (if IsExist e \<and> 0 < n then temp_dir_try (n - 1) dir pat rs s' else (Err e, s'))
      | (Panic p, s') \<Rightarrow> (Panic p, s'))"

definition ioutil_TempDir :: "string list \<Rightarrow> string \<Rightarrow> string \<Rightarrow> string sys" where
  "ioutil_TempDir rnds dir pat s =
     (let d = (if dir = [] then (if getenv s ''TMPDIR'' = [] then ''/tmp'' else getenv s ''TMPDIR'')
               else dir) in
      temp_dir_try 9999 d pat rnds s)"

lemmas os_defs [go_defs] = file_at_def is_dir_at_def getenv_def file_mode_def seq_def ret_def
  throw_def wrap_err_def put_def touch_def put_new_def remove_below_def children_def missing_def
  lookup_key_def with_key_def os_Stat_def os_Lstat_def os_Open_def read_handle_def ioutil_ReadFile_def
  new_file_def new_dir_def os_OpenFile_def write_handle_def close_handle_def os_WriteFile_def
  mkdir_key_def mkdir_last_def os_MkdirAll_def os_Chtimes_def ioutil_ReadDir_def os_RemoveAll_def
  ioutil_TempDir_def file_perm_mask_def dir_perm_mask_def

section \<open>What the primitive updates change\<close>

lemma file_at_put [simp]: "file_at (put k n s) = (file_at s)(k \<mapsto> n)"
  by (simp add: file_at_def put_def update_conv' fun_eq_iff)

lemma put_frame [simp, frame]:
  "cwd (put k n s) = cwd s" "umask (put k n s) = umask s" "now (put k n s) = now s"
  "fault (put k n s) = fault s" "environ (put k n s) = environ s"
  by (simp_all add: put_def)

lemma touch_frame [simp, frame]:
  "cwd (touch k s) = cwd s" "umask (touch k s) = umask s" "now (touch k s) = now s"
  "fault (touch k s) = fault s" "environ (touch k s) = environ s"
  by (simp_all add: touch_def split: option.splits)

lemma put_new_frame [simp, frame]:
  "cwd (put_new k n s) = cwd s" "umask (put_new k n s) = umask s" "now (put_new k n s) = now s"
  "fault (put_new k n s) = fault s" "environ (put_new k n s) = environ s"
  by (simp_all add: put_new_def)

lemma file_at_touch:
  "file_at (touch k s) k' =
     (if k' = k then map_option (\<lambda>n. n\<lparr>mtime := now s\<rparr>) (file_at s k) else file_at s k')"
  by (auto simp: touch_def split: option.splits)

lemma file_at_put_new:
  "file_at (put_new k n s) k' =
     (if k' = k then Some n
      else if k' = butlast k then map_option (\<lambda>n. n\<lparr>mtime := now s\<rparr>) (file_at s k')
      else file_at s k')"
  by (auto simp: put_new_def file_at_touch)

lemma is_dir_at_put: "is_dir_at (put k n s) k' = (if k' = k then kind n = KDir else is_dir_at s k')"
  by (simp add: is_dir_at_def)

lemma is_dir_at_put_new:
  "is_dir_at (put_new k n s) k' = (if k' = k then kind n = KDir else is_dir_at s k')"
  by (auto simp: is_dir_at_def file_at_put_new split: option.splits)

lemma is_dir_at_iff: "is_dir_at s k \<longleftrightarrow> (\<exists>n. file_at s k = Some n \<and> kind n = KDir)"
  by (auto simp: is_dir_at_def split: option.splits)

lemma is_dir_at_exists: "is_dir_at s k \<Longrightarrow> file_at s k \<noteq> None"
  by (auto simp: is_dir_at_iff)

text \<open>Well-formed file systems: unique keys, every entry in a directory, proper names.\<close>

definition fs_wf :: "os \<Rightarrow> bool" where
  "fs_wf s \<longleftrightarrow> distinct (map fst (files s)) \<and> is_dir_at s [] \<and> is_dir_at s (cwd s) \<and>
     (\<forall>k n. file_at s (k @ [n]) \<noteq> None \<longrightarrow> is_dir_at s k \<and> is_name n)"

lemma fs_wf_parent: "fs_wf s \<Longrightarrow> file_at s k \<noteq> None \<Longrightarrow> is_dir_at s (butlast k)"
  by (cases k rule: rev_cases) (auto simp: fs_wf_def)

lemma fs_wf_prefix_dir: "fs_wf s \<Longrightarrow> file_at s (k @ r) \<noteq> None \<Longrightarrow> r \<noteq> [] \<Longrightarrow> is_dir_at s k"
proof (induction r rule: rev_induct)
  case (snoc n r)
  then have d: "is_dir_at s (k @ r)" by (auto simp: fs_wf_def simp flip: append_assoc)
  show ?case
  proof (cases "r = []")
    case False
    moreover have "file_at s (k @ r) \<noteq> None" using d by (rule is_dir_at_exists)
    ultimately show ?thesis using snoc by blast
  qed (use d in simp)
qed simp

lemma fs_wf_names: "fs_wf s \<Longrightarrow> file_at s k \<noteq> None \<Longrightarrow> w \<in> set k \<Longrightarrow> is_name w"
proof (induction k rule: rev_induct)
  case (snoc n k)
  then have "is_dir_at s k" and "is_name n" by (auto simp: fs_wf_def)
  with snoc show ?case by (auto simp: is_dir_at_def split: option.splits)
qed simp

lemma fs_wf_name: "fs_wf s \<Longrightarrow> file_at s (k @ [n]) = Some x \<Longrightarrow> is_name n"
  by (auto simp: fs_wf_def)

lemma fs_wf_cwd_names: "fs_wf s \<Longrightarrow> w \<in> set (cwd s) \<Longrightarrow> is_name w"
  by (rule fs_wf_names [of s "cwd s"]) (simp_all add: fs_wf_def is_dir_at_exists [of s "cwd s", simplified])

lemma fs_wf_resolve: "fs_wf s \<Longrightarrow> w \<in> set (resolve (cwd s) p) \<Longrightarrow> is_name w"
  by (rule resolve_names) (auto dest: fs_wf_cwd_names)

lemma distinct_files_put: "distinct (map fst (files s)) \<Longrightarrow> distinct (map fst (files (put k n s)))"
  by (simp add: put_def distinct_update)

lemma fs_wf_put:
  assumes wf: "fs_wf s" and old: "file_at s k = Some m" and kd: "(kind n = KDir) = (kind m = KDir)"
  shows "fs_wf (put k n s)"
proof -
  have d: "is_dir_at (put k n s) k' = is_dir_at s k'" for k'
    using old kd by (auto simp: is_dir_at_def)
  have e: "(file_at (put k n s) k' \<noteq> None) = (file_at s k' \<noteq> None)" for k'
    using old by auto
  show ?thesis using wf by (simp only: fs_wf_def d e put_frame) (simp add: distinct_files_put)
qed

lemma fs_wf_touch: "fs_wf s \<Longrightarrow> fs_wf (touch k s)"
  by (cases "file_at s k") (auto simp: touch_def intro: fs_wf_put)

lemma fs_wf_put_new:
  assumes wf: "fs_wf s" and new: "file_at s k = None" and par: "is_dir_at s (butlast k)"
    and nm: "\<And>w. w \<in> set k \<Longrightarrow> is_name w"
  shows "fs_wf (put_new k n s)"
proof -
  have kne: "k \<noteq> []" using wf new by (auto simp: fs_wf_def is_dir_at_def)
  have wft: "fs_wf (touch (butlast k) s)" by (rule fs_wf_touch) (rule wf)
  have t: "is_dir_at (touch (butlast k) s) k' = is_dir_at s k'" for k'
    by (auto simp: is_dir_at_def file_at_touch split: option.splits)
  have nk: "\<not> is_dir_at s k" using new by (simp add: is_dir_at_def)
  show ?thesis
    unfolding put_new_def fs_wf_def
  proof (intro conjI allI impI)
    show "distinct (map fst (files (put k n (touch (butlast k) s))))"
      using wft by (simp add: fs_wf_def distinct_files_put)
    show "is_dir_at (put k n (touch (butlast k) s)) []"
      using wf kne by (simp add: is_dir_at_put t fs_wf_def)
    show "is_dir_at (put k n (touch (butlast k) s)) (cwd (put k n (touch (butlast k) s)))"
      using wf nk by (auto simp: is_dir_at_put t fs_wf_def)
    fix k' c assume a: "file_at (put k n (touch (butlast k) s)) (k' @ [c]) \<noteq> None"
    have "is_dir_at s k' \<and> is_name c"
    proof (cases "k' @ [c] = k")
      case True
      then show ?thesis using par nm [of c] by (auto simp flip: True)
    next
      case False
      with a have "file_at s (k' @ [c]) \<noteq> None"
        by (auto simp: file_at_touch split: if_splits)
      with wf show ?thesis by (simp add: fs_wf_def)
    qed
    then show "is_dir_at (put k n (touch (butlast k) s)) k'" and "is_name c"
      using nk by (auto simp: is_dir_at_put t)
  qed
qed

text \<open>The entries of a directory are exactly the names with a file below it, each once.\<close>

lemma set_children: "set (children s k) = {c. file_at s (k @ [c]) \<noteq> None}"
proof -
  have *: "(k' \<noteq> [] \<and> butlast k' = k) = (\<exists>c. k' = k @ [c])" for k'
    by (cases k' rule: rev_cases) auto
  have "c \<in> set (children s k) \<longleftrightarrow> k @ [c] \<in> fst ` set (files s)" for c
    by (auto simp: children_def * image_iff) (metis last_snoc fst_conv)+
  then show ?thesis by (auto simp: file_at_def map_of_eq_None_iff)
qed

lemma distinct_children:
  assumes "fs_wf s"
  shows "distinct (children s k)"
proof -
  have "inj_on last {k'. k' \<noteq> [] \<and> butlast k' = k}"
    by (rule inj_onI) (metis (mono_tags, lifting) append_butlast_last_id mem_Collect_eq)
  then show ?thesis using assms
    by (auto simp: children_def distinct_map fs_wf_def intro: inj_on_subset)
qed

lemma children_sorted: "sorted (children s k)"
  by (simp add: children_def)

section \<open>Steps confined to a subtree\<close>

text \<open>
  \<open>step_below k s s'\<close>: what an operation on files at or below \<open>k\<close> may do. Files elsewhere keep
  their inode, but for the modification time of the directory that holds \<open>k\<close>; directories stay
  directories, the process state is untouched and a well-formed file system stays so.
\<close>

definition same_env :: "os \<Rightarrow> os \<Rightarrow> bool" where
  "same_env s s' \<longleftrightarrow> cwd s' = cwd s \<and> umask s' = umask s \<and> now s' = now s \<and>
     fault s' = fault s \<and> environ s' = environ s"

definition step_below :: "key \<Rightarrow> os \<Rightarrow> os \<Rightarrow> bool" where
  "step_below k s s' \<longleftrightarrow> same_env s s' \<and> fs_wf s' \<and>
     (\<forall>k'. is_dir_at s k' \<longrightarrow> is_dir_at s' k') \<and>
     (\<forall>k'. \<not> prefix k k' \<longrightarrow> file_at s' k' = file_at s k' \<or>
        (k' = butlast k \<and> file_at s' k' = map_option (\<lambda>n. n\<lparr>mtime := now s\<rparr>) (file_at s k')))"

lemma step_below_wf: "step_below k s s' \<Longrightarrow> fs_wf s'"
  by (simp add: step_below_def)

lemma step_below_env: "step_below k s s' \<Longrightarrow> cwd s' = cwd s \<and> umask s' = umask s \<and>
    now s' = now s \<and> fault s' = fault s \<and> environ s' = environ s"
  by (simp add: step_below_def same_env_def)

lemma step_below_dir: "step_below k s s' \<Longrightarrow> is_dir_at s k' \<Longrightarrow> is_dir_at s' k'"
  by (simp add: step_below_def)

lemma step_below_refl: "fs_wf s \<Longrightarrow> step_below k s s"
  by (simp add: step_below_def same_env_def)

lemma map_option_twice:
  "(\<And>n. f (f n) = f n) \<Longrightarrow> map_option f (map_option f x) = map_option f x"
  by (cases x) auto

lemma step_below_trans:
  assumes "step_below k s s'" and "step_below k s' s''"
  shows "step_below k s s''"
proof -
  let ?t = "\<lambda>n :: inode. n\<lparr>mtime := now s\<rparr>"
  have tw: "map_option ?t (map_option ?t x) = map_option ?t x" for x
    by (rule map_option_twice) simp
  have "file_at s'' k' = file_at s k' \<or> (k' = butlast k \<and> file_at s'' k' = map_option ?t (file_at s k'))"
    if "\<not> prefix k k'" for k'
    using assms that tw unfolding step_below_def same_env_def by metis
  then show ?thesis using assms by (auto simp: step_below_def same_env_def)
qed

lemma step_below_mono:
  assumes "step_below (k @ r) s s'"
  shows "step_below k s s'"
proof (cases "r = []")
  case False
  have "k' \<noteq> butlast (k @ r)" if "\<not> prefix k k'" for k'
    using False that by (auto simp: butlast_append)
  moreover have "\<not> prefix (k @ r) k'" if "\<not> prefix k k'" for k'
    using that by (meson append_prefixD)
  ultimately show ?thesis using assms by (auto simp: step_below_def)
qed (use assms in simp)

lemma step_below_file:
  assumes "step_below k s s'" and "\<not> prefix k k'" and "k' \<noteq> butlast k"
  shows "file_at s' k' = file_at s k'"
  using assms by (auto simp: step_below_def)

lemma step_below_put:
  assumes wf: "fs_wf s" and old: "file_at s k = Some m" and kd: "(kind n = KDir) = (kind m = KDir)"
  shows "step_below k s (put k n s)"
  using assms by (auto simp: step_below_def same_env_def fs_wf_put is_dir_at_put is_dir_at_iff)

lemma step_below_put_new:
  assumes "fs_wf s" and "file_at s k = None" and "is_dir_at s (butlast k)"
    and "\<And>w. w \<in> set k \<Longrightarrow> is_name w"
  shows "step_below k s (put_new k n s)"
  using assms
  by (auto simp: step_below_def same_env_def fs_wf_put_new is_dir_at_put_new file_at_put_new
      is_dir_at_iff)

lemma step_below_seq:
  assumes m: "\<And>r s1. m s = (r, s1) \<Longrightarrow> step_below k s s1"
    and f: "\<And>a s1. m s = (Ok a, s1) \<Longrightarrow> step_below k s s1 \<Longrightarrow> f a s1 = (r', s2) \<Longrightarrow> step_below k s1 s2"
    and e: "seq m f s = (r', s2)"
  shows "step_below k s s2"
proof (cases "m s")
  case (Pair r s1)
  then have "step_below k s s1" by (rule m)
  then show ?thesis using e f Pair
    by (cases r) (auto simp: seq_def intro: step_below_trans)
qed

subsection \<open>The calls\<close>

lemma lookup_key_state: "lookup_key op oper path k s = (r, s') \<Longrightarrow> s' = s"
  by (auto simp: lookup_key_def split: option.splits)

lemma lookup_key_Ok: "lookup_key op oper path k s = (Ok n, s') \<longleftrightarrow>
    s' = s \<and> file_at s k = Some n \<and> fault s op k = None"
  by (auto simp: lookup_key_def split: option.splits)

lemma lookup_key_no_Panic [simp]: "lookup_key op oper path k s \<noteq> (Panic p, s')"
  by (auto simp: lookup_key_def split: option.splits)

lemma os_OpenFile_below:
  assumes "fs_wf s" and "os_OpenFile excl path mode s = (r, s')"
  shows "step_below (resolve (cwd s) path) s s'"
  using assms fs_wf_resolve [OF assms(1), of _ path]
  by (auto simp: os_OpenFile_def with_key_def Let_def step_below_refl step_below_put
      step_below_put_new split: option.splits if_splits)

lemma write_handle_below:
  assumes "fs_wf s" and "write_handle path k c s = (r, s')"
  shows "step_below k s s'"
  using assms by (auto simp: write_handle_def step_below_refl step_below_put split: option.splits)

lemma close_handle_state: "close_handle path k s = (r, s') \<Longrightarrow> s' = s"
  by (auto simp: close_handle_def split: option.splits)

lemma os_Chtimes_below:
  assumes "fs_wf s" and "os_Chtimes path at mt s = (r, s')"
  shows "step_below (resolve (cwd s) path) s s'"
  using assms
  by (auto simp: os_Chtimes_def with_key_def seq_def lookup_key_def step_below_refl step_below_put
      split: option.splits if_splits)

lemma mkdir_key_below:
  assumes "fs_wf s" and "mkdir_key path k mode s = (r, s')" and "\<And>w. w \<in> set k \<Longrightarrow> is_name w"
  shows "step_below k s s'"
  using assms
  by (auto simp: mkdir_key_def step_below_refl step_below_put_new split: option.splits if_splits)

lemma mkdir_key_exists: "file_at s k \<noteq> None \<Longrightarrow> \<exists>e. mkdir_key path k mode s = (Err e, s)"
  by (auto simp: mkdir_key_def split: option.splits)

lemma mkdir_last_existing: "is_dir_at s k \<Longrightarrow> mkdir_last path k mode s = (Ok (), s)"
  using mkdir_key_exists [OF is_dir_at_exists, of s k path mode] by (auto simp: mkdir_last_def)

lemma mkdir_last_below:
  assumes "fs_wf s" and "mkdir_last path k mode s = (r, s')" and "\<And>w. w \<in> set k \<Longrightarrow> is_name w"
  shows "step_below k s s'"
proof (cases "mkdir_key path k mode s")
  case (Pair r1 s1)
  then have "s1 = s'" using assms(2) by (auto simp: mkdir_last_def split: outcome.splits if_splits)
  with Pair assms show ?thesis by (auto intro: mkdir_key_below)
qed

lemma mkdir_last_Ok_dir: "mkdir_last path k mode s = (Ok u, s') \<Longrightarrow> is_dir_at s' k"
proof (cases "mkdir_key path k mode s")
  case (Pair r1 s1)
  moreover assume "mkdir_last path k mode s = (Ok u, s')"
  moreover have "mkdir_key path k mode s = (Ok u, s') \<Longrightarrow> is_dir_at s' k"
    by (auto simp: mkdir_key_def is_dir_at_put_new new_dir_def split: option.splits if_splits)
  ultimately show ?thesis by (auto simp: mkdir_last_def split: outcome.splits if_splits)
qed

text \<open>\<^verbatim>\<open>os.MkdirAll\<close> does nothing to an existing directory, whatever the system calls answer.\<close>

lemma mkdirs_existing:
  "fs_wf s \<Longrightarrow> is_dir_at s (rev rk) \<Longrightarrow> mkdirs path rk mode s = (Ok (), s)"
proof (induction rk arbitrary: path)
  case (Cons n rk)
  then have "is_dir_at s (rev rk)" using fs_wf_parent [of s "rev (n # rk)"] is_dir_at_exists by auto
  with Cons have p: "mkdirs p rk mode s = (Ok (), s)" for p by blast
  show ?case using Cons.prems(2)
    by (auto simp: lookup_key_def seq_def p mkdir_last_existing is_dir_at_iff split: option.splits)
qed simp

text \<open>Where the parent directory exists, it makes at most the last element.\<close>

lemma mkdirs_parent:
  assumes "fs_wf s" and "is_dir_at s (rev rk)" and "\<And>w. w \<in> set (n # rk) \<Longrightarrow> is_name w"
    and "mkdirs path (n # rk) mode s = (r, s')"
  shows "step_below (rev (n # rk)) s s'"
proof -
  have p: "mkdirs p rk mode s = (Ok (), s)" for p
    using assms by (intro mkdirs_existing)
  have mk: "mkdir_last path (rev rk @ [n]) mode s = (r, s') \<Longrightarrow> step_below (rev rk @ [n]) s s'"
    using assms by (intro mkdir_last_below) auto
  show ?thesis using assms(1,4) mk
    by (auto simp: lookup_key_def seq_def p step_below_refl split: option.splits if_splits)
qed

text \<open>Success means that the directory is there.\<close>

lemma mkdirs_Ok_dir: "fs_wf s \<Longrightarrow> mkdirs path rk mode s = (Ok u, s') \<Longrightarrow> is_dir_at s' (rev rk)"
proof (cases rk)
  case (Cons n rk')
  assume e: "mkdirs path rk mode s = (Ok u, s')"
  have "(s' = s \<and> is_dir_at s (rev (n # rk'))) \<or>
      seq (mkdirs (path_Dir path) rk' mode) (\<lambda>_. mkdir_last path (rev (n # rk')) mode) s = (Ok u, s')"
    using e unfolding Cons
    by (auto simp: lookup_key_def is_dir_at_iff split: option.splits if_splits)
  then show ?thesis unfolding Cons by (auto elim!: seq_OkE dest: mkdir_last_Ok_dir)
qed (auto simp: fs_wf_def)

lemma os_MkdirAll_Ok_dir:
  "fs_wf s \<Longrightarrow> os_MkdirAll path mode s = (Ok u, s') \<Longrightarrow> is_dir_at s' (resolve (cwd s) path)"
  using mkdirs_Ok_dir [of s path "rev (resolve (cwd s) path)" mode u s']
  by (simp add: os_MkdirAll_def with_key_def split: if_splits)

lemma os_MkdirAll_below:
  assumes "fs_wf s" and "is_dir_at s (resolve (cwd s) a)" and "a \<noteq> []" and "is_name n"
    and "os_MkdirAll (path_Join [a, n]) mode s = (r, s')"
  shows "step_below (resolve (cwd s) a @ [n]) s s'"
proof -
  have "w \<in> set (n # rev (resolve (cwd s) a)) \<Longrightarrow> is_name w" for w
    using assms(1,4) fs_wf_resolve by auto
  then show ?thesis
    using mkdirs_parent [of s "rev (resolve (cwd s) a)" n "path_Join [a, n]" mode r s'] assms
    by (simp del: mkdirs.simps add: os_MkdirAll_def with_key_def)
qed

subsection \<open>Confined programs\<close>

text \<open>
  A program is confined to \<open>k\<close> when every run of it, successful or not, is a step below \<open>k\<close>. The
  process's working directory is \<open>c\<close>, and \<open>ds\<close> are directories known to exist at the start; they
  still exist later, since confined steps keep directories.
\<close>

definition confined :: "key \<Rightarrow> key set \<Rightarrow> key \<Rightarrow> 'a sys \<Rightarrow> bool" where
  "confined c ds k m \<longleftrightarrow> (\<forall>s r s'. fs_wf s \<longrightarrow> cwd s = c \<longrightarrow> (\<forall>d \<in> ds. is_dir_at s d) \<longrightarrow>
     m s = (r, s') \<longrightarrow> step_below k s s')"

named_theorems confined_rules

lemma confinedI:
  "(\<And>s r s'. fs_wf s \<Longrightarrow> cwd s = c \<Longrightarrow> (\<And>d. d \<in> ds \<Longrightarrow> is_dir_at s d) \<Longrightarrow> m s = (r, s') \<Longrightarrow>
     step_below k s s') \<Longrightarrow> confined c ds k m"
  by (simp add: confined_def)

lemma confinedD:
  "confined c ds k m \<Longrightarrow> fs_wf s \<Longrightarrow> cwd s = c \<Longrightarrow> (\<And>d. d \<in> ds \<Longrightarrow> is_dir_at s d) \<Longrightarrow>
   m s = (r, s') \<Longrightarrow> step_below k s s'"
  by (simp add: confined_def)

lemma confined_mono: "confined c ds (k @ r) m \<Longrightarrow> confined c ds k m"
  by (auto simp: confined_def intro: step_below_mono)

lemma confined_dirs: "confined c ds k m \<Longrightarrow> ds \<subseteq> ds' \<Longrightarrow> confined c ds' k m"
  by (auto simp: confined_def)

text \<open>Sequential composition; a value read on the way may be used for what follows.\<close>

lemma confined_seq_val:
  assumes m: "confined c ds k m"
    and f: "\<And>a s s'. cwd s = c \<Longrightarrow> fs_wf s \<Longrightarrow> m s = (Ok a, s') \<Longrightarrow> (\<And>d. d \<in> ds \<Longrightarrow> is_dir_at s' d) \<Longrightarrow>
       \<exists>ds'. (\<forall>d \<in> ds'. is_dir_at s' d) \<and> confined c ds' k (f a)"
  shows "confined c ds k (seq m f)"
proof (rule confinedI)
  fix s r s2
  assume s: "fs_wf s" "cwd s = c" "\<And>d. d \<in> ds \<Longrightarrow> is_dir_at s d" and e: "seq m f s = (r, s2)"
  show "step_below k s s2"
  proof (rule step_below_seq [OF _ _ e])
    fix r1 s1 assume "m s = (r1, s1)"
    then show "step_below k s s1" using confinedD [OF m s] by blast
  next
    fix a s1
    assume a: "m s = (Ok a, s1)" and b: "step_below k s s1" and fa: "f a s1 = (r, s2)"
    have d: "is_dir_at s1 d" if "d \<in> ds" for d using step_below_dir [OF b] s(3) that by blast
    obtain ds' where "\<forall>d \<in> ds'. is_dir_at s1 d" and "confined c ds' k (f a)"
      using f [OF s(2) s(1) a d] by blast
    then show "step_below k s1 s2"
      using step_below_wf [OF b] step_below_env [OF b] s(2) fa by (auto elim: confinedD)
  qed
qed

lemma confined_seq [confined_rules]:
  "confined c ds k m \<Longrightarrow> (\<And>a. confined c ds k (f a)) \<Longrightarrow> confined c ds k (seq m f)"
  by (rule confined_seq_val) blast+

lemma confined_readonly:
  "(\<And>s r s'. m s = (r, s') \<Longrightarrow> s' = s) \<Longrightarrow> confined c ds k m"
  by (auto simp: confined_def intro: step_below_refl)

lemma confined_simple [confined_rules]:
  "confined c ds k (ret a)" "confined c ds k (throw e)" "confined c ds k (lookup_key op oper path h)"
  "confined c ds k (close_handle path h)"
  by (auto intro!: confined_readonly dest: lookup_key_state close_handle_state)

lemma confined_lambda [confined_rules]: "confined c ds k (\<lambda>s. (r, s))"
  by (rule confined_readonly) simp

lemma confined_wrap_err [confined_rules]:
  assumes "confined c ds k m"
  shows "confined c ds k (wrap_err t m)"
proof (rule confinedI)
  fix s r s'
  assume s: "fs_wf s" "cwd s = c" "\<And>d. d \<in> ds \<Longrightarrow> is_dir_at s d" and e: "wrap_err t m s = (r, s')"
  have "snd (m s) = s'"
    using e by (cases "m s" rule: prod.exhaust) (auto simp: wrap_err_def split: outcome.splits)
  then show "step_below k s s'" using confinedD [OF assms s] by (metis prod.collapse)
qed

lemma read_handle_state: "read_handle path k s = (r, s') \<Longrightarrow> s' = s"
  by (auto simp: read_handle_def seq_def lookup_key_def split: option.splits if_splits)

lemma os_Open_state: "os_Open path s = (r, s') \<Longrightarrow> s' = s"
  by (auto simp: os_Open_def with_key_def seq_def lookup_key_def split: option.splits if_splits)

lemma os_Stat_state: "os_Stat path s = (r, s') \<Longrightarrow> s' = s"
  by (auto simp: os_Stat_def with_key_def lookup_key_def split: option.splits if_splits)

lemma os_Lstat_state: "os_Lstat path s = (r, s') \<Longrightarrow> s' = s"
  by (auto simp: os_Lstat_def with_key_def lookup_key_def split: option.splits if_splits)

lemma ioutil_ReadDir_state: "ioutil_ReadDir path s = (r, s') \<Longrightarrow> s' = s"
  by (auto simp: ioutil_ReadDir_def with_key_def seq_def lookup_key_def
      split: option.splits if_splits)

lemma ioutil_ReadDir_Ok:
  "ioutil_ReadDir path s = (Ok es, s') \<longleftrightarrow> s' = s \<and> path \<noteq> [] \<and> is_dir_at s (resolve (cwd s) path) \<and>
     fault s OpOpen (resolve (cwd s) path) = None \<and> fault s OpReadDir (resolve (cwd s) path) = None \<and>
     es = map (\<lambda>c. (c, the (file_at s (resolve (cwd s) path @ [c])))) (children s (resolve (cwd s) path))"
  by (auto simp: ioutil_ReadDir_def with_key_def seq_def lookup_key_def is_dir_at_iff
      split: option.splits if_splits)

lemma ReadDir_names:
  assumes "fs_wf s" and "ioutil_ReadDir path s = (Ok es, s')" and "(name, de) \<in> set es"
  shows "is_name name"
proof -
  have "name \<in> set (children s (resolve (cwd s) path))"
    using assms(2,3) by (auto simp: ioutil_ReadDir_Ok)
  then show ?thesis using fs_wf_name [OF assms(1)] by (auto simp: set_children)
qed

lemma ioutil_ReadFile_state: "ioutil_ReadFile path s = (r, s') \<Longrightarrow> s' = s"
  by (auto simp: ioutil_ReadFile_def seq_def split: prod.splits outcome.splits
      dest: os_Open_state read_handle_state)

lemma confined_reads [confined_rules]:
  "confined c ds k (read_handle path h)" "confined c ds k (os_Open path)"
  "confined c ds k (os_Stat path)" "confined c ds k (os_Lstat path)"
  "confined c ds k (ioutil_ReadDir path)" "confined c ds k (ioutil_ReadFile path)"
  by (auto intro!: confined_readonly dest: read_handle_state os_Open_state os_Stat_state
      os_Lstat_state ioutil_ReadDir_state ioutil_ReadFile_state)

lemma confined_writes [confined_rules]:
  "confined c ds (resolve c path) (os_OpenFile excl path mode)"
  "confined c ds k (write_handle path k x)"
  "confined c ds (resolve c path) (os_Chtimes path at mt)"
  by (auto intro!: confinedI dest: os_OpenFile_below write_handle_below os_Chtimes_below)

lemma confined_MkdirAll:
  "resolve c a \<in> ds \<Longrightarrow> a \<noteq> [] \<Longrightarrow> is_name n \<Longrightarrow>
   confined c ds (resolve c a @ [n]) (os_MkdirAll (path_Join [a, n]) mode)"
  by (rule confinedI) (auto intro: os_MkdirAll_below)

lemma os_OpenFile_Ok: "os_OpenFile excl path mode s = (Ok k, s') \<Longrightarrow> k = resolve (cwd s) path"
  by (auto simp: os_OpenFile_def with_key_def split: option.splits if_splits)

text \<open>Opening a file for writing and then using the handle.\<close>

lemma confined_OpenFile_seq:
  assumes "resolve c path = k" and "confined c ds k (f k)"
  shows "confined c ds k (seq (os_OpenFile excl path mode) f)"
proof (rule confined_seq_val)
  show "confined c ds k (os_OpenFile excl path mode)"
    using confined_writes(1) [of c ds path excl mode] assms(1) by simp
  fix a s s'
  assume "cwd s = c" and o: "os_OpenFile excl path mode s = (Ok a, s')"
    and d: "\<And>d. d \<in> ds \<Longrightarrow> is_dir_at s' d"
  then have "a = k" using os_OpenFile_Ok [OF o] assms(1) by simp
  then have "(\<forall>d \<in> ds. is_dir_at s' d) \<and> confined c ds k (f a)" using d assms(2) by simp
  then show "\<exists>ds'. (\<forall>d \<in> ds'. is_dir_at s' d) \<and> confined c ds' k (f a)" ..
qed

text \<open>A write followed by a close that happens in any case.\<close>

lemma confined_close_after:
  assumes "confined c ds k m"
  shows "confined c ds k (\<lambda>s. case m s of
      (Ok _, s') \<Rightarrow> close_handle path h s' | (r, s') \<Rightarrow> (r, snd (close_handle path h s')))"
proof (rule confinedI)
  fix s r s'
  assume s: "fs_wf s" "cwd s = c" "\<And>d. d \<in> ds \<Longrightarrow> is_dir_at s d"
    and e: "(case m s of (Ok _, s') \<Rightarrow> close_handle path h s'
      | (r, s') \<Rightarrow> (r, snd (close_handle path h s'))) = (r, s')"
  have "snd (close_handle path h x) = x" for x
    using close_handle_state by (metis prod.collapse)
  then have "snd (m s) = s'" using e
    by (cases "m s" rule: prod.exhaust) (auto split: outcome.splits dest: close_handle_state)
  then show "step_below k s s'" using confinedD [OF assms s] by (metis prod.collapse)
qed

lemma confined_WriteFile [confined_rules]:
  "confined c ds (resolve c path) (os_WriteFile path x mode)"
  unfolding os_WriteFile_def
  by (rule confined_OpenFile_seq [OF refl], rule confined_close_after, rule confined_writes)

section \<open>Operations on a destination directory\<close>

text \<open>
  An operation that takes a source and an existing destination directory and, for the sources \<open>ok\<close>
  admits, is confined to the destination on every outcome.
\<close>

locale subtree_writer =
  fixes op :: "'x \<Rightarrow> string \<Rightarrow> 'a sys" and ok :: "'x \<Rightarrow> bool"
  assumes writes: "ok x \<Longrightarrow> dest \<noteq> [] \<Longrightarrow> confined c {resolve c dest} (resolve c dest) (op x dest)"
begin

lemma step:
  assumes "op x dest s = (r, s')" and "ok x" and "dest \<noteq> []" and "fs_wf s" and "is_dir_at s (resolve (cwd s) dest)"
  shows "step_below (resolve (cwd s) dest) s s'"
  by (rule confinedD [OF writes [OF assms(2,3)] assms(4) refl _ assms(1)]) (use assms(5) in simp)

lemma keeps_outside:
  assumes "op x dest s = (r, s')" and "ok x" and "dest \<noteq> []" and "fs_wf s" and "is_dir_at s (resolve (cwd s) dest)"
    and "\<not> prefix (resolve (cwd s) dest) k" and "k \<noteq> butlast (resolve (cwd s) dest)"
  shows "file_at s' k = file_at s k"
  using step_below_file [OF step [OF assms(1-5)]] assms(6,7) by blast

lemma keeps_wf:
  assumes "op x dest s = (r, s')" and "ok x" and "dest \<noteq> []" and "fs_wf s" and "is_dir_at s (resolve (cwd s) dest)"
  shows "fs_wf s' \<and> is_dir_at s' (resolve (cwd s') dest)"
  using step [OF assms] assms(5) step_below_wf step_below_dir step_below_env by metis

end

end
