(* ===== verification/FsCopy.thy ===== *)
theory FsCopy
  imports OsModel
begin

text \<open>
  Package \<^verbatim>\<open>fs\<close>, files \<^verbatim>\<open>copy_linux.go\<close> and \<^verbatim>\<open>update.go\<close>: copying files and
  directory trees, and rewriting a file. \<^verbatim>\<open>CopyDir\<close> calls itself on every directory it finds at
  the time it reads it, so its recursion is bounded only when the destination is not inside the
  source: the first argument of the model bounds the depth of the recursion, and running out of it
  is the stack overflow that ends a Go process. \<open>CopyDir_exact\<close> gives a depth that is enough.
\<close>

section \<open>Copying\<close>

text \<open>
  \<^verbatim>\<open>io.Copy\<close> into \<open>target\<close> and its \<^verbatim>\<open>Close\<close>, which happens in any case; an error of the copy
  wins over an error of the close.
\<close>

definition copyClose :: "string \<Rightarrow> key \<Rightarrow> content sys \<Rightarrow> unit sys" where
  "copyClose path target reader s =
     (case seq reader (write_handle path target) s of
        (Ok _, s') \<Rightarrow> close_handle path target s'
      | (r, s') \<Rightarrow> (r, snd (close_handle path target s')))"

text \<open>The access time comes from the \<^verbatim>\<open>syscall.Stat_t\<close> every Linux \<^verbatim>\<open>FileInfo\<close> carries.\<close>

definition chtimes :: "string \<Rightarrow> inode \<Rightarrow> unit sys" where
  "chtimes target fi = os_Chtimes target (Some (atime fi)) (Some (mtime fi))"

definition CopyFile :: "string \<Rightarrow> string \<Rightarrow> unit sys" where
  "CopyFile src dest =
     seq (os_Open (path_Clean src)) (\<lambda>source.
     seq (lookup_key OpStat ''stat'' (path_Clean src) source) (\<lambda>fi.
     seq (os_OpenFile False (path_Clean dest) (file_mode fi)) (\<lambda>target.
     seq (copyClose (path_Clean dest) target (read_handle (path_Clean src) source)) (\<lambda>_.
     chtimes dest fi))))"

fun CopyDir :: "nat \<Rightarrow> string \<Rightarrow> string \<Rightarrow> unit sys"
  and copy_entries :: "nat \<Rightarrow> string \<Rightarrow> string \<Rightarrow> (string \<times> inode) list \<Rightarrow> unit sys" where
  "CopyDir 0 src dest = (\<lambda>s. (Panic ''stack overflow'', s))"
| "CopyDir (Suc d) src dest = seq (ioutil_ReadDir src) (copy_entries d src dest)"
| "copy_entries d src dest [] = ret ()"
| "copy_entries d src dest ((name, de) # rest) =
     (let sourcePath = path_Join [src, name]; destPath = path_Join [dest, name] in
      if kind de = KDir then
        seq (os_MkdirAll destPath (file_mode de)) (\<lambda>_.
        seq (CopyDir d sourcePath destPath) (\<lambda>_.
        seq (chtimes destPath de) (\<lambda>_.
        copy_entries d src dest rest)))
      else
        seq (CopyFile sourcePath destPath) (\<lambda>_.
        copy_entries d src dest rest))"

section \<open>Updating\<close>

text \<open>
  \<^verbatim>\<open>UpdateFile\<close>: an error of \<^verbatim>\<open>os.Stat\<close> other than "does not exist" is not returned; the nil
  \<^verbatim>\<open>FileInfo\<close> is then used for its mode after the update function has run, which panics.
\<close>

definition UpdateFile :: "string \<Rightarrow> string \<Rightarrow> (string \<Rightarrow> content sys) \<Rightarrow> unit sys" where
  "UpdateFile src dest updateFunc s =
     (case os_Stat src s of
        (Err e, s') \<Rightarrow>
          (if IsNotExist e then (Err e, s')
           else seq (updateFunc src) (\<lambda>_ s''. (Panic ''nil pointer dereference'', s'')) s')
      | (Ok file, s') \<Rightarrow> seq (updateFunc src) (\<lambda>b. os_WriteFile dest b (file_mode file)) s'
      | (Panic p, s') \<Rightarrow> (Panic p, s'))"

lemmas fs_copy_defs [go_defs] = copyClose_def chtimes_def CopyFile_def UpdateFile_def

section \<open>Where copying writes\<close>

lemma confined_copyClose [confined_rules]:
  "confined c ds k reader \<Longrightarrow> confined c ds k (copyClose path k reader)"
  unfolding copyClose_def by (intro confined_close_after confined_seq confined_writes)

lemma confined_chtimes [confined_rules]: "confined c ds (resolve c path) (chtimes path fi)"
  unfolding chtimes_def by (rule confined_writes)

text \<open>Whatever happens, \<^verbatim>\<open>CopyFile\<close> writes the destination only.\<close>

lemma confined_CopyFile [confined_rules]: "confined c ds (resolve c dest) (CopyFile src dest)"
  unfolding CopyFile_def
  by (intro confined_seq confined_reads confined_simple confined_OpenFile_seq confined_copyClose
      confined_chtimes resolve_Clean)

text \<open>Copying one subdirectory: it is made in the destination before anything is copied into it.\<close>

lemma confined_subdir:
  fixes m :: "unit sys"
  assumes ne: "dest \<noteq> []" and nm: "is_name name"
    and sub: "confined c {resolve c dest @ [name]} (resolve c dest @ [name]) copy"
    and rest: "confined c {resolve c dest} (resolve c dest) m"
  shows "confined c {resolve c dest} (resolve c dest) (seq (os_MkdirAll (path_Join [dest, name]) (file_mode de)) (\<lambda>_.
    seq copy (\<lambda>_. seq (chtimes (path_Join [dest, name]) de) (\<lambda>_. m))))"
proof -
  let ?k = "resolve c dest"
  let ?after = "seq copy (\<lambda>_. seq (chtimes (path_Join [dest, name]) de) (\<lambda>_. m))"
  have dk: "resolve c (path_Join [dest, name]) = ?k @ [name]" using ne nm by simp
  have cht: "confined c {?k} ?k (chtimes (path_Join [dest, name]) de)"
    using confined_chtimes [of c "{?k}" "path_Join [dest, name]" de] dk by (auto intro: confined_mono)
  have mk: "confined c {?k} ?k (os_MkdirAll (path_Join [dest, name]) (file_mode de))"
    using ne nm by (intro confined_mono [OF confined_MkdirAll]) auto
  have after: "confined c {?k, ?k @ [name]} ?k ?after"
    by (intro confined_seq)
      (auto intro: confined_dirs [OF confined_mono [OF sub]] confined_dirs [OF cht] confined_dirs [OF rest])
  show ?thesis
  proof (rule confined_seq_val [OF mk])
    fix u s s'
    assume "fs_wf s" "cwd s = c" and m: "os_MkdirAll (path_Join [dest, name]) (file_mode de) s = (Ok u, s')"
      and k: "\<And>k. k \<in> {?k} \<Longrightarrow> is_dir_at s' k"
    then have "is_dir_at s' (?k @ [name])" using os_MkdirAll_Ok_dir [OF _ m] dk by simp
    with k have "\<forall>d \<in> {?k, ?k @ [name]}. is_dir_at s' d" by simp
    then show "\<exists>ds'. (\<forall>d \<in> ds'. is_dir_at s' d) \<and> confined c ds' ?k ?after" using after by blast
  qed
qed

text \<open>\<^verbatim>\<open>CopyDir\<close> into an existing directory writes below that directory only.\<close>

lemma confined_CopyDir:
  "dest \<noteq> [] \<Longrightarrow> src \<noteq> [] \<Longrightarrow> confined c {resolve c dest} (resolve c dest) (CopyDir d src dest)"
  "dest \<noteq> [] \<Longrightarrow> src \<noteq> [] \<Longrightarrow> (\<And>n de. (n, de) \<in> set es \<Longrightarrow> is_name n) \<Longrightarrow>
   confined c {resolve c dest} (resolve c dest) (copy_entries d src dest es)"
proof (induction d src dest and d src dest es rule: CopyDir_copy_entries.induct)
  case (1 src dest)
  then show ?case by (auto intro: confined_rules)
next
  case (2 d src dest)
  show ?case
    unfolding CopyDir.simps
  proof (rule confined_seq_val)
    fix es s s'
    assume wf: "fs_wf s" and r: "ioutil_ReadDir src s = (Ok es, s')"
      and d: "\<And>k. k \<in> {resolve c dest} \<Longrightarrow> is_dir_at s' k"
    have "confined c {resolve c dest} (resolve c dest) (copy_entries d src dest es)"
      by (rule "2.IH") (use "2.prems" ReadDir_names [OF wf r] in auto)
    then show "\<exists>ds'. (\<forall>d \<in> ds'. is_dir_at s' d) \<and>
        confined c ds' (resolve c dest) (copy_entries d src dest es)"
      using d by blast
  qed (rule confined_rules)
next
  case (3 d src dest)
  then show ?case by (auto intro: confined_rules)
next
  case (4 d src dest name de rest)
  have nm: "is_name name" by (rule "4.prems"(3) [of name de]) simp
  have nms: "is_name n" if "(n, e) \<in> set rest" for n e
    by (rule "4.prems"(3) [of n e]) (use that in simp)
  let ?k = "resolve c dest"
  have rest: "confined c {?k} ?k (copy_entries d src dest rest)"
  proof (cases "kind de = KDir")
    case True
    from "4.IH"(2) [OF refl refl True "4.prems"(1,2) nms] show ?thesis .
  next
    case False
    from "4.IH"(3) [OF refl refl False "4.prems"(1,2) nms] show ?thesis .
  qed
  have dk: "resolve c (path_Join [dest, name]) = ?k @ [name]" using 4 nm by simp
  show ?case
  proof (cases "kind de = KDir")
    case True
    have "confined c {?k @ [name]} (?k @ [name]) (CopyDir d (path_Join [src, name]) (path_Join [dest, name]))"
      using 4 True dk by auto
    from confined_subdir [OF "4.prems"(1) nm this rest, of de] show ?thesis using True by (simp add: Let_def)
  next
    case False
    have "confined c {?k} ?k (CopyFile (path_Join [src, name]) (path_Join [dest, name]))"
      using confined_CopyFile [of c "{?k}" "path_Join [dest, name]" "path_Join [src, name]"] dk
      by (auto intro: confined_mono)
    then show ?thesis using False rest by (auto simp: Let_def intro: confined_rules)
  qed
qed

interpretation copy_file: subtree_writer CopyFile "\<lambda>_. True"
  by unfold_locales (rule confined_CopyFile)

interpretation copy_dir: subtree_writer "\<lambda>(d, src). CopyDir d src" "\<lambda>(d, src). src \<noteq> []"
  by unfold_locales (auto intro: confined_CopyDir)

end
