(* ===== verification/Encoding.thy ===== *)
theory Encoding
  imports Prelude
begin

text \<open>
  The identifiers and encodings \<^verbatim>\<open>server.go\<close> makes from bytes: the random UUID of \<^verbatim>\<open>UUID\<close>, with
  the two bytes it masks kept as 8-bit words, and the standard base64 encoding used for the TLS
  material in \<^verbatim>\<open>toSecretData\<close>, with a decoder as the reference for it.
\<close>

section \<open>UUIDs\<close>

definition hexdigit :: "8 word \<Rightarrow> char" where
  "hexdigit d = char_of (if d < 10 then 48 + unat d else 87 + unat d)"

definition hex_byte :: "8 word \<Rightarrow> string" where
  "hex_byte b = [hexdigit (drop_bit 4 b), hexdigit (b AND 15)]"

text \<open>The verb \<^verbatim>\<open>%x\<close> on a byte slice.\<close>

definition hex_bytes :: "8 word list \<Rightarrow> string" where
  "hex_bytes bs = concat (map hex_byte bs)"

definition uuid_bytes :: "8 word list \<Rightarrow> 8 word list" where
  "uuid_bytes bs =
     (let b8 = bs[8 := (bs ! 8 AND NOT 0xC0) OR 0x80]
      in b8[6 := (b8 ! 6 AND NOT 0xF0) OR 0x40])"

definition uuid_text :: "8 word list \<Rightarrow> string" where
  "uuid_text u = hex_bytes (take 4 u) @ ''-'' @ hex_bytes (take 2 (drop 4 u)) @ ''-'' @
     hex_bytes (take 2 (drop 6 u)) @ ''-'' @ hex_bytes (take 2 (drop 8 u)) @ ''-'' @ hex_bytes (drop 10 u)"

text \<open>
  \<open>rnd\<close> is what \<^verbatim>\<open>rand.Read\<close> filled the 16 bytes with, \<^const>\<open>None\<close> when it failed.
\<close>

definition UUID :: "8 word list option \<Rightarrow> string outcome" where
  "UUID rnd = (case rnd of
      None \<Rightarrow> Panic ''failed to generate UUID''
    | Some bs \<Rightarrow> Ok (uuid_text (uuid_bytes bs)))"

lemmas uuid_defs [go_defs] = hexdigit_def hex_byte_def hex_bytes_def uuid_bytes_def uuid_text_def UUID_def

lemma hex_bytes_length [simp]: "length (hex_bytes bs) = 2 * length bs"
  by (induction bs) (auto simp: hex_bytes_def hex_byte_def)

lemma uuid_bytes_length [simp]: "length (uuid_bytes bs) = length bs"
  by (simp add: uuid_bytes_def Let_def)

text \<open>A list of sixteen bytes, byte by byte.\<close>

lemma length_16:
  assumes "length bs = 16"
  obtains b0 b1 b2 b3 b4 b5 b6 b7 b8 b9 b10 b11 b12 b13 b14 b15
  where "bs = [b0, b1, b2, b3, b4, b5, b6, b7, b8, b9, b10, b11, b12, b13, b14, b15]"
  using assms by (auto simp: length_Suc_conv eval_nat_numeral)

lemma unat_nibble: "unat (drop_bit 4 (b :: 8 word)) < 16" "unat (b AND 15) < 16"
proof -
  have e: "unat (drop_bit 4 b) = drop_bit 4 (unat b)" by (rule unat_drop_bit_eq)
  have "unat b < 256" using unsigned_less [of b, where ?'a = nat] by simp
  then have "drop_bit 4 (unat b) < 16" by (simp only: drop_bit_eq_div) (simp add: less_mult_imp_div_less)
  with e show "unat (drop_bit 4 b) < 16" by (simp only:)
  have "unat (b AND 15) \<le> unat (15 :: 8 word)"
    by (rule word_and_le1 [THEN word_le_nat_alt [THEN iffD1]])
  then show "unat (b AND 15) < 16" by simp
qed

lemma of_char_hexdigit:
  "unat d < 16 \<Longrightarrow> of_char (hexdigit d) = (if unat d < 10 then 48 + unat d else 87 + unat d)"
  by (simp add: hexdigit_def word_less_nat_alt of_char_of)

lemma hexdigit_inj:
  assumes "unat a < 16" "unat b < 16" "hexdigit a = hexdigit b"
  shows "a = b"
proof -
  have "(of_char (hexdigit a) :: nat) = of_char (hexdigit b)" using assms(3) by simp
  then have "unat a = unat b"
    using of_char_hexdigit [OF assms(1)] of_char_hexdigit [OF assms(2)] assms(1,2)
    by (simp split: if_splits)
  then show ?thesis by (simp add: word_unat_eq_iff)
qed

lemma byte_nibbles:
  assumes "drop_bit 4 a = drop_bit 4 b" and "a AND 15 = b AND 15"
  shows "a = (b :: 8 word)"
proof -
  have "x = push_bit 4 (drop_bit 4 x) + (x AND 15)" for x :: "8 word"
    using bits_ident [of 4 x] by (simp add: take_bit_eq_mask mask_eq_exp_minus_1)
  then show ?thesis using assms by metis
qed

lemma hex_byte_inj:
  assumes "hex_byte a = hex_byte b"
  shows "a = b"
proof (rule byte_nibbles)
  show "drop_bit 4 a = drop_bit 4 b"
    using assms by (intro hexdigit_inj unat_nibble) (simp add: hex_byte_def)
  show "a AND 15 = b AND 15"
    using assms by (intro hexdigit_inj unat_nibble) (simp add: hex_byte_def)
qed

lemma hex_bytes_inj: "length as = length bs \<Longrightarrow> hex_bytes as = hex_bytes bs \<Longrightarrow> as = bs"
proof (induction as bs rule: list_induct2)
  case (Cons a as b bs)
  have l: "length (hex_byte x) = 2" for x by (simp add: hex_byte_def)
  from Cons.prems have "hex_byte a @ hex_bytes as = hex_byte b @ hex_bytes bs"
    by (simp add: hex_bytes_def)
  then have "hex_byte a = hex_byte b" and "hex_bytes as = hex_bytes bs"
    using l by (simp_all add: append_eq_append_conv)
  with Cons.IH show ?case by (simp add: hex_byte_inj)
qed simp

lemma uuid_text_inj:
  assumes "length u = 16" and "length v = 16" and "uuid_text u = uuid_text v"
  shows "u = v"
proof -
  have "hex_bytes (take 4 u) = hex_bytes (take 4 v)"
    "hex_bytes (take 2 (drop 4 u)) = hex_bytes (take 2 (drop 4 v))"
    "hex_bytes (take 2 (drop 6 u)) = hex_bytes (take 2 (drop 6 v))"
    "hex_bytes (take 2 (drop 8 u)) = hex_bytes (take 2 (drop 8 v))"
    "hex_bytes (drop 10 u) = hex_bytes (drop 10 v)"
    using assms by (simp_all add: uuid_text_def append_eq_append_conv)
  then have "take 4 u = take 4 v" "take 2 (drop 4 u) = take 2 (drop 4 v)"
    "take 2 (drop 6 u) = take 2 (drop 6 v)" "take 2 (drop 8 u) = take 2 (drop 8 v)"
    "drop 10 u = drop 10 v"
    using assms by (auto intro: hex_bytes_inj)
  with assms show ?thesis
    by (elim length_16) auto
qed

section \<open>Base64\<close>

definition b64_alphabet :: string where
  "b64_alphabet = ''ABCDEFGHIJKLMNOPQRSTUVWXYZabcdefghijklmnopqrstuvwxyz0123456789+/''"

definition b64_char :: "nat \<Rightarrow> char" where
  "b64_char n = b64_alphabet ! n"

fun b64_encode :: "nat list \<Rightarrow> string" where
  "b64_encode [] = []"
| "b64_encode [a] = [b64_char (a div 4), b64_char (a mod 4 * 16), CHR ''='', CHR ''='']"
| "b64_encode [a, b] =
     [b64_char (a div 4), b64_char (a mod 4 * 16 + b div 16), b64_char (b mod 16 * 4), CHR ''='']"
| "b64_encode (a # b # c # r) =
     [b64_char (a div 4), b64_char (a mod 4 * 16 + b div 16), b64_char (b mod 16 * 4 + c div 64),
      b64_char (c mod 64)] @ b64_encode r"

text \<open>\<^verbatim>\<open>base64.StdEncoding.EncodeToString([]byte(s))\<close>.\<close>

definition EncodeToString :: "string \<Rightarrow> string" where
  "EncodeToString s = b64_encode (map of_char s)"

definition b64_value :: "char \<Rightarrow> nat option" where
  "b64_value c = (if c \<in> set b64_alphabet then Some (length (takeWhile (\<lambda>x. x \<noteq> c) b64_alphabet)) else None)"

fun b64_decode :: "string \<Rightarrow> nat list option" where
  "b64_decode [] = Some []"
| "b64_decode (p # q # x # y # r) =
     (case (b64_value p, b64_value q) of
        (Some v, Some w) \<Rightarrow>
          (if x = CHR ''='' \<and> y = CHR ''='' \<and> r = [] then Some [v * 4 + w div 16]
           else case b64_value x of
             None \<Rightarrow> None
           | Some t \<Rightarrow>
               (if y = CHR ''='' \<and> r = [] then Some [v * 4 + w div 16, w mod 16 * 16 + t div 4]
                else case b64_value y of
                  None \<Rightarrow> None
                | Some z \<Rightarrow>
                    map_option ((@) [v * 4 + w div 16, w mod 16 * 16 + t div 4, t mod 4 * 64 + z])
                      (b64_decode r)))
      | _ \<Rightarrow> None)"
| "b64_decode _ = None"

definition DecodeString :: "string \<Rightarrow> string option" where
  "DecodeString s = map_option (map char_of) (b64_decode s)"

lemma b64_value_char: "n < 64 \<Longrightarrow> b64_value (b64_char n) = Some n \<and> b64_char n \<noteq> CHR ''=''"
proof -
  have "\<forall>n \<in> set [0..<64]. b64_value (b64_char n) = Some n \<and> b64_char n \<noteq> CHR ''=''"
    by code_simp
  then show "n < 64 \<Longrightarrow> b64_value (b64_char n) = Some n \<and> b64_char n \<noteq> CHR ''=''" by simp
qed

text \<open>The six-bit groups are in range, and the bytes can be read off them again.\<close>

lemma b64_groups:
  assumes "a < 256" "b < 256" "c < (256 :: nat)"
  shows "a div 4 < 64" "a mod 4 * 16 + b div 16 < 64" "b mod 16 * 4 + c div 64 < 64" "c mod 64 < 64"
    "a div 4 * 4 + (a mod 4 * 16 + b div 16) div 16 = a"
    "(a mod 4 * 16 + b div 16) mod 16 * 16 + (b mod 16 * 4 + c div 64) div 4 = b"
    "(b mod 16 * 4 + c div 64) mod 4 * 64 + c mod 64 = c"
proof -
  have d: "a div 4 < 64" "b div 16 < 16" "c div 64 < 4" using assms by (simp_all add: less_mult_imp_div_less)
  have m: "a mod 4 < 4" "b mod 16 < 16" "c mod 64 < 64" by simp_all
  show "a div 4 < 64" "a mod 4 * 16 + b div 16 < 64" "b mod 16 * 4 + c div 64 < 64" "c mod 64 < 64"
    using d m by linarith+
  have "(a mod 4 * 16 + b div 16) div 16 = a mod 4" "(a mod 4 * 16 + b div 16) mod 16 = b div 16"
    "(b mod 16 * 4 + c div 64) div 4 = b mod 16" "(b mod 16 * 4 + c div 64) mod 4 = c div 64"
    using d by simp_all
  then show "a div 4 * 4 + (a mod 4 * 16 + b div 16) div 16 = a"
    "(a mod 4 * 16 + b div 16) mod 16 * 16 + (b mod 16 * 4 + c div 64) div 4 = b"
    "(b mod 16 * 4 + c div 64) mod 4 * 64 + c mod 64 = c"
    by simp_all
qed

lemma b64_roundtrip: "(\<And>x. x \<in> set xs \<Longrightarrow> x < 256) \<Longrightarrow> b64_decode (b64_encode xs) = Some xs"
proof (induction xs rule: b64_encode.induct)
  case (2 a)
  then have "a < 256" by simp
  then have g: "a div 4 < 64" "a mod 4 * 16 < 64" "a div 4 * 4 + a mod 4 = a"
    using b64_groups [of a 0 0] by simp_all
  show ?case using g(3) b64_value_char [OF g(1)] b64_value_char [OF g(2)] by simp
next
  case (3 a b)
  then have "a < 256" "b < 256" by auto
  then have g: "a div 4 < 64" "a mod 4 * 16 + b div 16 < 64" "b mod 16 * 4 < 64"
    "a div 4 * 4 + (a mod 4 * 16 + b div 16) div 16 = a"
    "(a mod 4 * 16 + b div 16) mod 16 * 16 + b mod 16 * 4 div 4 = b"
    using b64_groups [of a b 0] by simp_all
  show ?case
    using b64_value_char [OF g(1)] b64_value_char [OF g(2)] b64_value_char [OF g(3)]
    by (simp only: b64_encode.simps b64_decode.simps option.case prod.case g(4,5)) simp
next
  case (4 a b c r)
  then have "a < 256" "b < 256" "c < 256" and "b64_decode (b64_encode r) = Some r" by auto
  note g = b64_groups [OF this(1,2,3)] and r = this(4)
  show ?case
    using r b64_value_char [OF g(1)] b64_value_char [OF g(2)] b64_value_char [OF g(3)]
      b64_value_char [OF g(4)]
    by (simp only: b64_encode.simps append_Cons append_Nil b64_decode.simps option.case prod.case
        g(5,6,7)) simp
qed simp

lemma Decode_Encode: "DecodeString (EncodeToString s) = Some s"
proof -
  have "b64_decode (b64_encode (map of_char s)) = Some (map of_char s)"
    by (rule b64_roundtrip) auto
  then show ?thesis by (simp add: DecodeString_def EncodeToString_def comp_def)
qed

interpretation base64: codec EncodeToString DecodeString "\<lambda>_. True"
  by unfold_locales (rule Decode_Encode)

end
