(* ===== verification/FileTransfer.thy ===== *)
theory FileTransfer
  imports FsCopy Encoding
begin

text \<open>
  \<^verbatim>\<open>pkg/filetransfer/handler.go\<close>: the HTTP handler through which the pods download sources and
  upload build output. The parts of \<^verbatim>\<open>net/http\<close> it uses are modelled for requests without range
  and conditional headers: \<^verbatim>\<open>BasicAuth\<close> and \<^verbatim>\<open>ServeFile\<close>. A content type the library
  chooses itself is left open.
\<close>

section \<open>Requests and responses\<close>

record Handler =
  hRoot :: string
  hUsername :: string
  hPassword :: string

text \<open>The body of a request is the bytes that arrive and the error that ends them, if any.\<close>

record request =
  qMethod :: string
  qPath :: string
  qAuthorization :: string
  qBody :: "content \<times> gerror option"

datatype body = NoBody | TextBody string | FileBody content | Truncated | Listing "string list"

record response =
  rStatus :: int
  rContentType :: "string option"
  rLocation :: "string option"
  rBody :: body
  rPrinted :: "string list"

definition answer :: "int \<Rightarrow> response" where
  "answer code = \<lparr>rStatus = code, rContentType = None, rLocation = None, rBody = NoBody, rPrinted = []\<rparr>"

text \<open>\<^verbatim>\<open>http.Error\<close> replaces the content type.\<close>

definition http_Error :: "int \<Rightarrow> string \<Rightarrow> response" where
  "http_Error code t = (answer code)\<lparr>rContentType := Some ''text/plain; charset=utf-8'', rBody := TextBody t\<rparr>"

text \<open>\<^verbatim>\<open>req.BasicAuth\<close>: the scheme in any case, then the base64 text of user, colon, password.\<close>

fun cut_colon :: "string \<Rightarrow> (string \<times> string) option" where
  "cut_colon [] = None"
| "cut_colon (c # cs) = (if c = CHR '':'' then Some ([], cs)
     else map_option (\<lambda>(u, p). (c # u, p)) (cut_colon cs))"

definition request_BasicAuth :: "request \<Rightarrow> (string \<times> string) option" where
  "request_BasicAuth req =
     (let auth = qAuthorization req in
      if to_lower (take 6 auth) \<noteq> ''basic '' then None
      else (case DecodeString (filter (\<lambda>c. c \<noteq> CHR 0x0A \<and> c \<noteq> CHR 0x0D) (drop 6 auth)) of
              None \<Rightarrow> None
            | Some cs \<Rightarrow> cut_colon cs))"

section \<open>http.ServeFile\<close>

text \<open>The library's own test on the path of the request: both kinds of slash separate elements.\<close>

definition http_containsDotDot :: "string \<Rightarrow> bool" where
  "http_containsDotDot v = (''..'' \<in> set (slash_split (replace_char (CHR 0x5C) (CHR ''/'') v)))"

text \<open>An open error on a path through a file that is no directory counts as not existing.\<close>

fun through_file :: "string list \<Rightarrow> string list \<Rightarrow> os \<Rightarrow> bool" where
  "through_file before [] s = False"
| "through_file before (p # ps) s =
     (if p = [] then through_file (before @ [p]) ps s
      else (case os_Stat (join_with ''/'' (before @ [p])) s of
              (Ok fi, _) \<Rightarrow> (if kind fi = KDir then through_file (before @ [p]) ps s else True)
            | _ \<Rightarrow> False))"

definition mapOpenError :: "gerror \<Rightarrow> string \<Rightarrow> os \<Rightarrow> gerror" where
  "mapOpenError e name s =
     (if IsNotExist e \<or> IsPermission e then e
      else if through_file [] (slash_split name) s then PathError ''open'' name ENOENT else e)"

definition split_path :: "string \<Rightarrow> string \<times> string" where
  "split_path p = (let file = rev (takeWhile (\<lambda>c. c \<noteq> CHR ''/'') (rev p)) in
     (take (length p - length file) p, file))"

definition dir_target :: "string \<Rightarrow> string \<Rightarrow> string" where
  "dir_target dir name =
     (let p = drop 1 (path_Clean (CHR ''/'' # name)) in
      path_Join [if dir = [] then ''.'' else dir, if p = [] then ''.'' else p])"

definition dir_Open :: "string \<Rightarrow> string \<Rightarrow> key sys" where
  "dir_Open dir name s = (case os_Open (dir_target dir name) s of
      (Err e, s') \<Rightarrow> (Err (mapOpenError e (dir_target dir name) s), s')
    | r \<Rightarrow> r)"

definition toHTTPError :: "gerror \<Rightarrow> response" where
  "toHTTPError e =
     (if IsNotExist e then http_Error 404 ''404 page not found''
      else if IsPermission e then http_Error 403 ''403 Forbidden''
      else http_Error 500 ''500 Internal Server Error'')"

definition localRedirect :: "string option \<Rightarrow> string \<Rightarrow> response" where
  "localRedirect ct target = (answer 301)\<lparr>rContentType := ct, rLocation := Some target\<rparr>"

text \<open>The listing of a directory: its entries, directories with a slash.\<close>

definition dirList :: "string option \<Rightarrow> string \<Rightarrow> os \<Rightarrow> response" where
  "dirList ct path s = (case ioutil_ReadDir path s of
      (Ok es, _) \<Rightarrow>
        (answer 200)\<lparr>rContentType := Some ''text/html; charset=utf-8'',
           rBody := Listing (map (\<lambda>(n, fi). if kind fi = KDir then n @ ''/'' else n) es)\<rparr>
    | _ \<Rightarrow> http_Error 500 ''Error reading directory'')"

definition serveContent :: "string option \<Rightarrow> string \<Rightarrow> key \<Rightarrow> os \<Rightarrow> response" where
  "serveContent ct path k s =
     (answer 200)\<lparr>rContentType := ct,
        rBody := (case read_handle path k s of (Ok c, _) \<Rightarrow> FileBody c | _ \<Rightarrow> Truncated)\<rparr>"

definition serveFile :: "string option \<Rightarrow> request \<Rightarrow> string \<Rightarrow> string \<Rightarrow> os \<Rightarrow> response" where
  "serveFile ct req dir name s =
     (if has_suffix (qPath req) ''/index.html'' then localRedirect ct ''./''
      else (case dir_Open dir name s of
        (Err e, _) \<Rightarrow> toHTTPError e
      | (Panic p, _) \<Rightarrow> toHTTPError (ErrMsg p)
      | (Ok k, _) \<Rightarrow>
          (case lookup_key OpStat ''stat'' (dir_target dir name) k s of
             (Ok d, _) \<Rightarrow>
               (if kind d \<noteq> KDir then serveContent ct (dir_target dir name) k s
                else if \<not> has_suffix (qPath req) ''/''
                then localRedirect ct (path_Base (qPath req) @ ''/'')
                else (let index = trim_suffix name ''/'' @ ''/index.html'' in
                  (case dir_Open dir index s of
                     (Ok ik, _) \<Rightarrow>
                       (case lookup_key OpStat ''stat'' (dir_target dir index) ik s of
                          (Ok dd, _) \<Rightarrow>
                            (if kind dd \<noteq> KDir then serveContent ct (dir_target dir index) ik s
                             else dirList ct (dir_target dir index) s)
                        | _ \<Rightarrow> dirList ct (dir_target dir name) s)
                   | _ \<Rightarrow> dirList ct (dir_target dir name) s)))
           | (Err e, _) \<Rightarrow> toHTTPError e
           | (Panic p, _) \<Rightarrow> toHTTPError (ErrMsg p))))"

definition http_ServeFile :: "string option \<Rightarrow> request \<Rightarrow> string \<Rightarrow> os \<Rightarrow> response" where
  "http_ServeFile ct req name s =
     (if http_containsDotDot (qPath req) then http_Error 400 ''invalid URL path''
      else (case split_path name of (dir, file) \<Rightarrow> serveFile ct req dir file s))"

section \<open>The handler\<close>

definition sendErrorResponse :: "gerror \<Rightarrow> response" where
  "sendErrorResponse err =
     (if IsExist err then answer 409
      else if IsNotExist err then answer 404
      else if IsPermission err then answer 403
      else answer 400)"

definition contentType :: "string \<Rightarrow> string option" where
  "contentType filename =
     (let ext = to_lower (path_Ext filename) in
      if ext = ''.tar'' then Some ''application/x-tar''
      else if ext = ''.json'' then Some ''application/json; charset=utf-8''
      else None)"

text \<open>
  The upload: create the file exclusively, copy the body (what arrives before an error of the body
  is written), close.
\<close>

definition upload :: "string \<Rightarrow> content \<times> gerror option \<Rightarrow> unit sys" where
  "upload location b = seq (os_OpenFile True (path_Clean location) 0x1B6) (\<lambda>output s.
     case seq (write_handle (path_Clean location) output (fst b))
            (\<lambda>_. case snd b of None \<Rightarrow> ret () | Some e \<Rightarrow> throw e) s of
       (r, s') \<Rightarrow> (r, snd (close_handle (path_Clean location) output s')))"

text \<open>The place in the root directory that a request names.\<close>

definition location :: "Handler \<Rightarrow> request \<Rightarrow> string" where
  "location h req = path_Join [hRoot h, path_Clean (qPath req)]"

definition ServeHTTP :: "Handler \<Rightarrow> request \<Rightarrow> os \<Rightarrow> response \<times> os" where
  "ServeHTTP h req s =
     (let upath = path_Clean (qPath req) in
      if upath = ''/healthz'' then ((answer 200)\<lparr>rBody := TextBody ''Chaincode Launcher running''\<rparr>, s)
      else (case request_BasicAuth req of
        None \<Rightarrow> ((answer 401)\<lparr>rPrinted := [''Error parsing basic auth'']\<rparr>, s)
      | Some (username, password) \<Rightarrow>
          (if username \<noteq> hUsername h \<and> password \<noteq> hPassword h
           then ((answer 401)\<lparr>rPrinted := [''Username or password are not correct'']\<rparr>, s)
           else if contains_str ''..'' upath \<or> contains_str [CHR 0x00] upath then (answer 400, s)
           else if qMethod req = ''GET''
           then (http_ServeFile (contentType (location h req)) req (location h req) s, s)
           else if qMethod req = ''PUT'' then
             (case upload (location h req) (qBody req) s of
                (Ok _, s') \<Rightarrow> (answer 201, s')
              | (Err e, s') \<Rightarrow> (sendErrorResponse e, s')
              | (Panic p, s') \<Rightarrow> (sendErrorResponse (ErrMsg p), s'))
           else ((answer 400)\<lparr>rBody := TextBody (''unsupported method: '' @ qMethod req)\<rparr>, s))))"

lemmas transfer_defs [go_defs] = answer_def http_Error_def request_BasicAuth_def http_containsDotDot_def
  mapOpenError_def split_path_def dir_target_def dir_Open_def toHTTPError_def localRedirect_def
  dirList_def serveContent_def serveFile_def http_ServeFile_def sendErrorResponse_def contentType_def
  upload_def location_def ServeHTTP_def

end
