(* ===== verification/FileTransferProofs.thy ===== *)
theory FileTransferProofs
  imports FileTransfer
begin

text \<open>
  Properties of the file transfer handler: uploads and downloads stay below the root directory, a
  confirmed upload stores exactly the bytes sent, and what the password check lets through.
\<close>

section \<open>Locations\<close>

lemma split_path_parts:
  assumes "split_path p = (dir, leaf)"
  shows "p = dir @ leaf" "CHR ''/'' \<notin> set leaf" "dir = [] \<or> last dir = CHR ''/''"
proof -
  let ?f = "rev (takeWhile (\<lambda>c. c \<noteq> CHR ''/'') (rev p))"
  let ?d = "rev (dropWhile (\<lambda>c. c \<noteq> CHR ''/'') (rev p))"
  have p: "p = ?d @ ?f" by (metis rev_append rev_rev_ident takeWhile_dropWhile_id)
  have "leaf = ?f" "dir = take (length p - length ?f) p" using assms by (auto simp: split_path_def Let_def)
  moreover have "take (length p - length ?f) p = ?d"
    using p by (metis add_diff_cancel_right' append_eq_conv_conj length_append)
  ultimately have df: "leaf = ?f" "dir = ?d" by auto
  show "p = dir @ leaf" using p df by simp
  show "CHR ''/'' \<notin> set leaf" using df by (auto dest: set_takeWhileD)
  have "dropWhile (\<lambda>c. c \<noteq> CHR ''/'') (rev p) = [] \<or> hd (dropWhile (\<lambda>c. c \<noteq> CHR ''/'') (rev p)) = CHR ''/''"
    using hd_dropWhile [of "\<lambda>c. c \<noteq> CHR ''/''" "rev p"] by blast
  then show "dir = [] \<or> last dir = CHR ''/''" using df by (auto simp: last_rev)
qed

definition dir_of :: "string \<Rightarrow> string" where
  "dir_of dir = (if dir = [] then ''.'' else dir)"

lemma path_segs_rooted: "path_segs (CHR ''/'' # n) = clean_segs True [] (slash_split n)"
  by (simp add: path_segs_def is_rooted_def)

lemma resolve_dir_target:
  "resolve c (dir_target dir n) = resolve c (dir_of dir) @ path_segs (CHR ''/'' # n)"
proof -
  let ?ws = "path_segs (CHR ''/'' # n)"
  let ?p = "join_with ''/'' ?ws"
  have names: "w \<in> set ?ws \<Longrightarrow> is_name w" for w
    by (rule path_segs_rooted_names [of "CHR ''/'' # n"]) (simp_all add: is_rooted_def)
  have clean: "drop 1 (path_Clean (CHR ''/'' # n)) = ?p"
    by (simp add: path_Clean_def unsegs_def is_rooted_def)
  have dir: "(if dir = [] then ''.'' else dir) \<noteq> []" by simp
  have no_slash: "w \<in> set ?ws \<Longrightarrow> CHR ''/'' \<notin> set w" for w using names by (auto simp: is_name_def)
  show ?thesis
  proof (cases "?ws = []")
    case True
    then show ?thesis unfolding dir_target_def clean Let_def dir_of_def
      by (simp add: resolve_Join [OF dir])
  next
    case False
    then have ne: "?p \<noteq> []" using names 
      by (metis append_is_Nil_conv is_nameD join_with.simps(2) join_with_Cons list.exhaust list.set_intros(1))
    have "slash_split ?p = ?ws" using split_join [OF False no_slash] by simp
    then show ?thesis unfolding dir_target_def clean Let_def dir_of_def using ne names
      by (simp add: resolve_Join [OF dir] clean_segs_names)
  qed
qed

lemma resolve_split:
  assumes "split_path p = (dir, leaf)" "p \<noteq> []"
  shows "resolve c p = clean_segs True (rev (resolve c (dir_of dir))) [leaf]"
proof (cases "dir = []")
  case True
  have "leaf \<noteq> []" using assms True split_path_parts(1) by fastforce
  moreover have "\<not> is_rooted leaf"
    using split_path_parts(2) [OF assms(1)] by (cases leaf) (auto simp: is_rooted_def)
  ultimately show ?thesis using True split_path_parts [OF assms(1)]
    by (simp add: resolve_def dir_of_def is_rooted_def)
next
  case False
  then obtain d where d: "dir = d @ ''/''"
    using split_path_parts(3) [OF assms(1)] by (metis append_butlast_last_id)
  have ss: "slash_split p = slash_split d @ [leaf]" "slash_split dir = slash_split d @ [[]]"
    using split_path_parts(1,2) [OF assms(1)] d by (simp_all add: split_on_append_sep)
  have "is_rooted p = is_rooted dir"
    using split_path_parts(1) [OF assms(1)] False is_rooted_append by metis
  then show ?thesis using False ss by (simp add: resolve_def dir_of_def clean_segs_append)
qed

text \<open>What is opened for a loc lies at or below the loc.\<close>

lemma dir_target_below:
  assumes "split_path p = (dir, leaf)" "p \<noteq> []" and cwd: "\<And>w. w \<in> set c \<Longrightarrow> is_name w"
  shows "prefix (resolve c p) (resolve c (dir_target dir leaf))"
    and "prefix (resolve c p) (resolve c (dir_target dir (trim_suffix leaf ''/'' @ ''/index.html'')))"
proof -
  have ns: "CHR ''/'' \<notin> set leaf" by (rule split_path_parts(2) [OF assms(1)])
  then have trim: "trim_suffix leaf ''/'' = leaf"
    by (auto simp: trim_suffix_def has_suffix_def) (metis append_take_drop_id in_set_conv_decomp)
  have nm: "w \<in> set (resolve c (dir_of dir)) \<Longrightarrow> w \<noteq> ''..''" for w
    using resolve_names [of c w "dir_of dir"] cwd by (auto simp: is_name_def)
  have base: "prefix (resolve c p) (resolve c (dir_of dir) @ path_segs (CHR ''/'' # leaf))"
    using ns nm [of "''..''"] unfolding resolve_split [OF assms(1,2)] path_segs_rooted
    by (auto split: list.split simp: prefix_def is_name_def)
  then show "prefix (resolve c p) (resolve c (dir_target dir leaf))" by (simp add: resolve_dir_target)
  have "path_segs (CHR ''/'' # leaf @ ''/index.html'') = path_segs (CHR ''/'' # leaf) @ [''index.html'']"
    unfolding path_segs_rooted using split_on_append_sep [of "CHR ''/''" leaf "''index.html''"]
    by (simp add: clean_segs_append)
  then show "prefix (resolve c p) (resolve c (dir_target dir (trim_suffix leaf ''/'' @ ''/index.html'')))"
    using prefix_prefix [OF base, of "[''index.html'']"] trim by (simp add: resolve_dir_target)
qed

section \<open>Uploads\<close>

definition uploaded :: "os \<Rightarrow> content \<Rightarrow> inode" where
  "uploaded s c = (new_file s 0x1B6)\<lparr>data := c, mtime := now s\<rparr>"

text \<open>An upload changes nothing, or adds one file where there was none.\<close>

lemma put_twice: "put k n (put k m s) = put k n s"
proof -
  have "AList.update k n (AList.update k m al) = AList.update k n al" for al
    by (induction al) auto
  then show ?thesis by (simp add: put_def)
qed

lemma upload_effect:
  assumes "upload loc b s = (r, s')" "loc \<noteq> []"
  shows "s' = s \<and> (\<exists>e. r = Err e) \<or>
    file_at s (resolve (cwd s) loc) = None \<and> is_dir_at s (butlast (resolve (cwd s) loc)) \<and>
    (\<exists>c. s' = put (resolve (cwd s) loc) ((new_file s 0x1B6)\<lparr>data := c, mtime := now s\<rparr>)
        (touch (butlast (resolve (cwd s) loc)) s) \<and>
      (r = Ok () \<longrightarrow> c = fst b \<and> snd b = None))"
proof -
  let ?k = "resolve (cwd s) loc"
  have nf: "(new_file s m)\<lparr>data := Raw [], mtime := now s\<rparr> = new_file s m" for m by (simp add: new_file_def)
  show ?thesis
    using assms
    by (auto simp: upload_def seq_def os_OpenFile_def with_key_def write_handle_def close_handle_def put_new_def
        put_twice nf split: option.splits if_splits prod.splits outcome.splits
        intro: exI [where x = "Raw []"] exI [where x = "fst b"])
qed

lemma upload_file_at:
  assumes "upload loc b s = (r, s')" "loc \<noteq> []" "s' \<noteq> s"
  shows "file_at s' k' = (if k' = resolve (cwd s) loc then file_at s' k'
    else if k' = butlast (resolve (cwd s) loc) then map_option (\<lambda>n. n\<lparr>mtime := now s\<rparr>) (file_at s k')
    else file_at s k')"
  using upload_effect [OF assms(1,2)] assms(3) by (auto simp: file_at_touch)

section \<open>Requests\<close>

definition authorized :: "Handler \<Rightarrow> request \<Rightarrow> bool" where
  "authorized h req \<longleftrightarrow> (\<exists>u p. request_BasicAuth req = Some (u, p) \<and> (u = hUsername h \<or> p = hPassword h))"

text \<open>The ways a request is answered.\<close>

lemma ServeHTTP_cases:
  assumes "ServeHTTP h req s = (resp, s')"
  obtains (health) "path_Clean (qPath req) = ''/healthz''" "s' = s" "rStatus resp = 200"
      "rBody resp = TextBody ''Chaincode Launcher running''"
  | (refused) "\<not> authorized h req" "s' = s" "rStatus resp = 401" "rBody resp = NoBody"
  | (bad_path) "authorized h req" "s' = s" "resp = answer 400"
  | (get) "authorized h req" "''..'' \<notin> set (slash_split (path_Clean (qPath req)))" "qMethod req = ''GET''" "s' = s"
      "resp = http_ServeFile (contentType (location h req)) req (location h req) s"
  | (put) r where "authorized h req" "''..'' \<notin> set (slash_split (path_Clean (qPath req)))" "qMethod req = ''PUT''"
      "upload (location h req) (qBody req) s = (r, s')"
      "resp = (case r of Ok _ \<Rightarrow> answer 201 | Err e \<Rightarrow> sendErrorResponse e | Panic p \<Rightarrow> sendErrorResponse (ErrMsg p))"
  | (other) "authorized h req" "qMethod req \<notin> {''GET'', ''PUT''}" "s' = s" "rStatus resp = 400"
      "rBody resp = TextBody (''unsupported method: '' @ qMethod req)"
proof (cases "path_Clean (qPath req) = ''/healthz''")
  case True
  then show ?thesis using assms health by (auto simp: ServeHTTP_def answer_def)
next
  case h: False
  show ?thesis
  proof (cases "authorized h req")
    case False
    then have "s' = s \<and> rStatus resp = 401 \<and> rBody resp = NoBody"
      using assms h by (cases "request_BasicAuth req") (auto simp: ServeHTTP_def authorized_def answer_def Let_def)
    then show ?thesis using refused False by blast
  next
    case True
    then obtain u p where up: "request_BasicAuth req = Some (u, p)" "u = hUsername h \<or> p = hPassword h"
      by (auto simp: authorized_def)
    show ?thesis
    proof (cases "contains_str ''..'' (path_Clean (qPath req)) \<or> contains_str [CHR 0x00] (path_Clean (qPath req))")
      case bad: True
      have "s' = s \<and> resp = answer 400" using assms h up bad by (auto simp: ServeHTTP_def)
      then show ?thesis using bad_path True by blast
    next
      case ok: False
      then have nodd: "''..'' \<notin> set (slash_split (path_Clean (qPath req)))" using contains_str_split by blast
      obtain r s1 where up1: "upload (location h req) (qBody req) s = (r, s1)" by fastforce
      have res: "ServeHTTP h req s =
         (if qMethod req = ''GET'' then (http_ServeFile (contentType (location h req)) req (location h req) s, s)
          else if qMethod req = ''PUT'' then
            (case r of Ok _ \<Rightarrow> answer 201 | Err e \<Rightarrow> sendErrorResponse e | Panic p \<Rightarrow> sendErrorResponse (ErrMsg p), s1)
          else ((answer 400)\<lparr>rBody := TextBody (''unsupported method: '' @ qMethod req)\<rparr>, s))"
        using h up ok up1 by (auto simp: ServeHTTP_def Let_def location_def split: outcome.splits)
      show ?thesis
        using get [OF True nodd] put [OF True nodd] other [OF True] res assms up1
        by (auto simp: answer_def split: if_splits)
    qed
  qed
qed

section \<open>Downloads\<close>

text \<open>What a body discloses: a file's bytes or a directory's entries at or below a place.\<close>

fun discloses_below :: "key \<Rightarrow> os \<Rightarrow> body \<Rightarrow> bool" where
  "discloses_below root s (FileBody c) = (\<exists>k n. prefix root k \<and> file_at s k = Some n \<and> kind n \<noteq> KDir \<and> data n = c)"
| "discloses_below root s (Listing ns) = (\<exists>k. prefix root k \<and> is_dir_at s k \<and>
     ns = map (\<lambda>n. if is_dir_at s (k @ [n]) then n @ ''/'' else n) (children s k))"
| "discloses_below root s _ = True"

lemma dir_Open_Ok: "dir_Open dir n s = (Ok k, s') \<Longrightarrow> k = resolve (cwd s) (dir_target dir n)"
  by (auto simp: dir_Open_def os_Open_def with_key_def seq_def lookup_key_def
      split: prod.splits outcome.splits option.splits if_splits)

lemma serveContent_below:
  "prefix root k \<Longrightarrow> discloses_below root s (rBody (serveContent ct path k s))"
  by (auto simp: serveContent_def answer_def read_handle_def seq_def lookup_key_def
      split: prod.splits outcome.splits option.splits if_splits)

lemma dirList_below:
  assumes "prefix root (resolve (cwd s) path)" "fs_wf s"
  shows "discloses_below root s (rBody (dirList ct path s))"
proof (cases "\<exists>es s'. ioutil_ReadDir path s = (Ok es, s')")
  case True
  then obtain es s' where es: "ioutil_ReadDir path s = (Ok es, s')" by blast
  let ?k = "resolve (cwd s) path"
  have "is_dir_at s ?k" "es = map (\<lambda>c. (c, the (file_at s (?k @ [c])))) (children s ?k)"
    using es by (auto simp: ioutil_ReadDir_def with_key_def seq_def lookup_key_def is_dir_at_def
        split: prod.splits outcome.splits option.splits if_splits)
  moreover have "c \<in> set (children s ?k) \<Longrightarrow> \<exists>n. file_at s (?k @ [c]) = Some n" for c
    by (auto simp: set_children)
  ultimately have "map (\<lambda>(n, fi). if kind fi = KDir then n @ ''/'' else n) es =
      map (\<lambda>n. if is_dir_at s (?k @ [n]) then n @ ''/'' else n) (children s ?k)" "is_dir_at s ?k"
    by (fastforce simp: is_dir_at_def)+
  then show ?thesis using es assms(1) by (auto simp: dirList_def answer_def)
next
  case False
  then show ?thesis
    by (cases "ioutil_ReadDir path s"; cases "fst (ioutil_ReadDir path s)")
      (auto simp: dirList_def http_Error_def answer_def)
qed

lemma ServeFile_below:
  assumes "p \<noteq> []" "fs_wf s" "prefix root (resolve (cwd s) p)"
  shows "discloses_below root s (rBody (http_ServeFile ct req p s))"
proof -
  obtain dir leaf where sp: "split_path p = (dir, leaf)" by fastforce
  let ?i = "trim_suffix leaf ''/'' @ ''/index.html''"
  have cwd: "w \<in> set (cwd s) \<Longrightarrow> is_name w" for w using assms(2) by (rule fs_wf_cwd_names)
  have t1: "prefix root (resolve (cwd s) (dir_target dir leaf))"
    and t2: "prefix root (resolve (cwd s) (dir_target dir ?i))"
    using dir_target_below [OF sp assms(1) cwd] assms(3) by (auto intro: prefix_order.trans)
  show ?thesis
    using t1 t2 dirList_below [OF t1 assms(2)] dirList_below [OF t2 assms(2)]
    by (auto simp: http_ServeFile_def sp serveFile_def Let_def localRedirect_def toHTTPError_def http_Error_def
        answer_def serveContent_below dest!: dir_Open_Ok split: prod.splits outcome.splits)
qed

section \<open>What a download opens\<close>

lemma split_path_last: "split_path p = (dir, leaf) \<Longrightarrow> leaf = last (slash_split p)"
proof -
  assume sp: "split_path p = (dir, leaf)"
  show ?thesis
  proof (cases "dir = []")
    case False
    then obtain d where "dir = d @ ''/''"
      using split_path_parts(3) [OF sp] by (metis append_butlast_last_id)
    then show ?thesis using split_path_parts(1,2) [OF sp] by (simp add: split_on_append_sep)
  qed (use split_path_parts(1,2) [OF sp] in simp)
qed

text \<open>Joined with a path free of \<^verbatim>\<open>..\<close> that names something, a location ends in a name.\<close>

lemma location_leaf:
  assumes "a \<noteq> []" "''..'' \<notin> set (slash_split b)" "split_path (path_Join [a, b]) = (dir, leaf)"
    and "resolve c (path_Join [a, b]) \<noteq> resolve c a"
  shows "leaf \<noteq> ''..''"
proof -
  let ?ws = "filter (\<lambda>w. w \<noteq> [] \<and> w \<noteq> ''.'') (slash_split b)"
  let ?segs = "path_segs (a @ CHR ''/'' # b)" and ?r = "is_rooted (a @ CHR ''/'' # b)"
  have ws: "?ws \<noteq> []" using assms(1,2,4) by (auto simp: resolve_Join clean_segs_no_dotdot)
  have segs: "?segs = clean_segs ?r [] (slash_split a) @ ?ws"
    using assms(2) by (simp add: path_segs_def split_on_append_sep clean_segs_append clean_segs_no_dotdot)
  have ne: "?segs \<noteq> []" using ws segs by simp
  have ns: "w \<in> set ?segs \<Longrightarrow> CHR ''/'' \<notin> set w" for w
    using stack_ok_no_slash [OF stack_ok_path_segs [of "a @ CHR ''/'' # b"], of w] by simp
  have "path_Join [a, b] = unsegs ?r ?segs" using assms(1) by (simp add: path_Join_def path_Clean_def)
  then have "slash_split (path_Join [a, b]) = (if ?r then [[]] else []) @ ?segs"
    using split_unsegs_rooted [OF ne ns] by metis
  then have "leaf = last ?ws" using split_path_last [OF assms(3)] segs ws by simp
  then show ?thesis using last_in_set [OF ws] assms(2) by auto
qed

lemma dir_target_same:
  assumes "split_path p = (dir, leaf)" "p \<noteq> []" "leaf \<noteq> ''..''"
  shows "resolve c (dir_target dir leaf) = resolve c p"
  using assms(3) split_path_parts(2) [OF assms(1)]
  by (auto simp: resolve_dir_target resolve_split [OF assms(1,2)] path_segs_rooted)

lemma ServeFile_regular:
  assumes "split_path p = (dir, leaf)" "p \<noteq> []" "leaf \<noteq> ''..''" "\<not> http_containsDotDot (qPath req)"
    "\<not> has_suffix (qPath req) ''/index.html''" "file_at s (resolve (cwd s) p) = Some n" "kind n \<noteq> KDir"
    "\<And>op. fault s op (resolve (cwd s) p) = None"
  shows "rStatus (http_ServeFile ct req p s) = 200 \<and> rBody (http_ServeFile ct req p s) = FileBody (data n) \<and>
    rContentType (http_ServeFile ct req p s) = ct"
proof -
  have ne: "dir_target dir leaf \<noteq> []" by (simp add: dir_target_def Let_def)
  show ?thesis
    using assms(4-8) dir_target_same [OF assms(1-3), of "cwd s"] ne
    by (simp add: http_ServeFile_def assms(1) serveFile_def dir_Open_def os_Open_def with_key_def seq_def
        lookup_key_def serveContent_def read_handle_def answer_def)
qed

section \<open>A concrete server\<close>

definition demo_dir :: inode where
  "demo_dir = \<lparr>kind = KDir, perm = 0x1ED, data = Raw [], atime = 1, mtime = 1\<rparr>"

definition demo_os :: os where
  "demo_os = \<lparr>cwd = [], files = [([], demo_dir), ([''shared''], demo_dir),
     ([''shared'', ''a.tar''], \<lparr>kind = KRegular, perm = 0x1A4, data = Raw ''source'', atime = 2, mtime = 2\<rparr>)],
     umask = 0x12, now = 5, fault = (\<lambda>_ _. None), environ = (\<lambda>_. None)\<rparr>"

definition demo_handler :: Handler where
  "demo_handler = \<lparr>hRoot = ''/shared'', hUsername = ''u'', hPassword = ''p''\<rparr>"

definition demo_request :: "string \<Rightarrow> string \<Rightarrow> string \<Rightarrow> request" where
  "demo_request m p creds = \<lparr>qMethod = m, qPath = p, qAuthorization = ''Basic '' @ EncodeToString creds,
     qBody = (Raw ''output'', None)\<rparr>"

lemma demo_wf: "fs_wf demo_os"
proof -
  have "file_at demo_os (k @ [n]) \<noteq> None \<Longrightarrow> is_dir_at demo_os k \<and> is_name n" for k n
    by (auto simp: file_at_def demo_os_def is_dir_at_def demo_dir_def is_name_def append_eq_Cons_conv split: if_splits)
  then show ?thesis by (auto simp: fs_wf_def) (auto simp: demo_os_def is_dir_at_def file_at_def demo_dir_def)
qed

lemma demo_root: "resolve (cwd demo_os) ''/shared'' = [''shared'']" "is_dir_at demo_os [''shared'']"
  by code_simp+

section \<open>Properties\<close>

text \<open>Property C21: nothing outside the root directory is read, and nothing at all without
  credentials. A response that carries file contents or a directory listing takes them from a place
  at or below the root, and was given to a request whose user name or password is the server's.\<close>

theorem ServeHTTP_reads_below_root:
  assumes "fs_wf s" and "hRoot h \<noteq> []" and "ServeHTTP h req s = (resp, s')"
  shows "discloses_below (resolve (cwd s) (hRoot h)) s (rBody resp) \<and>
    ((\<exists>c. rBody resp = FileBody c) \<or> (\<exists>ns. rBody resp = Listing ns) \<or> s' \<noteq> s \<longrightarrow> authorized h req)"
  using assms(3)
proof (cases rule: ServeHTTP_cases)
  case get
  have "prefix (resolve (cwd s) (hRoot h)) (resolve (cwd s) (location h req))"
    unfolding location_def by (rule resolve_Join_below [OF assms(2) get(2)])
  then show ?thesis using get ServeFile_below [of "location h req"] assms by (auto simp: location_def)
next
  case (put r)
  have "rBody resp = NoBody" using put(5) by (auto simp: answer_def sendErrorResponse_def split: outcome.splits)
  then show ?thesis using put by simp
qed (auto simp: answer_def)

theorem ServeHTTP_reads_below_root_witness:
  "discloses_below [''shared''] demo_os (rBody (fst (ServeHTTP demo_handler (demo_request ''GET'' ''/a.tar'' ''u:p'') demo_os)))"
  using ServeHTTP_reads_below_root [OF demo_wf, of demo_handler "demo_request ''GET'' ''/a.tar'' ''u:p''"] demo_root
  by (cases "ServeHTTP demo_handler (demo_request ''GET'' ''/a.tar'' ''u:p'') demo_os") (simp add: demo_handler_def)

text \<open>A confirmed upload is exactly what was sent. When a \<^verbatim>\<open>PUT\<close> is answered with 201,
  there was no file at the location, the body arrived completely, and there is now a regular file
  with its bytes and the permissions \<^verbatim>\<open>0666\<close> less the umask.\<close>

lemma ServeHTTP_put_stores:
  assumes "ServeHTTP h req s = (resp, s')" and "qMethod req = ''PUT''" and "rStatus resp = 201" and "hRoot h \<noteq> []"
  shows "file_at s (resolve (cwd s) (location h req)) = None \<and> snd (qBody req) = None \<and>
    file_at s' (resolve (cwd s) (location h req)) = Some (uploaded s (fst (qBody req)))"
  using assms(1)
proof (cases rule: ServeHTTP_cases)
  case (put r)
  have ne: "location h req \<noteq> []" using assms(4) by (simp add: location_def)
  have "r = Ok ()" using put(5) assms(3)
    by (cases r) (auto simp: answer_def sendErrorResponse_def split: if_splits)
  then show ?thesis using upload_effect [OF put(4) ne] by (auto simp: uploaded_def)
qed (use assms(2,3) in \<open>auto simp: answer_def\<close>)

text \<open>An authorized request is answered with anything but 401.\<close>

lemma ServeFile_not_401: "rStatus (http_ServeFile ct req p s) \<noteq> 401"
proof -
  have "rStatus (serveFile ct req d n s) \<noteq> 401" for d n
    by (auto simp: serveFile_def localRedirect_def toHTTPError_def http_Error_def answer_def dirList_def serveContent_def
        Let_def split: prod.splits outcome.splits)
  then show ?thesis by (auto simp: http_ServeFile_def http_Error_def answer_def split: prod.splits)
qed

lemma authorized_not_401:
  assumes "authorized h req"
  shows "rStatus (fst (ServeHTTP h req s)) \<noteq> 401"
proof -
  obtain resp s' where r: "ServeHTTP h req s = (resp, s')" by fastforce
  have "rStatus (sendErrorResponse e) \<noteq> 401" for e by (auto simp: sendErrorResponse_def answer_def)
  then show ?thesis using assms r ServeFile_not_401
    by (cases rule: ServeHTTP_cases [OF r]) (auto simp: answer_def split: outcome.splits)
qed

text \<open>Property C22: what the credential check lets through. Outside the health check, a request is
  refused with 401 exactly when its authorization does not parse or both the user name and the
  password differ from the server's. One of the two is enough to be served: the right password with
  any user name, or the right user name with any password.\<close>

theorem ServeHTTP_credentials:
  assumes "path_Clean (qPath req) \<noteq> ''/healthz''"
  shows "rStatus (fst (ServeHTTP h req s)) = 401 \<longleftrightarrow> \<not> authorized h req"
proof (cases "authorized h req")
  case True
  then show ?thesis using authorized_not_401 by simp
next
  case False
  obtain resp s' where r: "ServeHTTP h req s = (resp, s')" by fastforce
  then show ?thesis using assms False by (cases rule: ServeHTTP_cases [OF r]) auto
qed

theorem ServeHTTP_credentials_witness:
  "rStatus (fst (ServeHTTP demo_handler (demo_request ''GET'' ''/a.tar'' ''u:wrong'') demo_os)) \<noteq> 401"
proof -
  have "path_Clean (qPath (demo_request ''GET'' ''/a.tar'' ''u:wrong'')) \<noteq> ''/healthz''"
    "request_BasicAuth (demo_request ''GET'' ''/a.tar'' ''u:wrong'') = Some (''u'', ''wrong'')"
    by code_simp+
  then show ?thesis
    using ServeHTTP_credentials [of "demo_request ''GET'' ''/a.tar'' ''u:wrong''" demo_handler demo_os]
    by (simp add: authorized_def) (simp add: demo_handler_def)
qed

end
