(* ===== verification/FileStore.thy ===== *)
theory FileStore
  imports FileTransferProofs
begin

text \<open>
  The file server as a store. The specification is a partial map from places to contents in which a
  place is written at most once; \<open>store_step\<close> says how it answers a download and an upload. The
  handler of \<^verbatim>\<open>handler.go\<close> implements it: \<open>store_of\<close> abstracts a file system to the contents of
  its files, and any sequence of well-addressed requests, handled one after the other, gets the
  answers the store gives. Requests of any other kind keep what is stored.
\<close>

section \<open>Sequences of requests\<close>

fun run_all :: "('q \<Rightarrow> 's \<Rightarrow> 'r \<times> 's) \<Rightarrow> 'q list \<Rightarrow> 's \<Rightarrow> 'r list \<times> 's" where
  "run_all step [] s = ([], s)"
| "run_all step (q # qs) s =
     (case step q s of (r, s1) \<Rightarrow> (case run_all step qs s1 of (rs, s2) \<Rightarrow> (r # rs, s2)))"

text \<open>A service whose requests never change what a client can see.\<close>

locale write_once =
  fixes step :: "'q \<Rightarrow> 's \<Rightarrow> 'r \<times> 's" and view :: "'s \<Rightarrow> 'k \<rightharpoonup> 'c" and inv :: "'s \<Rightarrow> bool"
  assumes step_inv: "inv s \<Longrightarrow> step q s = (r, s') \<Longrightarrow> inv s'"
    and step_view: "inv s \<Longrightarrow> step q s = (r, s') \<Longrightarrow> view s \<subseteq>\<^sub>m view s'"
begin

lemma run_inv: "inv s \<Longrightarrow> run_all step qs s = (rs, s') \<Longrightarrow> inv s'"
  by (induction qs arbitrary: s rs) (auto split: prod.splits dest: step_inv)

lemma run_view: "inv s \<Longrightarrow> run_all step qs s = (rs, s') \<Longrightarrow> view s \<subseteq>\<^sub>m view s'"
  by (induction qs arbitrary: s rs)
    (auto split: prod.splits dest: step_inv step_view intro: map_le_trans)

end

text \<open>
  A write-once service that implements a specification for the requests \<open>ok\<close> admits; which requests
  those are may depend on the state, but no request takes an admissible one away.
\<close>

locale store_service = write_once step view inv
  for step :: "'q \<Rightarrow> 's \<Rightarrow> 'r \<times> 's" and view :: "'s \<Rightarrow> 'k \<rightharpoonup> 'c" and inv :: "'s \<Rightarrow> bool" +
  fixes spec :: "'q \<Rightarrow> ('k \<rightharpoonup> 'c) \<Rightarrow> 'a \<times> ('k \<rightharpoonup> 'c)" and obs :: "'r \<Rightarrow> 'a" and ok :: "'q \<Rightarrow> 's \<Rightarrow> bool"
  assumes ok_kept: "inv s \<Longrightarrow> ok p s \<Longrightarrow> step q s = (r, s') \<Longrightarrow> ok p s'"
    and implements: "inv s \<Longrightarrow> ok q s \<Longrightarrow> step q s = (r, s') \<Longrightarrow> spec q (view s) = (obs r, view s')"
begin

lemma run_implements:
  "inv s \<Longrightarrow> (\<And>q. q \<in> set qs \<Longrightarrow> ok q s) \<Longrightarrow> run_all step qs s = (rs, s') \<Longrightarrow>
   run_all spec qs (view s) = (map obs rs, view s')"
proof (induction qs arbitrary: s rs)
  case (Cons q qs)
  obtain r s1 rs' where 1: "step q s = (r, s1)" "run_all step qs s1 = (rs', s')" "rs = r # rs'"
    using Cons.prems(3) by (auto split: prod.splits)
  have "run_all spec qs (view s1) = (map obs rs', view s')"
    by (rule Cons.IH [OF step_inv [OF Cons.prems(1) 1(1)] _ 1(2)])
      (use ok_kept [OF Cons.prems(1) _ 1(1)] Cons.prems(2) in simp)
  then show ?case using implements [OF Cons.prems(1) _ 1(1)] Cons.prems(2) 1(3) by simp
qed simp

end

section \<open>The specification\<close>

type_synonym store = "key \<rightharpoonup> content"

definition store_step :: "Handler \<Rightarrow> key \<Rightarrow> request \<Rightarrow> store \<Rightarrow> (int \<times> content option) \<times> store" where
  "store_step h c req m =
     (let k = resolve c (location h req) in
      if qMethod req = ''GET'' then (case m k of Some d \<Rightarrow> ((200, Some d), m) | None \<Rightarrow> ((404, None), m))
      else if m k = None then ((201, None), m(k \<mapsto> fst (qBody req)))
      else ((409, None), m))"

text \<open>What a file system stores, and what a response tells.\<close>

definition store_of :: "os \<Rightarrow> store" where
  "store_of s k = (case file_at s k of Some n \<Rightarrow> if kind n = KDir then None else Some (data n) | None \<Rightarrow> None)"

definition answer_of :: "response \<Rightarrow> int \<times> content option" where
  "answer_of resp = (rStatus resp, case rBody resp of FileBody c \<Rightarrow> Some c | _ \<Rightarrow> None)"

text \<open>
  A server at work: its root is a directory and system calls do not fail. A well-addressed request
  is authorized, passes the checks on its path, is a download or a complete upload, and names a
  place in an existing directory that is no directory itself.
\<close>

definition rooted :: "Handler \<Rightarrow> key \<Rightarrow> os \<Rightarrow> bool" where
  "rooted h c s \<longleftrightarrow> fs_wf s \<and> cwd s = c \<and> hRoot h \<noteq> [] \<and> is_dir_at s (resolve c (hRoot h))"

definition serving :: "Handler \<Rightarrow> key \<Rightarrow> os \<Rightarrow> bool" where
  "serving h c s \<longleftrightarrow> rooted h c s \<and> (\<forall>op k. fault s op k = None)"

lemma servingD:
  "serving h c s \<Longrightarrow> rooted h c s" "serving h c s \<Longrightarrow> fs_wf s" "serving h c s \<Longrightarrow> cwd s = c" "serving h c s \<Longrightarrow> fault s op k = None"
  "serving h c s \<Longrightarrow> hRoot h \<noteq> []" "serving h c s \<Longrightarrow> is_dir_at s (resolve c (hRoot h))"
  by (simp_all add: serving_def rooted_def)

definition plain_path :: "request \<Rightarrow> bool" where
  "plain_path req \<longleftrightarrow> path_Clean (qPath req) \<noteq> ''/healthz'' \<and> \<not> contains_str ''..'' (path_Clean (qPath req)) \<and>
     \<not> contains_str [CHR 0x00] (path_Clean (qPath req)) \<and> \<not> http_containsDotDot (qPath req) \<and>
     \<not> has_suffix (qPath req) ''/index.html''"

definition addressed :: "Handler \<Rightarrow> key \<Rightarrow> request \<Rightarrow> os \<Rightarrow> bool" where
  "addressed h c req s \<longleftrightarrow> authorized h req \<and> plain_path req \<and>
     (qMethod req = ''GET'' \<or> qMethod req = ''PUT'' \<and> snd (qBody req) = None) \<and>
     is_dir_at s (butlast (resolve c (location h req))) \<and> \<not> is_dir_at s (resolve c (location h req))"

section \<open>One request\<close>

lemma kind_new_file: "kind (new_file s m) = KRegular"
  by (simp add: new_file_def)

lemma upload_put_new:
  "put k ((new_file s m)\<lparr>data := c, mtime := now s\<rparr>) (touch (butlast k) s) =
   put_new k ((new_file s m)\<lparr>data := c, mtime := now s\<rparr>) s"
  by (simp add: put_new_def)

text \<open>What any request does to the files: nothing, or a new file.\<close>

lemma ServeHTTP_effect:
  assumes "ServeHTTP h req s = (resp, s')" and "hRoot h \<noteq> []"
  obtains (same) "s' = s"
  | (stored) n where "file_at s (resolve (cwd s) (location h req)) = None"
      "is_dir_at s (butlast (resolve (cwd s) (location h req)))" "kind n = KRegular"
      "s' = put_new (resolve (cwd s) (location h req)) n s" "''..'' \<notin> set (slash_split (path_Clean (qPath req)))"
  using assms(1)
proof (cases rule: ServeHTTP_cases)
  case (put r)
  have ne: "location h req \<noteq> []" using assms(2) by (simp add: location_def)
  have reg: "kind ((new_file s 0x1B6)\<lparr>data := c, mtime := now s\<rparr>) = KRegular" for c by (simp add: new_file_def)
  show ?thesis
    using upload_effect [OF put(4) ne] same stored [OF _ _ reg] put(2) by (auto simp: upload_put_new)
qed (use same in auto)

lemma is_dir_at_put_new_file:
  "file_at s k = None \<Longrightarrow> kind n \<noteq> KDir \<Longrightarrow> is_dir_at (put_new k n s) k' = is_dir_at s k'"
  by (auto simp: put_new_def is_dir_at_def file_at_touch split: option.splits)

lemma put_new_env: "cwd (put_new k n s) = cwd s" "fault (put_new k n s) = fault s"
  by (simp_all add: put_new_def put_def touch_def split: option.split)

lemma store_of_put_new:
  assumes "file_at s k = None" and "kind n \<noteq> KDir" and "is_dir_at s (butlast k)"
  shows "store_of (put_new k n s) = (store_of s)(k \<mapsto> data n)"
proof
  fix k'
  show "store_of (put_new k n s) k' = ((store_of s)(k \<mapsto> data n)) k'"
    using assms by (auto simp: store_of_def put_new_def file_at_touch split: option.splits)
qed

text \<open>What every request keeps: a rooted file system, the directories, what is stored, and all that is
  outside the root.\<close>

lemma rooted_ServeHTTP:
  assumes "rooted h c s" and "ServeHTTP h req s = (resp, s')"
  shows "rooted h c s'" and "is_dir_at s' k = is_dir_at s k" and "store_of s \<subseteq>\<^sub>m store_of s'" and "fault s' = fault s"
    and "\<not> prefix (resolve c (hRoot h)) k \<Longrightarrow> file_at s' k = file_at s k"
proof -
  have h: "hRoot h \<noteq> []" and wf: "fs_wf s" and c: "cwd s = c" and root: "is_dir_at s (resolve c (hRoot h))"
    using assms(1) by (auto simp: rooted_def)
  have "rooted h c s' \<and> is_dir_at s' k = is_dir_at s k \<and> store_of s \<subseteq>\<^sub>m store_of s' \<and> fault s' = fault s \<and>
      (\<not> prefix (resolve c (hRoot h)) k \<longrightarrow> file_at s' k = file_at s k)"
    using assms(2) h
  proof (cases rule: ServeHTTP_effect)
    case (stored n)
    let ?l = "resolve c (location h req)"
    have "fs_wf s'" unfolding stored(4) by (rule fs_wf_put_new [OF wf stored(1,2)]) (rule fs_wf_resolve [OF wf])
    moreover have "store_of s ?l = None" using stored(1) c by (simp add: store_of_def)
    moreover have "file_at s' k = file_at s k" if "\<not> prefix (resolve c (hRoot h)) k"
    proof -
      have below: "prefix (resolve c (hRoot h)) ?l" using stored(5) h unfolding location_def by (rule resolve_Join_below [rotated])
      have "?l \<noteq> resolve c (hRoot h)" using stored(1) root c by (auto simp: is_dir_at_def)
      then have "prefix (resolve c (hRoot h)) (butlast ?l)" using below by (auto simp: prefix_def butlast_append)
      then show ?thesis using that below stored(4) c by (auto simp: put_new_def file_at_touch)
    qed
    ultimately show ?thesis
      using assms(1) stored by (auto simp: rooted_def is_dir_at_put_new_file store_of_put_new map_le_def put_new_env)
  qed (use assms(1) in auto)
  then show "rooted h c s'" and "is_dir_at s' k = is_dir_at s k" and "store_of s \<subseteq>\<^sub>m store_of s'" and "fault s' = fault s"
    and "\<not> prefix (resolve c (hRoot h)) k \<Longrightarrow> file_at s' k = file_at s k" by auto
qed

lemma serving_ServeHTTP:
  assumes "serving h c s" and "ServeHTTP h req s = (resp, s')"
  shows "serving h c s'" and "is_dir_at s' k = is_dir_at s k" and "store_of s \<subseteq>\<^sub>m store_of s'"
  using rooted_ServeHTTP [OF servingD(1) [OF assms(1)] assms(2)] assms(1) by (auto simp: serving_def)

lemma missing_ENOENT:
  assumes "fs_wf s" and "is_dir_at s (butlast k)" and "file_at s k = None"
  shows "missing s k = ENOENT"
proof -
  have "file_at s p = None \<or> is_dir_at s p" if "prefix p k" for p
  proof (cases "p = k")
    case False
    then have "prefix p (butlast k)" using that by (auto simp: prefix_def butlast_append)
    then obtain r where "butlast k = p @ r" by (auto simp: prefix_def)
    then show ?thesis using assms(1,2) fs_wf_prefix_dir [of s p r] by (cases "r = []") (auto simp: is_dir_at_exists)
  qed (use assms(3) in simp)
  then show ?thesis by (auto simp: missing_def)
qed

lemma location_opened:
  assumes "serving h c s" and "plain_path req" and "\<not> is_dir_at s (resolve c (location h req))"
    and "split_path (location h req) = (dir, leaf)"
  shows "location h req \<noteq> []" and "leaf \<noteq> ''..''" and "resolve c (dir_target dir leaf) = resolve c (location h req)"
proof -
  show ne: "location h req \<noteq> []" using assms(1) by (simp add: location_def serving_def rooted_def)
  have "''..'' \<notin> set (slash_split (path_Clean (qPath req)))"
    using assms(2) contains_str_split unfolding plain_path_def by blast
  moreover have "resolve c (location h req) \<noteq> resolve c (hRoot h)" using assms(1,3) by (auto simp: serving_def rooted_def)
  ultimately show leaf: "leaf \<noteq> ''..''"
    using location_leaf [of "hRoot h" "path_Clean (qPath req)" dir leaf c] assms(1,4)
    by (auto simp: location_def serving_def rooted_def)
  show "resolve c (dir_target dir leaf) = resolve c (location h req)" by (rule dir_target_same [OF assms(4) ne leaf])
qed

lemma get_stored:
  assumes "serving h c s" and "plain_path req" and "file_at s (resolve c (location h req)) = Some n" and "kind n \<noteq> KDir"
  shows "rStatus (http_ServeFile ct req (location h req) s) = 200"
    and "rBody (http_ServeFile ct req (location h req) s) = FileBody (data n)"
    and "rContentType (http_ServeFile ct req (location h req) s) = ct"
proof -
  obtain dir leaf where sp: "split_path (location h req) = (dir, leaf)" by fastforce
  have nd: "\<not> is_dir_at s (resolve c (location h req))" using assms(3,4) by (simp add: is_dir_at_def)
  note l = location_opened [OF assms(1,2) nd sp]
  show "rStatus (http_ServeFile ct req (location h req) s) = 200"
    and "rBody (http_ServeFile ct req (location h req) s) = FileBody (data n)"
    and "rContentType (http_ServeFile ct req (location h req) s) = ct"
    using ServeFile_regular [OF sp l(1,2), of req s n ct] assms by (auto simp: serving_def rooted_def plain_path_def)
qed

lemma get_missing:
  assumes "serving h c s" and "plain_path req" and "file_at s (resolve c (location h req)) = None"
    and "is_dir_at s (butlast (resolve c (location h req)))"
  shows "http_ServeFile ct req (location h req) s = http_Error 404 ''404 page not found''"
proof -
  obtain dir leaf where sp: "split_path (location h req) = (dir, leaf)" by fastforce
  have nd: "\<not> is_dir_at s (resolve c (location h req))" using assms(3) by (simp add: is_dir_at_def)
  have ne: "dir_target dir leaf \<noteq> []" by (simp add: dir_target_def Let_def)
  have "dir_Open dir leaf s = (Err (PathError ''open'' (dir_target dir leaf) ENOENT), s)"
    using assms location_opened(3) [OF assms(1,2) nd sp] missing_ENOENT [of s "resolve c (location h req)"] ne
    by (auto simp: serving_def rooted_def dir_Open_def os_Open_def with_key_def seq_def lookup_key_def mapOpenError_def)
  then show ?thesis
    using assms(2) by (simp add: http_ServeFile_def sp serveFile_def plain_path_def toHTTPError_def)
qed

lemma upload_complete:
  assumes "serving h c s" and "snd b = None" and "is_dir_at s (butlast (resolve c (location h req)))"
  shows "file_at s (resolve c (location h req)) = None \<Longrightarrow>
      \<exists>s'. upload (location h req) b s = (Ok (), s') \<and> store_of s' = (store_of s)(resolve c (location h req) \<mapsto> fst b)"
    and "file_at s (resolve c (location h req)) = Some n \<Longrightarrow>
      upload (location h req) b s = (Err (PathError ''open'' (path_Clean (location h req)) EEXIST), s)"
proof -
  have ne: "location h req \<noteq> []" using assms(1) by (simp add: location_def serving_def rooted_def)
  assume new: "file_at s (resolve c (location h req)) = None"
  obtain r s' where u: "upload (location h req) b s = (r, s')" by fastforce
  have "r = Ok ()" using u assms new
    by (auto simp: upload_def seq_def os_OpenFile_def with_key_def write_handle_def close_handle_def serving_def rooted_def ret_def
        split: option.splits if_splits prod.splits)
  then show "\<exists>s'. upload (location h req) b s = (Ok (), s') \<and> store_of s' = (store_of s)(resolve c (location h req) \<mapsto> fst b)"
    using u upload_effect [OF u ne] assms(1,3) new
    by (auto simp: upload_put_new store_of_put_new kind_new_file serving_def rooted_def)
next
  assume "file_at s (resolve c (location h req)) = Some n"
  then show "upload (location h req) b s = (Err (PathError ''open'' (path_Clean (location h req)) EEXIST), s)"
    using assms(1) by (auto simp: upload_def seq_def os_OpenFile_def with_key_def serving_def rooted_def)
qed

lemma serving_implements:
  assumes "serving h c s" and "addressed h c req s" and "ServeHTTP h req s = (resp, s')"
  shows "store_step h c req (store_of s) = (answer_of resp, store_of s')"
proof -
  let ?k = "resolve c (location h req)"
  have a: "authorized h req" "plain_path req" "is_dir_at s (butlast ?k)" "\<not> is_dir_at s ?k"
    using assms(2) by (auto simp: addressed_def)
  have res: "ServeHTTP h req s =
     (if qMethod req = ''GET'' then (http_ServeFile (contentType (location h req)) req (location h req) s, s)
      else (case upload (location h req) (qBody req) s of
         (r, s') \<Rightarrow> (case r of Ok _ \<Rightarrow> answer 201 | Err e \<Rightarrow> sendErrorResponse e | Panic p \<Rightarrow> sendErrorResponse (ErrMsg p), s')))"
    using assms(2) by (auto simp: ServeHTTP_def addressed_def plain_path_def authorized_def location_def Let_def
        split: prod.splits outcome.splits)
  have sk: "store_of s ?k = map_option data (file_at s ?k)" "\<And>n. file_at s ?k = Some n \<Longrightarrow> kind n \<noteq> KDir"
    using a(4) by (auto simp: store_of_def is_dir_at_def split: option.split)
  show ?thesis
  proof (cases "qMethod req = ''GET''")
    case True
    then show ?thesis
      using res assms(3) sk get_stored [OF assms(1) a(2)] get_missing [OF assms(1) a(2) _ a(3)]
      by (cases "file_at s ?k") (auto simp: store_step_def answer_of_def http_Error_def answer_def Let_def)
  next
    case False
    then have full: "snd (qBody req) = None" using assms(2) by (simp add: addressed_def)
    show ?thesis
      using False res assms(3) sk upload_complete [OF assms(1) full a(3)]
      by (cases "file_at s ?k") (auto simp: store_step_def answer_of_def answer_def sendErrorResponse_def)
  qed
qed

interpretation rooted_server: write_once "ServeHTTP h" store_of "rooted h c" for h :: Handler and c :: key
  by unfold_locales (auto dest: rooted_ServeHTTP(1,3))

interpretation file_server: store_service "ServeHTTP h" store_of "serving h c" "store_step h c" answer_of "addressed h c"
  for h :: Handler and c :: key
  by unfold_locales
    (auto dest: serving_ServeHTTP(1,3) serving_implements simp: addressed_def serving_ServeHTTP(2))

lemma run_all_rooted:
  assumes "rooted h c s" and "run_all (ServeHTTP h) reqs s = (resps, s')"
  shows "is_dir_at s' k = is_dir_at s k" and "fault s' = fault s"
    and "\<not> prefix (resolve c (hRoot h)) k \<Longrightarrow> file_at s' k = file_at s k"
proof -
  have "is_dir_at s' k = is_dir_at s k \<and> fault s' = fault s \<and> (\<not> prefix (resolve c (hRoot h)) k \<longrightarrow> file_at s' k = file_at s k)"
    using assms
  proof (induction reqs arbitrary: s resps)
    case (Cons q qs)
    obtain r s1 rs where 1: "ServeHTTP h q s = (r, s1)" "run_all (ServeHTTP h) qs s1 = (rs, s')"
      using Cons.prems(2) by (auto split: prod.splits)
    show ?case using Cons.IH [OF rooted_ServeHTTP(1) [OF Cons.prems(1) 1(1)] 1(2)] rooted_ServeHTTP [OF Cons.prems(1) 1(1)] by simp
  qed simp
  then show "is_dir_at s' k = is_dir_at s k" and "fault s' = fault s"
    and "\<not> prefix (resolve c (hRoot h)) k \<Longrightarrow> file_at s' k = file_at s k" by auto
qed

section \<open>Properties\<close>

text \<open>Property C8: nothing outside the root directory is ever written. Whatever requests the server gets, in
  whatever number and with or without credentials, and whichever system calls fail, files that are not
  below the (existing) root keep their contents, permissions and times; the file system stays well
  formed and no directory is made or removed.\<close>

theorem requests_write_below_root:
  assumes "fs_wf s" and "hRoot h \<noteq> []" and "is_dir_at s (resolve (cwd s) (hRoot h))"
    and "run_all (ServeHTTP h) reqs s = (resps, s')"
  shows "fs_wf s' \<and> (\<forall>k. is_dir_at s' k = is_dir_at s k) \<and>
    (\<forall>k. \<not> prefix (resolve (cwd s) (hRoot h)) k \<longrightarrow> file_at s' k = file_at s k)"
proof -
  have "rooted h (cwd s) s" using assms(1-3) by (simp add: rooted_def)
  from rooted_server.run_inv [OF this assms(4)] run_all_rooted [OF this assms(4)] show ?thesis
    by (simp add: rooted_def)
qed

theorem requests_write_below_root_witness:
  "file_at (snd (run_all (ServeHTTP demo_handler) [demo_request ''PUT'' ''/out.tar'' ''u:p''] demo_os)) [] = file_at demo_os []"
  using requests_write_below_root [OF demo_wf, of demo_handler "[demo_request ''PUT'' ''/out.tar'' ''u:p'']"] demo_root
  by (cases "run_all (ServeHTTP demo_handler) [demo_request ''PUT'' ''/out.tar'' ''u:p''] demo_os") (simp add: demo_handler_def)

text \<open>Property C9: the file server implements a write-once store. For every sequence of
  well-addressed downloads and uploads, in any order and to any places, the status codes and
  contents answered are those of a map from places to contents: a download returns the content
  stored at its place with 200, or 404 where nothing is stored; an upload stores its body with 201
  where nothing is stored, and is refused with 409 otherwise. At the end the files hold what the map holds.\<close>

theorem file_server_implements_store:
  assumes "serving h c s" and "\<forall>req \<in> set reqs. addressed h c req s"
    and "run_all (ServeHTTP h) reqs s = (resps, s')"
  shows "run_all (store_step h c) reqs (store_of s) = (map answer_of resps, store_of s')"
  by (rule file_server.run_implements [OF assms(1) _ assms(3)]) (use assms(2) in blast)

definition demo_session :: "request list" where
  "demo_session = [demo_request ''GET'' ''/out.tar'' ''u:p'', demo_request ''PUT'' ''/out.tar'' ''u:p'',
     demo_request ''PUT'' ''/out.tar'' ''u:p'', demo_request ''GET'' ''/out.tar'' ''u:p'', demo_request ''GET'' ''/a.tar'' ''u:p'']"

lemma demo_store_serving: "serving demo_handler [] demo_os"
  using demo_wf demo_root by (auto simp: serving_def rooted_def) (auto simp: demo_os_def demo_handler_def)

lemma demo_authorized:
  "authorized demo_handler (demo_request m ''/out.tar'' ''u:p'')" "authorized demo_handler (demo_request m ''/a.tar'' ''u:p'')"
proof -
  have "request_BasicAuth (demo_request m p ''u:p'') = request_BasicAuth (demo_request [] [] ''u:p'')" for p
    by (simp add: request_BasicAuth_def demo_request_def)
  moreover have "request_BasicAuth (demo_request [] [] ''u:p'') = Some (''u'', ''p'')" by code_simp
  ultimately show "authorized demo_handler (demo_request m ''/out.tar'' ''u:p'')"
    "authorized demo_handler (demo_request m ''/a.tar'' ''u:p'')"
    by (auto simp: authorized_def demo_handler_def)
qed

lemma demo_fields: "qMethod (demo_request m p cs) = m" "qBody (demo_request m p cs) = (Raw ''output'', None)"
  by (simp_all add: demo_request_def)

lemma demo_plain: "plain_path (demo_request m ''/out.tar'' cs)" "plain_path (demo_request m ''/a.tar'' cs)"
proof -
  have "plain_path (demo_request [] ''/out.tar'' [])" "plain_path (demo_request [] ''/a.tar'' [])" by code_simp+
  then show "plain_path (demo_request m ''/out.tar'' cs)" "plain_path (demo_request m ''/a.tar'' cs)"
    by (simp_all add: plain_path_def demo_request_def)
qed

lemma demo_places:
  "resolve [] (location demo_handler (demo_request m ''/out.tar'' cs)) = [''shared'', ''out.tar'']"
  "resolve [] (location demo_handler (demo_request m ''/a.tar'' cs)) = [''shared'', ''a.tar'']"
proof -
  have "resolve [] (location demo_handler (demo_request [] ''/out.tar'' [])) = [''shared'', ''out.tar'']"
    "resolve [] (location demo_handler (demo_request [] ''/a.tar'' [])) = [''shared'', ''a.tar'']" by code_simp+
  then show "resolve [] (location demo_handler (demo_request m ''/out.tar'' cs)) = [''shared'', ''out.tar'']"
    "resolve [] (location demo_handler (demo_request m ''/a.tar'' cs)) = [''shared'', ''a.tar'']"
    by (simp_all add: location_def demo_request_def)
qed

lemma demo_addressed: "req \<in> set demo_session \<Longrightarrow> addressed demo_handler [] req demo_os"
  using demo_authorized demo_plain demo_root(2)
  by (auto simp: demo_session_def addressed_def demo_places)
    (auto simp: demo_request_def is_dir_at_def file_at_def demo_os_def)

theorem file_server_implements_store_witness:
  "map answer_of (fst (run_all (ServeHTTP demo_handler) demo_session demo_os)) =
    [(404, None), (201, None), (409, None), (200, Some (Raw ''output'')), (200, Some (Raw ''source''))]"
proof -
  obtain rs s' where r: "run_all (ServeHTTP demo_handler) demo_session demo_os = (rs, s')" by fastforce
  have st: "store_of demo_os [''shared'', ''a.tar''] = Some (Raw ''source'')" "store_of demo_os [''shared'', ''out.tar''] = None"
    by (simp_all add: store_of_def file_at_def demo_os_def demo_dir_def)
  have "fst (run_all (store_step demo_handler []) demo_session (store_of demo_os)) =
      [(404, None), (201, None), (409, None), (200, Some (Raw ''output'')), (200, Some (Raw ''source''))]"
    by (simp add: demo_session_def store_step_def demo_places st Let_def demo_fields)
  then show ?thesis
    using file_server_implements_store [OF demo_store_serving, of demo_session rs s'] demo_addressed r by auto
qed

text \<open>
  A path that an upload was confirmed for is refused by a download in two cases only, both of the
  library's \<^verbatim>\<open>ServeFile\<close>: it has a parent element that \<^verbatim>\<open>path.Clean\<close> removed, or it ends in
  \<^verbatim>\<open>/index.html\<close>, which is redirected to the directory.
\<close>

lemma put_path:
  assumes "ServeHTTP h req s = (resp, s')" and "qMethod req = ''PUT''" and "rStatus resp = 201"
  shows "path_Clean (qPath req) \<noteq> ''/healthz'' \<and> \<not> contains_str ''..'' (path_Clean (qPath req)) \<and>
    \<not> contains_str [CHR 0x00] (path_Clean (qPath req))"
  using assms by (auto simp: ServeHTTP_def Let_def answer_def split: if_splits option.splits)

lemma get_special:
  assumes "ServeHTTP h req s = (resp, s')" and "qMethod req = ''GET''" and "authorized h req"
    and "path_Clean (qPath req) \<noteq> ''/healthz''" and "\<not> contains_str ''..'' (path_Clean (qPath req))"
    and "\<not> contains_str [CHR 0x00] (path_Clean (qPath req))"
  shows "resp = http_ServeFile (contentType (location h req)) req (location h req) s" and "s' = s"
  using assms by (auto simp: ServeHTTP_def authorized_def location_def Let_def)

text \<open>Property C11: uploads last. Once a \<^verbatim>\<open>PUT\<close> has been answered with 201, and after any further
  requests of whatever kind, with or without credentials, an authorized \<^verbatim>\<open>GET\<close> for the same path is
  answered with 200 and exactly the bytes that were sent, with the content type of archives and JSON
  files set from the name. The two kinds of path for which this is not so are part of the statement: a
  path with a parent element that cleaning removed is answered with 400, and a path that ends in
  \<^verbatim>\<open>/index.html\<close> with 301 to \<^verbatim>\<open>./\<close>, although the upload to either was confirmed.\<close>

theorem uploads_last:
  assumes "serving h c s" and "ServeHTTP h preq s = (presp, s1)" and "qMethod preq = ''PUT''" and "rStatus presp = 201"
    and "run_all (ServeHTTP h) reqs s1 = (resps, s2)"
    and "qMethod greq = ''GET''" and "qPath greq = qPath preq" and "authorized h greq"
    and "ServeHTTP h greq s2 = (gresp, s3)"
  shows "s3 = s2 \<and>
    (if http_containsDotDot (qPath preq) then rStatus gresp = 400
     else if has_suffix (qPath preq) ''/index.html'' then rStatus gresp = 301 \<and> rLocation gresp = Some ''./''
     else rStatus gresp = 200 \<and> rBody gresp = FileBody (fst (qBody preq)) \<and>
       rContentType gresp = contentType (location h greq))"
proof -
  let ?k = "resolve c (location h greq)"
  have loc: "location h greq = location h preq" using assms(7) by (simp add: location_def)
  have h: "hRoot h \<noteq> []" "cwd s = c" using assms(1) by (auto simp: serving_def rooted_def)
  have 1: "serving h c s1" by (rule serving_ServeHTTP(1) [OF assms(1,2)])
  have "store_of s1 ?k = Some (fst (qBody preq))"
    using ServeHTTP_put_stores [OF assms(2,3,4) h(1)] h(2) loc by (simp add: store_of_def uploaded_def new_file_def)
  then have "store_of s2 ?k = Some (fst (qBody preq))"
    using file_server.run_view [OF 1 assms(5)] by (metis domI map_le_def)
  then obtain n where n: "file_at s2 ?k = Some n" "kind n \<noteq> KDir" "data n = fst (qBody preq)"
    by (auto simp: store_of_def split: option.splits if_splits)
  note path = put_path [OF assms(2-4), folded assms(7)]
  note get = get_special [OF assms(9,6,8) path [THEN conjunct1] path [THEN conjunct2, THEN conjunct1]
      path [THEN conjunct2, THEN conjunct2]]
  show ?thesis
  proof (cases "http_containsDotDot (qPath greq) \<or> has_suffix (qPath greq) ''/index.html''")
    case True
    then show ?thesis using get assms(7)
      by (auto simp: http_ServeFile_def http_Error_def serveFile_def localRedirect_def answer_def split: prod.split)
  next
    case False
    then have "plain_path greq" using path by (simp add: plain_path_def)
    from get_stored [OF file_server.run_inv [OF 1 assms(5)] this n(1,2)] show ?thesis
      using get False n(3) assms(7) by simp
  qed
qed

text \<open>A confirmed upload that no download gets: the answer to a request for it is a redirect.\<close>

lemma index_upload_lost:
  "map rStatus (fst (run_all (ServeHTTP demo_handler) [demo_request ''PUT'' ''/index.html'' ''u:p'',
     demo_request ''GET'' ''/index.html'' ''u:p''] demo_os)) = [201, 301]"
  by code_simp

theorem uploads_last_witness:
  "rBody (fst (ServeHTTP demo_handler (demo_request ''GET'' ''/out.tar'' ''u:p'')
     (snd (run_all (ServeHTTP demo_handler) demo_session
       (snd (ServeHTTP demo_handler (demo_request ''PUT'' ''/out.tar'' ''u:p'') demo_os)))))) = FileBody (Raw ''output'')"
proof -
  let ?put = "demo_request ''PUT'' ''/out.tar'' ''u:p''" and ?get = "demo_request ''GET'' ''/out.tar'' ''u:p''"
  obtain p s1 where p: "ServeHTTP demo_handler ?put demo_os = (p, s1)" by fastforce
  obtain rs s2 where r: "run_all (ServeHTTP demo_handler) demo_session s1 = (rs, s2)" by fastforce
  obtain g s3 where g: "ServeHTTP demo_handler ?get s2 = (g, s3)" by fastforce
  have "rStatus (fst (ServeHTTP demo_handler ?put demo_os)) = 201" by code_simp
  then show ?thesis
    using uploads_last [OF demo_store_serving p _ _ r _ _ demo_authorized(1) g] demo_plain(1) p r g
    by (simp add: demo_request_def plain_path_def)
qed

end
