(* ===== verification/KubeTypes.thy ===== *)
theory KubeTypes
  imports Prelude
begin

text \<open>
  The objects of the Kubernetes API the program builds and reads, with the fields it uses: pods,
  containers, volumes, secrets, owner references, pod and container status, and watch events. An
  absent pointer is \<^const>\<open>None\<close>; an absent string is empty.
\<close>

record EnvVar =
  evName :: string
  evValue :: string

record VolumeMount =
  vmName :: string
  vmMountPath :: string
  vmSubPath :: string

record Capabilities =
  capAdd :: "string list"
  capDrop :: "string list"

record SecurityContext =
  scRunAsGroup :: "int option"
  scRunAsUser :: "int option"
  scPrivileged :: "bool option"
  scAllowPrivilegeEscalation :: "bool option"
  scCapabilities :: "Capabilities option"
  scSeccompProfile :: "string option"

record Container =
  cName :: string
  cImage :: string
  cImagePullPolicy :: string
  cCommand :: "string list"
  cArgs :: "string list"
  cEnv :: "EnvVar list"
  cWorkingDir :: string
  cVolumeMounts :: "VolumeMount list"
  cSecurityContext :: "SecurityContext option"

definition empty_container :: Container where
  "empty_container = \<lparr>cName = [], cImage = [], cImagePullPolicy = [], cCommand = [], cArgs = [],
     cEnv = [], cWorkingDir = [], cVolumeMounts = [], cSecurityContext = None\<rparr>"

record OwnerReference =
  orAPIVersion :: string
  orKind :: string
  orName :: string
  orUID :: string
  orBlockOwnerDeletion :: bool
  orController :: bool

datatype VolumeSource = EmptyDir | SecretVolume string

record Volume =
  volName :: string
  volSource :: VolumeSource

record PodAffinityTerm =
  patMatchLabels :: "(string \<times> string) list"
  patTopologyKey :: string

record ObjectMeta =
  omName :: string
  omUID :: string
  omLabels :: "(string \<times> string) list"
  omOwnerReferences :: "OwnerReference list"

record PodSpec =
  psImagePullSecrets :: "string list"
  psRestartPolicy :: string
  psVolumes :: "Volume list"
  psInitContainers :: "Container list"
  psContainers :: "Container list"
  psAffinity :: "PodAffinityTerm list option"

text \<open>A container state: running, or terminated with a reason, or neither.\<close>

record ContainerStatus =
  csName :: string
  csRunning :: bool
  csTerminated :: "string option"

datatype PodPhase = PodPending | PodRunning | PodSucceeded | PodFailed | PodUnknown

record PodStatus =
  stPhase :: PodPhase
  stInitContainerStatuses :: "ContainerStatus list"
  stContainerStatuses :: "ContainerStatus list"

record Pod =
  podMeta :: ObjectMeta
  podSpec :: PodSpec
  podStatus :: PodStatus

abbreviation pod_name :: "Pod \<Rightarrow> string" where
  "pod_name p \<equiv> omName (podMeta p)"

definition new_status :: PodStatus where
  "new_status = \<lparr>stPhase = PodUnknown, stInitContainerStatuses = [], stContainerStatuses = []\<rparr>"

record Secret =
  secMeta :: ObjectMeta
  secStringData :: "(string \<times> string) list"

record Node =
  nodeLabels :: "(string \<times> string) list"

text \<open>
  A watch event. \<^verbatim>\<open>Added\<close> and \<^verbatim>\<open>Modified\<close> events carry the pod; an \<^verbatim>\<open>Error\<close> event carries
  the text \<^verbatim>\<open>%v\<close> prints for its object; \<^verbatim>\<open>Deleted\<close> and \<^verbatim>\<open>Bookmark\<close> events are skipped.
\<close>

datatype Event = Added Pod | Modified Pod | Deleted Pod | Bookmark | ErrorEvent string

section \<open>API clients\<close>

text \<open>An answer of the API server: an error or a value.\<close>

type_synonym 'a result = "gerror + 'a"

text \<open>
  The Kubernetes clients the program is given. They are parameters of the model: each call may
  answer anything and may change the cluster state \<open>'k\<close>, of which the model knows nothing. The log
  of a container is the bytes its stream yields and the error that ends it, if any.
\<close>

record 'k kube =
  secretCreate :: "Secret \<Rightarrow> 'k \<Rightarrow> Secret result \<times> 'k"
  secretGet :: "string \<Rightarrow> 'k \<Rightarrow> Secret result \<times> 'k"
  secretUpdate :: "Secret \<Rightarrow> 'k \<Rightarrow> Secret result \<times> 'k"
  secretDelete :: "string \<Rightarrow> 'k \<Rightarrow> unit result \<times> 'k"
  podWatch :: "string \<times> string \<Rightarrow> 'k \<Rightarrow> unit result \<times> 'k"
  podCreate :: "Pod \<Rightarrow> 'k \<Rightarrow> Pod result \<times> 'k"
  podDelete :: "string \<Rightarrow> 'k \<Rightarrow> unit result \<times> 'k"
  podList :: "string \<Rightarrow> 'k \<Rightarrow> Pod list result \<times> 'k"
  podLogs :: "string \<Rightarrow> string \<Rightarrow> bool \<Rightarrow> 'k \<Rightarrow> (string \<times> gerror option) result \<times> 'k"
  logClose :: "string \<Rightarrow> 'k \<Rightarrow> unit result \<times> 'k"
  nodeList :: "('k \<Rightarrow> Node list result \<times> 'k) option"

text \<open>The calls with their answers, as an observer between the program and the cluster sees them.\<close>

datatype kcall =
    CSecretCreate Secret "Secret result"
  | CSecretGet string "Secret result"
  | CSecretUpdate Secret "Secret result"
  | CSecretDelete string "unit result"
  | CPodWatch "string \<times> string" "unit result"
  | CWatchStop
  | CPodCreate Pod "Pod result"
  | CPodDelete string "unit result"
  | CPodList string "Pod list result"
  | CPodLogs string string bool "(string \<times> gerror option) result"
  | CLogClose string "unit result"
  | CNodeList "Node list result"

text \<open>
  What a handler of the server acts on: the cluster, the calls made so far (oldest first) and the
  messages sent to the caller as standard error.
\<close>

record 'k world =
  cluster :: 'k
  calls :: "kcall list"
  sent :: "string list"

definition record_call :: "kcall \<Rightarrow> 'k world \<Rightarrow> 'k world" where
  "record_call c w = w\<lparr>calls := calls w @ [c]\<rparr>"

definition log_msg :: "string \<Rightarrow> 'k world \<Rightarrow> 'k world" where
  "log_msg m w = w\<lparr>sent := sent w @ [m]\<rparr>"

definition api :: "('k \<Rightarrow> 'a result \<times> 'k) \<Rightarrow> ('a result \<Rightarrow> kcall) \<Rightarrow> 'k world \<Rightarrow> 'a result \<times> 'k world" where
  "api f c w = (case f (cluster w) of (r, k') \<Rightarrow> (r, record_call (c r) (w\<lparr>cluster := k'\<rparr>)))"

lemma world_frame [simp, frame]:
  "calls (record_call c w) = calls w @ [c]" "cluster (record_call c w) = cluster w"
  "sent (record_call c w) = sent w"
  "calls (log_msg m w) = calls w" "cluster (log_msg m w) = cluster w" "sent (log_msg m w) = sent w @ [m]"
  by (simp_all add: record_call_def log_msg_def)

lemma api_frame: "api f c w = (r, w') \<Longrightarrow> calls w' = calls w @ [c r] \<and> sent w' = sent w"
  by (auto simp: api_def split: prod.splits)

lemmas kube_defs [go_defs] = record_call_def log_msg_def api_def empty_container_def new_status_def

end
