(* ===== verification/Containers.thy ===== *)
theory Containers
  imports KubeTypes
begin

text \<open>
  The container definitions of package \<^verbatim>\<open>k8sbuilder\<close>, one pair per chaincode language:
  \<^verbatim>\<open>golang.go\<close>, \<^verbatim>\<open>java.go\<close>, \<^verbatim>\<open>node.go\<close>, \<^verbatim>\<open>executable.go\<close>, and the security context of
  \<^verbatim>\<open>common.go\<close>. What the server relies on in every pair is stated by the locale
  \<open>chaincode_platform\<close> in \<^verbatim>\<open>PodDefs\<close>, interpreted there for the four languages.
\<close>

text \<open>\<^verbatim>\<open>fmt.Sprintf\<close> on a format whose only verb is \<^verbatim>\<open>%[1]s\<close>.\<close>

fun sprintf1 :: "string \<Rightarrow> string \<Rightarrow> string" where
  "sprintf1 arg [] = []"
| "sprintf1 arg (c # r) =
     (if has_prefix (c # r) ''%[1]s'' then arg @ sprintf1 arg (drop 4 r) else c # sprintf1 arg r)"

text \<open>What the peer tells the builder about the chaincode to run.\<close>

record runMetadata =
  ChaincodeID :: string
  ClientCert :: string
  ClientKey :: string
  RootCert :: string
  PeerAddress :: string

text \<open>\<^verbatim>\<open>genv\<close> is \<^verbatim>\<open>os.Getenv\<close> of the builder process.\<close>

definition toRunEnv :: "(string \<Rightarrow> string) \<Rightarrow> runMetadata \<Rightarrow> EnvVar list" where
  "toRunEnv genv r =
     [\<lparr>evName = ''CORE_CHAINCODE_ID_NAME'', evValue = ChaincodeID r\<rparr>,
      \<lparr>evName = ''CORE_PEER_TLS_ENABLED'', evValue = ''true''\<rparr>,
      \<lparr>evName = ''CORE_PEER_TLS_ROOTCERT_FILE'', evValue = ''/certs/peer.crt''\<rparr>,
      \<lparr>evName = ''CORE_TLS_CLIENT_KEY_PATH'', evValue = ''/certs/client.key''\<rparr>,
      \<lparr>evName = ''CORE_TLS_CLIENT_CERT_PATH'', evValue = ''/certs/client.crt''\<rparr>,
      \<lparr>evName = ''CORE_TLS_CLIENT_KEY_FILE'', evValue = ''/certs/client_pem.key''\<rparr>,
      \<lparr>evName = ''CORE_TLS_CLIENT_CERT_FILE'', evValue = ''/certs/client_pem.crt''\<rparr>,
      \<lparr>evName = ''CORE_PEER_LOCALMSPID'', evValue = genv ''CORE_PEER_LOCALMSPID''\<rparr>]"

text \<open>\<^verbatim>\<open>toPopulateScript\<close> writes nothing to its buffer.\<close>

definition toPopulateScript :: "runMetadata \<Rightarrow> string" where
  "toPopulateScript r = []"

section \<open>Security contexts\<close>

definition getSecContext :: SecurityContext where
  "getSecContext = \<lparr>scRunAsGroup = Some 7051, scRunAsUser = Some 7051, scPrivileged = Some False,
     scAllowPrivilegeEscalation = Some False,
     scCapabilities = Some \<lparr>capAdd = [''NET_BIND_SERVICE''], capDrop = [''ALL'']\<rparr>,
     scSeccompProfile = Some ''RuntimeDefault''\<rparr>"

definition run_as :: "int \<Rightarrow> SecurityContext" where
  "run_as user = \<lparr>scRunAsGroup = None, scRunAsUser = Some user, scPrivileged = None,
     scAllowPrivilegeEscalation = None, scCapabilities = None, scSeccompProfile = None\<rparr>"

abbreviation mount :: "string \<Rightarrow> string \<Rightarrow> VolumeMount" where
  "mount n p \<equiv> \<lparr>vmName = n, vmMountPath = p, vmSubPath = []\<rparr>"

abbreviation mount_sub :: "string \<Rightarrow> string \<Rightarrow> string \<Rightarrow> VolumeMount" where
  "mount_sub n p sp \<equiv> \<lparr>vmName = n, vmMountPath = p, vmSubPath = sp\<rparr>"

section \<open>Go\<close>

definition goBuildScript :: string where
  \<open>goBuildScript = ''
set -e
if [ -f "/chaincode/input/src/go.mod" ] && [ -d "/chaincode/input/src/vendor" ]; then
    cd /chaincode/input/src
    echo "GO111MODULE=on go build -v -mod=vendor -o /chaincode/output/chaincode %[1]s"
    GO111MODULE=on go build -v -mod=vendor -o /chaincode/output/chaincode %[1]s
elif [ -f "/chaincode/input/src/go.mod" ]; then
    cd /chaincode/input/src
    echo "GO111MODULE=on go build -v -mod=readonly -o /chaincode/output/chaincode %[1]s"
    GO111MODULE=on go build -v -mod=readonly -o /chaincode/output/chaincode %[1]s
elif [ -f "/chaincode/input/src/%[1]s/go.mod" ] && [ -d "/chaincode/input/src/%[1]s/vendor" ]; then
    cd /chaincode/input/src/%[1]s
    echo "GO111MODULE=on go build -v -mod=vendor -o /chaincode/output/chaincode ."
    GO111MODULE=on go build -v -mod=vendor -o /chaincode/output/chaincode .
elif [ -f "/chaincode/input/src/%[1]s/go.mod" ]; then
    cd /chaincode/input/src/%[1]s
    echo "GO111MODULE=on go build -v -mod=readonly -o /chaincode/output/chaincode ."
    GO111MODULE=on go build -v -mod=readonly -o /chaincode/output/chaincode .
else
    echo "GO111MODULE=off GOPATH=/chaincode/input:$GOPATH go build -v -o /chaincode/output/chaincode %[1]s"
    GO111MODULE=off GOPATH=/chaincode/input:$GOPATH go build -v -o /chaincode/output/chaincode %[1]s
fi
echo Done!
''\<close>

definition golangBuildContainer :: "string \<Rightarrow> string \<Rightarrow> Container" where
  "golangBuildContainer path img = empty_container\<lparr>
     cName := ''build-golang-chaincode'', cImage := img, cCommand := [''/bin/sh''],
     cArgs := [''-c'', sprintf1 path goBuildScript],
     cVolumeMounts := [mount ''chaincode'' ''/chaincode''],
     cSecurityContext := Some (run_as 7051)\<rparr>"

definition golangRunScript :: string where
  "golangRunScript = ''/usr/local/bin/chaincode -peer.address %[1]s''"

definition golangRunContainer :: "(string \<Rightarrow> string) \<Rightarrow> runMetadata \<Rightarrow> string \<Rightarrow> Container" where
  "golangRunContainer genv rmd img = empty_container\<lparr>
     cName := ''run-go-chaincode'', cImage := img, cImagePullPolicy := ''Always'',
     cCommand := [''/bin/sh''], cArgs := [''-c'', sprintf1 (PeerAddress rmd) golangRunScript],
     cEnv := toRunEnv genv rmd,
     cVolumeMounts := [mount_sub ''chaincode'' ''/chaincode/artifacts'' ''artifacts'',
       mount_sub ''chaincode'' ''/usr/local/bin'' ''output'', mount ''certs'' ''/certs''],
     cSecurityContext := Some getSecContext\<rparr>"

section \<open>Java\<close>

definition javaBuildScript :: string where
  "javaBuildScript = ''/root/chaincode-java/build.sh''"

definition javaBuildContainer :: "string \<Rightarrow> Container" where
  "javaBuildContainer img = empty_container\<lparr>
     cName := ''build-java-chaincode'', cImage := img, cCommand := [''/bin/sh''],
     cArgs := [''-c'', javaBuildScript],
     cVolumeMounts := [mount ''chaincode'' ''/chaincode''],
     cSecurityContext := Some (run_as 7051)\<rparr>"

definition javaRunScript :: string where
  "javaRunScript = ''/root/chaincode-java/start --peerAddress %[1]s''"

definition javaRunContainer :: "(string \<Rightarrow> string) \<Rightarrow> runMetadata \<Rightarrow> string \<Rightarrow> Container" where
  "javaRunContainer genv rmd img = empty_container\<lparr>
     cName := ''run-java-chaincode'', cImage := img, cImagePullPolicy := ''Always'',
     cCommand := [''/bin/sh''], cArgs := [''-c'', sprintf1 (PeerAddress rmd) javaRunScript],
     cEnv := toRunEnv genv rmd, cWorkingDir := ''/root/chaincode-java'',
     cVolumeMounts := [mount_sub ''chaincode'' ''/chaincode/artifacts'' ''artifacts'',
       mount_sub ''chaincode'' ''/root/chaincode-java/chaincode'' ''output'', mount ''certs'' ''/certs''],
     cSecurityContext := Some getSecContext\<rparr>"

section \<open>Node\<close>

text \<open>A tab, which the shell scripts of two languages use for indentation.\<close>

definition tab :: string where "tab = [char_of (9 :: nat)]"

definition nodeBuildScript :: string where
  \<open>nodeBuildScript = ''
set -e
if [ -x /chaincode/build.sh ]; then
'' @ tab @ ''/chaincode/build.sh
else
'' @ tab @ ''cp -R /chaincode/input/src/. /chaincode/output && cd /chaincode/output && npm install --production
fi
''\<close>

definition nodeBuildContainer :: "string \<Rightarrow> Container" where
  "nodeBuildContainer img = empty_container\<lparr>
     cName := ''build-node-chaincode'', cImage := img, cCommand := [''/bin/sh''],
     cArgs := [''-c'', nodeBuildScript],
     cVolumeMounts := [mount ''chaincode'' ''/chaincode''],
     cSecurityContext := Some (run_as 7051)\<rparr>"

definition nodeStartScript :: string where
  \<open>nodeStartScript = ''
set -e
if [ -x /chaincode/start.sh ]; then
'' @ tab @ ''/chaincode/start.sh --peer.address %[1]s
else
'' @ tab @ ''cd /usr/local/src
'' @ tab @ ''npm start -- --peer.address %[1]s
fi
''\<close>

definition nodeRunContainer :: "(string \<Rightarrow> string) \<Rightarrow> runMetadata \<Rightarrow> string \<Rightarrow> Container" where
  "nodeRunContainer genv rmd img = empty_container\<lparr>
     cName := ''run-node-chaincode'', cImage := img, cImagePullPolicy := ''Always'',
     cCommand := [''/bin/sh''], cArgs := [''-c'', sprintf1 (PeerAddress rmd) nodeStartScript],
     cEnv := toRunEnv genv rmd,
     cVolumeMounts := [mount_sub ''chaincode'' ''/chaincode/artifacts'' ''artifacts'',
       mount_sub ''chaincode'' ''/usr/local/src'' ''output'', mount ''certs'' ''/certs''],
     cSecurityContext := Some getSecContext\<rparr>"

section \<open>Executables\<close>

definition executableBuildScript :: string where
  \<open>executableBuildScript = ''
set -e
if [ -x /chaincode/build.sh ]; then
'' @ tab @ ''/chaincode/build.sh
else
'' @ tab @ ''cp -R /chaincode/input/. /chaincode/output
fi
''\<close>

definition executableBuildContainer :: "string \<Rightarrow> Container" where
  "executableBuildContainer img = empty_container\<lparr>
     cName := ''build-executable-chaincode'', cImage := img, cCommand := [''/bin/sh''],
     cArgs := [''-c'', executableBuildScript],
     cVolumeMounts := [mount ''chaincode'' ''/chaincode''],
     cSecurityContext := Some (run_as 7051)\<rparr>"

definition executableRunScript :: string where
  "executableRunScript = ''/usr/local/bin/chaincode -peer.address %[1]s''"

definition executableRunContainer :: "(string \<Rightarrow> string) \<Rightarrow> runMetadata \<Rightarrow> string \<Rightarrow> Container" where
  "executableRunContainer genv rmd img = empty_container\<lparr>
     cName := ''run-executable-chaincode'', cImage := img, cImagePullPolicy := ''Always'',
     cCommand := [''/bin/sh''], cArgs := [''-c'', sprintf1 (PeerAddress rmd) executableRunScript],
     cEnv := toRunEnv genv rmd,
     cVolumeMounts := [mount_sub ''chaincode'' ''/chaincode/artifacts'' ''artifacts'',
       mount_sub ''chaincode'' ''/usr/local/bin'' ''output'', mount ''certs'' ''/certs''],
     cSecurityContext := Some (run_as 7051)\<rparr>"

lemmas container_defs [go_defs] = toRunEnv_def getSecContext_def run_as_def empty_container_def
  golangBuildContainer_def golangRunContainer_def javaBuildContainer_def javaRunContainer_def
  nodeBuildContainer_def nodeRunContainer_def executableBuildContainer_def executableRunContainer_def

end
