(* ===== verification/Url.thy ===== *)
theory Url
  imports GoPath
begin

text \<open>
  Package \<^verbatim>\<open>net/url\<close> as \<^verbatim>\<open>urlJoin\<close> of \<^verbatim>\<open>server.go\<close> uses it: \<^verbatim>\<open>url.Parse\<close>, the fields of a
  \<^verbatim>\<open>url.URL\<close> and \<^verbatim>\<open>URL.String\<close>. Errors of the parser are not told apart: \<^verbatim>\<open>urlJoin\<close> panics on
  each of them.
\<close>

record url =
  uScheme :: string
  uOpaque :: string
  uUser :: "(string \<times> string option) option"
  uHost :: string
  uPath :: string
  uRawPath :: string
  uOmitHost :: bool
  uForceQuery :: bool
  uRawQuery :: string
  uFragment :: string
  uRawFragment :: string

section \<open>Escaping\<close>

datatype encoding = EncPath | EncHost | EncZone | EncUser | EncFragment

definition ub :: "char \<Rightarrow> nat" where "ub c = of_char c"

definition is_alnum :: "char \<Rightarrow> bool" where
  "is_alnum c \<longleftrightarrow> (48 \<le> ub c \<and> ub c \<le> 57) \<or> (65 \<le> ub c \<and> ub c \<le> 90) \<or> (97 \<le> ub c \<and> ub c \<le> 122)"

definition shouldEscape :: "encoding \<Rightarrow> char \<Rightarrow> bool" where
  "shouldEscape m c =
     (if is_alnum c then False
      else if (m = EncHost \<or> m = EncZone) \<and> (c \<in> set ''!$&()*+,;=:[]<>'' \<or> ub c \<in> {39, 34}) then False
      else if c \<in> set ''-_.~'' then False
      else if c \<in> set ''$&+,/:;=?@'' then
        (case m of
           EncPath \<Rightarrow> c = CHR ''?''
         | EncUser \<Rightarrow> c = CHR ''@'' \<or> c = CHR ''/'' \<or> c = CHR ''?'' \<or> c = CHR '':''
         | EncFragment \<Rightarrow> False
         | _ \<Rightarrow> True)
      else if m = EncFragment \<and> c \<in> set ''!()*'' then False
      else True)"

definition hexval :: "char \<Rightarrow> nat option" where
  "hexval c = (let b = ub c in
     if 48 \<le> b \<and> b \<le> 57 then Some (b - 48)
     else if 65 \<le> b \<and> b \<le> 70 then Some (b - 55)
     else if 97 \<le> b \<and> b \<le> 102 then Some (b - 87) else None)"

definition upperhex :: "nat \<Rightarrow> char" where
  "upperhex d = char_of (if d < 10 then 48 + d else 55 + d)"

definition url_escape :: "encoding \<Rightarrow> string \<Rightarrow> string" where
  "url_escape m s = concat (map (\<lambda>c. if shouldEscape m c
     then [CHR ''%'', upperhex (ub c div 16), upperhex (ub c mod 16)] else [c]) s)"

text \<open>\<^verbatim>\<open>unescape\<close>: \<^const>\<open>None\<close> is an \<^verbatim>\<open>EscapeError\<close> or \<^verbatim>\<open>InvalidHostError\<close>.\<close>

fun unescape :: "encoding \<Rightarrow> string \<Rightarrow> string option" where
  "unescape m [] = Some []"
| "unescape m (c # r) =
     (if c = CHR ''%'' then
        (case r of
           x # y # r' \<Rightarrow>
             (case (hexval x, hexval y) of
                (Some a, Some b) \<Rightarrow>
                  (let v = a * 16 + b in
                   if m = EncHost \<and> a < 8 \<and> v \<noteq> 0x25 then None
                   else if m = EncZone \<and> v \<noteq> 0x25 \<and> v \<noteq> 0x20 \<and> shouldEscape EncHost (char_of v) then None
                   else map_option ((#) (char_of v)) (unescape m r'))
              | _ \<Rightarrow> None)
         | _ \<Rightarrow> None)
      else if (m = EncHost \<or> m = EncZone) \<and> ub c < 0x80 \<and> shouldEscape m c then None
      else map_option ((#) c) (unescape m r))"

section \<open>Parsing\<close>

fun cut_at :: "char \<Rightarrow> string \<Rightarrow> string \<times> string option" where
  "cut_at c [] = ([], None)"
| "cut_at c (x # xs) = (if x = c then ([], Some xs) else (case cut_at c xs of (a, b) \<Rightarrow> (x # a, b)))"

definition opt_str :: "string option \<Rightarrow> string" where
  "opt_str x = (case x of None \<Rightarrow> [] | Some t \<Rightarrow> t)"

text \<open>\<^verbatim>\<open>getScheme\<close>: the scheme and the rest; \<^const>\<open>None\<close> when the scheme is missing before a colon.\<close>

fun scan_scheme :: "string \<Rightarrow> string \<Rightarrow> string \<Rightarrow> (string \<times> string) option" where
  "scan_scheme raw acc [] = Some ([], raw)"
| "scan_scheme raw acc (c # r) =
     (if is_alnum c \<and> \<not> (48 \<le> ub c \<and> ub c \<le> 57) then scan_scheme raw (acc @ [c]) r
      else if is_alnum c \<or> c \<in> set ''+-.'' then
        (if acc = [] then Some ([], raw) else scan_scheme raw (acc @ [c]) r)
      else if c = CHR '':'' then (if acc = [] then None else Some (acc, r))
      else Some ([], raw))"

definition validOptionalPort :: "string \<Rightarrow> bool" where
  "validOptionalPort p = (p = [] \<or>
     (hd p = CHR '':'' \<and> list_all (\<lambda>c. 48 \<le> ub c \<and> ub c \<le> 57) (tl p)))"

text \<open>The part of a host from its last colon on (empty without a colon).\<close>

definition colon_port :: "string \<Rightarrow> string" where
  "colon_port h = (if CHR '':'' \<in> set h then CHR '':'' # last (split_on (CHR '':'') h) else [])"

definition parseHost :: "string \<Rightarrow> string option" where
  "parseHost host =
     (if has_prefix host ''['' then
        (if CHR '']'' \<notin> set host then None
         else (let tail = last (split_on (CHR '']'') host);
                   front = take (length host - length tail - 1) host;
                   close = CHR '']'' # tail in
           if \<not> validOptionalPort tail then None
           else (case cut_at (CHR ''%'') front of
               (h1, Some z) \<Rightarrow>
                 (if has_prefix z ''25'' then
                    (case (unescape EncHost h1, unescape EncZone (CHR ''%'' # z), unescape EncHost close) of
                       (Some a, Some b, Some d) \<Rightarrow> Some (a @ b @ d) | _ \<Rightarrow> None)
                  else unescape EncHost host)
             | (_, None) \<Rightarrow> unescape EncHost host)))
      else if \<not> validOptionalPort (colon_port host) then None
      else unescape EncHost host)"

definition validUserinfo :: "string \<Rightarrow> bool" where
  "validUserinfo s = list_all (\<lambda>c. is_alnum c \<or> c \<in> set ''-._:~!$&()*+,;=%@'' \<or> ub c = 39) s"

definition parseAuthority :: "string \<Rightarrow> ((string \<times> string option) option \<times> string) option" where
  "parseAuthority a =
     (if CHR ''@'' \<notin> set a then map_option (Pair None) (parseHost a)
      else (let h = last (split_on (CHR ''@'') a); ui = take (length a - length h - 1) a in
        case parseHost h of
          None \<Rightarrow> None
        | Some host \<Rightarrow>
            (if \<not> validUserinfo ui then None
             else case cut_at (CHR '':'') ui of
               (n, None) \<Rightarrow> map_option (\<lambda>u. (Some (u, None), host)) (unescape EncUser n)
             | (n, Some p) \<Rightarrow>
                 (case (unescape EncUser n, unescape EncUser p) of
                    (Some u, Some w) \<Rightarrow> Some (Some (u, Some w), host) | _ \<Rightarrow> None))))"

definition setPath :: "string \<Rightarrow> url \<Rightarrow> url option" where
  "setPath p u = (case unescape EncPath p of
      None \<Rightarrow> None
    | Some path \<Rightarrow> Some (u\<lparr>uPath := path, uRawPath := (if p = url_escape EncPath path then [] else p)\<rparr>))"

definition empty_url :: url where
  "empty_url = \<lparr>uScheme = [], uOpaque = [], uUser = None, uHost = [], uPath = [], uRawPath = [],
     uOmitHost = False, uForceQuery = False, uRawQuery = [], uFragment = [], uRawFragment = []\<rparr>"

text \<open>The part after the scheme and the query: authority and path.\<close>

definition parse_rest :: "string \<Rightarrow> url \<Rightarrow> url option" where
  "parse_rest rest u =
     (if \<not> is_rooted rest \<and> uScheme u \<noteq> [] then Some (u\<lparr>uOpaque := rest\<rparr>)
      else if \<not> is_rooted rest \<and> CHR '':'' \<in> set (fst (cut_at (CHR ''/'') rest)) then None
      else if (uScheme u \<noteq> [] \<or> \<not> has_prefix rest ''///'') \<and> has_prefix rest ''//'' then
        (let (auth, p) = cut_at (CHR ''/'') (drop 2 rest) in
         case parseAuthority auth of
           None \<Rightarrow> None
         | Some (user, host) \<Rightarrow>
             setPath (case p of None \<Rightarrow> [] | Some q \<Rightarrow> CHR ''/'' # q) (u\<lparr>uUser := user, uHost := host\<rparr>))
      else setPath rest (u\<lparr>uOmitHost := (uScheme u \<noteq> [] \<and> is_rooted rest)\<rparr>))"

definition parse_main :: "string \<Rightarrow> url option" where
  "parse_main raw =
     (if list_ex (\<lambda>c. ub c < 0x20 \<or> ub c = 0x7F) raw then None
      else if raw = ''*'' then Some (empty_url\<lparr>uPath := ''*''\<rparr>)
      else case scan_scheme raw [] raw of
        None \<Rightarrow> None
      | Some (scheme, rest) \<Rightarrow>
          (let u = empty_url\<lparr>uScheme := to_lower scheme\<rparr> in
           if has_suffix rest ''?'' \<and> count_list rest (CHR ''?'') = 1
           then parse_rest (butlast rest) (u\<lparr>uForceQuery := True\<rparr>)
           else (let (r, q) = cut_at (CHR ''?'') rest in parse_rest r (u\<lparr>uRawQuery := opt_str q\<rparr>))))"

definition url_Parse :: "string \<Rightarrow> url option" where
  "url_Parse raw = (let (main, frag) = cut_at (CHR ''#'') raw in
     case parse_main main of
       None \<Rightarrow> None
     | Some u \<Rightarrow>
         (if opt_str frag = [] then Some u
          else case unescape EncFragment (opt_str frag) of
            None \<Rightarrow> None
          | Some f \<Rightarrow> Some (u\<lparr>uFragment := f,
              uRawFragment := (if opt_str frag = url_escape EncFragment f then [] else opt_str frag)\<rparr>)))"

section \<open>Printing\<close>

text \<open>\<^verbatim>\<open>validEncoded\<close>: a set path or fragment that may be used as it is.\<close>

definition validEncoded :: "encoding \<Rightarrow> string \<Rightarrow> bool" where
  "validEncoded m s = list_all (\<lambda>c. c \<in> set ''!$&()*+,;=:@[]%'' \<or> ub c = 39 \<or> \<not> shouldEscape m c) s"

definition EscapedPath :: "url \<Rightarrow> string" where
  "EscapedPath u =
     (if uRawPath u \<noteq> [] \<and> validEncoded EncPath (uRawPath u) \<and> unescape EncPath (uRawPath u) = Some (uPath u)
      then uRawPath u
      else if uPath u = ''*'' then ''*'' else url_escape EncPath (uPath u))"

definition EscapedFragment :: "url \<Rightarrow> string" where
  "EscapedFragment u =
     (if uRawFragment u \<noteq> [] \<and> validEncoded EncFragment (uRawFragment u) \<and>
         unescape EncFragment (uRawFragment u) = Some (uFragment u)
      then uRawFragment u else url_escape EncFragment (uFragment u))"

definition userinfo_text :: "string \<times> string option \<Rightarrow> string" where
  "userinfo_text ui = url_escape EncUser (fst ui) @
     (case snd ui of None \<Rightarrow> [] | Some p \<Rightarrow> CHR '':'' # url_escape EncUser p)"

definition authority_text :: "url \<Rightarrow> string" where
  "authority_text u =
     (if uScheme u = [] \<and> uHost u = [] \<and> uUser u = None then []
      else if uOmitHost u \<and> uHost u = [] \<and> uUser u = None then []
      else (if uHost u \<noteq> [] \<or> uPath u \<noteq> [] \<or> uUser u \<noteq> None then ''//'' else []) @
           (case uUser u of None \<Rightarrow> [] | Some ui \<Rightarrow> userinfo_text ui @ ''@'') @
           url_escape EncHost (uHost u))"

definition url_String :: "url \<Rightarrow> string" where
  "url_String u =
     (let front = (if uScheme u = [] then [] else uScheme u @ '':'') in
      (if uOpaque u \<noteq> [] then front @ uOpaque u
       else (let b = front @ authority_text u; p = EscapedPath u in
         b @ (if p \<noteq> [] \<and> \<not> is_rooted p \<and> uHost u \<noteq> [] then ''/'' else []) @
         (if b = [] \<and> CHR '':'' \<in> set (fst (cut_at (CHR ''/'') p)) then ''./'' else []) @ p)) @
      (if uForceQuery u \<or> uRawQuery u \<noteq> [] then CHR ''?'' # uRawQuery u else []) @
      (if uFragment u \<noteq> [] then CHR ''#'' # EscapedFragment u else []))"

section \<open>Joining\<close>

text \<open>\<^verbatim>\<open>urlJoin\<close> of \<^verbatim>\<open>server.go\<close>.\<close>

definition urlJoin :: "string \<Rightarrow> string \<Rightarrow> string outcome" where
  "urlJoin rawurl pathSegment = (case url_Parse rawurl of
      None \<Rightarrow> Panic ''url.Parse''
    | Some u \<Rightarrow> Ok (url_String (u\<lparr>uPath := path_Join [uPath u, pathSegment]\<rparr>)))"

lemmas url_defs [go_defs] = ub_def is_alnum_def shouldEscape_def hexval_def upperhex_def
  url_escape_def opt_str_def validOptionalPort_def colon_port_def parseHost_def validUserinfo_def
  parseAuthority_def setPath_def empty_url_def parse_rest_def parse_main_def url_Parse_def
  validEncoded_def EscapedPath_def EscapedFragment_def userinfo_text_def authority_text_def
  url_String_def urlJoin_def

end
