(* ===== verification/PodDefs.thy ===== *)
theory PodDefs
  imports Containers Url Encoding
begin

text \<open>
  The server of \<^verbatim>\<open>server.go\<close> and the pods it builds: \<^verbatim>\<open>buildPodDefinition\<close>,
  \<^verbatim>\<open>runPodDefinition\<close>, the choice of containers by chaincode type, \<^verbatim>\<open>hasZoneLabels\<close> and
  \<^verbatim>\<open>genPullSecretList\<close>. Building a pod definition panics when the base URL does not parse, the
  random generator fails or the server has no credentials.
\<close>

record BasicAuth =
  Username :: string
  Password :: string

record Server =
  SharedPath :: string
  FSBaseURL :: string
  FileTransferImage :: string
  BuilderImage :: string
  GoEnvImage :: string
  JavaEnvImage :: string
  NodeEnvImage :: string
  ImagePullSecrets :: "string list"
  PeerID :: string
  Auth :: "BasicAuth option"
  TLSCertString :: string

record chaincodeMetadata =
  mdPath :: string
  mdType :: string

definition quoted :: "string \<Rightarrow> string" where
  "quoted u = [char_of (39 :: nat)] @ u @ [char_of (39 :: nat)]"

fun genPullSecretList :: "string list \<Rightarrow> string list" where
  "genPullSecretList [] = []"
| "genPullSecretList (secret # secrets) = secret # genPullSecretList secrets"

definition peer_ref :: "string \<Rightarrow> string \<Rightarrow> OwnerReference" where
  "peer_ref peerPodName peerPodUID = \<lparr>orAPIVersion = ''v1'', orKind = ''Pod'', orName = peerPodName,
     orUID = peerPodUID, orBlockOwnerDeletion = True, orController = True\<rparr>"

definition auth_env :: "BasicAuth \<Rightarrow> EnvVar list" where
  "auth_env a = [\<lparr>evName = ''USERNAME'', evValue = Username a\<rparr>,
     \<lparr>evName = ''PASSWORD'', evValue = Password a\<rparr>]"

section \<open>The build pod\<close>

definition setup_container :: "Server \<Rightarrow> Container" where
  "setup_container b = empty_container\<lparr>
     cName := ''setup-chaincode-volume'', cImage := FileTransferImage b, cImagePullPolicy := ''Always'',
     cCommand := [''/bin/sh''],
     cArgs := [''-c'', ''mkdir -p /chaincode/input /chaincode/output /chaincode/certs && chmod 777 /chaincode/input /chaincode/output /chaincode/certs && echo -e ${TLS_CERT} > /chaincode/certs/cacert.pem''],
     cEnv := [\<lparr>evName = ''TLS_CERT'', evValue = TLSCertString b\<rparr>],
     cVolumeMounts := [mount ''chaincode'' ''/chaincode'']\<rparr>"

definition download_source_container :: "Server \<Rightarrow> BasicAuth \<Rightarrow> string \<Rightarrow> Container" where
  "download_source_container b a sourceURL = empty_container\<lparr>
     cName := ''download-chaincode-source'', cImage := FileTransferImage b, cImagePullPolicy := ''Always'',
     cCommand := [''/bin/sh''],
     cArgs := [''-c'', ''curl -u ${USERNAME}:${PASSWORD} --cacert /chaincode/certs/cacert.pem -s -o- -L '' @
       quoted sourceURL @ '' | tar -C /chaincode/input -xvf - && chmod -R 777 /chaincode/input''],
     cEnv := auth_env a,
     cVolumeMounts := [mount ''chaincode'' ''/chaincode'']\<rparr>"

definition upload_output_container :: "Server \<Rightarrow> BasicAuth \<Rightarrow> string \<Rightarrow> Container" where
  "upload_output_container b a outputURL = empty_container\<lparr>
     cName := ''upload-chaincode-output'', cImage := FileTransferImage b, cImagePullPolicy := ''Always'',
     cCommand := [''/bin/sh''],
     cArgs := [''-c'', ''cd /chaincode/output && tar cvf /chaincode/output.tar $(ls -A) && curl -u ${USERNAME}:${PASSWORD} --cacert /chaincode/certs/cacert.pem -s --upload-file /chaincode/output.tar '' @
       quoted outputURL],
     cEnv := auth_env a,
     cSecurityContext := Some (run_as 7051),
     cVolumeMounts := [mount ''chaincode'' ''/chaincode'']\<rparr>"

definition build_pod :: "Server \<Rightarrow> BasicAuth \<Rightarrow> Container \<Rightarrow> string \<Rightarrow> string \<Rightarrow> string \<Rightarrow> string \<Rightarrow> string \<Rightarrow> Pod" where
  "build_pod b a buildContainer sourceURL outputURL uuid peerPodName peerPodUID =
     \<lparr>podMeta = \<lparr>omName = ''chaincode-build-'' @ uuid, omUID = [],
        omLabels = [(''peer-id'', PeerID b)], omOwnerReferences = [peer_ref peerPodName peerPodUID]\<rparr>,
      podSpec = \<lparr>psImagePullSecrets = genPullSecretList (ImagePullSecrets b), psRestartPolicy = ''Never'',
        psVolumes = [\<lparr>volName = ''chaincode'', volSource = EmptyDir\<rparr>],
        psInitContainers = [setup_container b, download_source_container b a sourceURL, buildContainer],
        psContainers = [upload_output_container b a outputURL],
        psAffinity = None\<rparr>,
      podStatus = new_status\<rparr>"

definition buildPodDefinition :: "Server \<Rightarrow> 8 word list option \<Rightarrow> Container \<Rightarrow> string \<Rightarrow> string \<Rightarrow> string \<Rightarrow> string \<Rightarrow> Pod outcome" where
  "buildPodDefinition b rnd buildContainer sourcePath outputPath peerPodName peerPodUID =
     (case urlJoin (FSBaseURL b) sourcePath of
        Ok sourceURL \<Rightarrow>
          (case urlJoin (FSBaseURL b) outputPath of
             Ok outputURL \<Rightarrow>
               (case UUID rnd of
                  Ok uuid \<Rightarrow>
                    (case Auth b of
                       None \<Rightarrow> Panic ''nil pointer dereference''
                     | Some a \<Rightarrow> Ok (build_pod b a buildContainer sourceURL outputURL uuid peerPodName peerPodUID))
                | Err e \<Rightarrow> Err e | Panic p \<Rightarrow> Panic p)
           | Err e \<Rightarrow> Err e | Panic p \<Rightarrow> Panic p)
      | Err e \<Rightarrow> Err e | Panic p \<Rightarrow> Panic p)"

definition buildContainerDefinition :: "Server \<Rightarrow> chaincodeMetadata \<Rightarrow> Container outcome" where
  "buildContainerDefinition b md =
     (let t = to_lower (mdType md) in
      if t = ''golang'' then Ok (golangBuildContainer (mdPath md) (BuilderImage b))
      else if t = ''java'' then Ok (javaBuildContainer (JavaEnvImage b))
      else if t = ''node'' then Ok (nodeBuildContainer (BuilderImage b))
      else if t = ''executable'' then Ok (executableBuildContainer (BuilderImage b))
      else Err (ErrMsg (''unsupported chaincode type: '' @ mdType md)))"

section \<open>The run pod\<close>

definition zone_label :: string where
  "zone_label = ''topology.kubernetes.io/zone''"

text \<open>Without a node client, or when listing nodes fails, there are no zone labels.\<close>

definition hasZoneLabels :: "'k kube \<Rightarrow> 'k world \<Rightarrow> bool \<times> 'k world" where
  "hasZoneLabels kc w = (case nodeList kc of
      None \<Rightarrow> (False, w)
    | Some f \<Rightarrow>
        (case api f CNodeList w of
           (Inr nodes, w') \<Rightarrow> (list_ex (\<lambda>n. map_of (nodeLabels n) zone_label \<noteq> None) nodes, w')
         | (Inl _, w') \<Rightarrow> (False, w')))"

text \<open>The chaincode identifier as a label value: colons become dashes, long values are cut.\<close>

definition chaincode_label :: "string \<Rightarrow> string" where
  "chaincode_label chaincodeID =
     (let c = replace_char (CHR '':'') (CHR ''-'') chaincodeID in
      if 63 < length c then take 62 c else c)"

definition download_output_container :: "Server \<Rightarrow> BasicAuth \<Rightarrow> string \<Rightarrow> Container" where
  "download_output_container b a chaincodeURL = empty_container\<lparr>
     cName := ''download-chaincode-output'', cImage := FileTransferImage b, cImagePullPolicy := ''Always'',
     cCommand := [''/bin/sh''],
     cArgs := [''-c'', ''mkdir -p /chaincode/output /chaincode/certs && chmod -R 777 /chaincode/output /chaincode/certs && echo -e ${TLS_CERT} > /chaincode/certs/cacert.pem && curl -u ${USERNAME}:${PASSWORD} --cacert /chaincode/certs/cacert.pem -s -o- -L '' @
       quoted chaincodeURL @ '' | tar -C /chaincode/output -xvf -''],
     cEnv := auth_env a @ [\<lparr>evName = ''TLS_CERT'', evValue = TLSCertString b\<rparr>],
     cVolumeMounts := [mount ''chaincode'' ''/chaincode'']\<rparr>"

definition zone_affinity :: "Server \<Rightarrow> PodAffinityTerm list" where
  "zone_affinity b = [\<lparr>patMatchLabels = [(''app'', PeerID b)], patTopologyKey = zone_label\<rparr>]"

definition run_pod :: "Server \<Rightarrow> BasicAuth \<Rightarrow> bool \<Rightarrow> Container \<Rightarrow> runMetadata \<Rightarrow> string \<Rightarrow> string \<Rightarrow> string \<Rightarrow> string \<Rightarrow> Pod" where
  "run_pod b a zones runContainer rmd chaincodeURL uuid peerPodName peerPodUID =
     \<lparr>podMeta = \<lparr>omName = ''chaincode-execution-'' @ uuid, omUID = [],
        omLabels = [(''peer-id'', PeerID b), (''chaincode-id'', chaincode_label (ChaincodeID rmd)),
          (''app'', PeerID b)],
        omOwnerReferences = [peer_ref peerPodName peerPodUID]\<rparr>,
      podSpec = \<lparr>psImagePullSecrets = genPullSecretList (ImagePullSecrets b), psRestartPolicy = ''Never'',
        psVolumes = [\<lparr>volName = ''chaincode'', volSource = EmptyDir\<rparr>,
          \<lparr>volName = ''certs'', volSource = SecretVolume (''certs-'' @ uuid)\<rparr>],
        psInitContainers = [download_output_container b a chaincodeURL],
        psContainers = [runContainer],
        psAffinity = (if zones then Some (zone_affinity b) else None)\<rparr>,
      podStatus = new_status\<rparr>"

definition runPodDefinition :: "'k kube \<Rightarrow> Server \<Rightarrow> Container \<Rightarrow> runMetadata \<Rightarrow> string \<Rightarrow> string \<Rightarrow> string \<Rightarrow> string \<Rightarrow> 'k world \<Rightarrow> Pod outcome \<times> 'k world" where
  "runPodDefinition kc b runContainer rmd chaincodePath uuid peerPodName peerPodUID w =
     (case urlJoin (FSBaseURL b) chaincodePath of
        Ok chaincodeURL \<Rightarrow>
          (case hasZoneLabels kc w of (zones, w') \<Rightarrow>
             (case Auth b of
                None \<Rightarrow> (Panic ''nil pointer dereference'', w')
              | Some a \<Rightarrow> (Ok (run_pod b a zones runContainer rmd chaincodeURL uuid peerPodName peerPodUID), w')))
      | Err e \<Rightarrow> (Err e, w) | Panic p \<Rightarrow> (Panic p, w))"

definition runContainerDefinition :: "(string \<Rightarrow> string) \<Rightarrow> Server \<Rightarrow> string \<Rightarrow> runMetadata \<Rightarrow> Container outcome" where
  "runContainerDefinition genv b ccType rmd =
     (let t = to_lower ccType in
      if t = ''golang'' then Ok (golangRunContainer genv rmd (GoEnvImage b))
      else if t = ''java'' then Ok (javaRunContainer genv rmd (JavaEnvImage b))
      else if t = ''node'' then Ok (nodeRunContainer genv rmd (NodeEnvImage b))
      else if t = ''executable'' then Ok (executableRunContainer genv rmd (GoEnvImage b))
      else if t = ''external'' then Err (ErrMsg (''something went wrong, chaincode type: '' @ ccType))
      else Err (ErrMsg (''unsupported chaincode type: '' @ ccType)))"

lemmas pod_defs [go_defs] = quoted_def peer_ref_def auth_env_def setup_container_def
  download_source_container_def upload_output_container_def build_pod_def buildPodDefinition_def
  buildContainerDefinition_def zone_label_def hasZoneLabels_def chaincode_label_def
  download_output_container_def zone_affinity_def run_pod_def runPodDefinition_def
  runContainerDefinition_def

section \<open>What the server relies on in a chaincode language\<close>

text \<open>
  A language provides a build container for a package path and an image, and a run container for
  the run metadata and an image. Both run a shell script as the unprivileged user 7051 and mount
  only the volumes the two pods declare; the run container sees the build output, the TLS material
  and the peer's environment.
\<close>

locale chaincode_platform =
  fixes buildC :: "string \<Rightarrow> string \<Rightarrow> Container"
    and runC :: "(string \<Rightarrow> string) \<Rightarrow> runMetadata \<Rightarrow> string \<Rightarrow> Container"
  assumes build_mounts: "cVolumeMounts (buildC path img) = [mount ''chaincode'' ''/chaincode'']"
    and build_shell: "cCommand (buildC path img) = [''/bin/sh'']"
    and build_image: "cImage (buildC path img) = img"
    and build_user: "map_option scRunAsUser (cSecurityContext (buildC path img)) = Some (Some 7051)"
    and build_name: "cName (buildC path img) \<notin>
      {''setup-chaincode-volume'', ''download-chaincode-source'', ''upload-chaincode-output''}"
    and run_mounts: "\<exists>p. cVolumeMounts (runC genv rmd img) =
      [mount_sub ''chaincode'' ''/chaincode/artifacts'' ''artifacts'', mount_sub ''chaincode'' p ''output'',
       mount ''certs'' ''/certs'']"
    and run_shell: "cCommand (runC genv rmd img) = [''/bin/sh'']"
    and run_image: "cImage (runC genv rmd img) = img"
    and run_env: "cEnv (runC genv rmd img) = toRunEnv genv rmd"
    and run_user: "map_option scRunAsUser (cSecurityContext (runC genv rmd img)) = Some (Some 7051)"
    and run_name: "cName (runC genv rmd img) \<noteq> ''download-chaincode-output''"
begin

lemma run_mount_names: "set (map vmName (cVolumeMounts (runC genv rmd img))) = {''chaincode'', ''certs''}"
  using run_mounts [of genv rmd img] by auto

lemma build_pod_volumes:
  "c \<in> set (psInitContainers (podSpec (build_pod b a (buildC path img) su ou u pn pu)) @
     psContainers (podSpec (build_pod b a (buildC path img) su ou u pn pu))) \<Longrightarrow>
   m \<in> set (cVolumeMounts c) \<Longrightarrow>
   vmName m \<in> volName ` set (psVolumes (podSpec (build_pod b a (buildC path img) su ou u pn pu)))"
  by (auto simp: build_pod_def setup_container_def download_source_container_def
      upload_output_container_def empty_container_def build_mounts)

lemma build_pod_container_names:
  "distinct (map cName (psInitContainers (podSpec (build_pod b a (buildC path img) su ou u pn pu)) @
     psContainers (podSpec (build_pod b a (buildC path img) su ou u pn pu))))"
  using build_name [of path img]
  by (auto simp: build_pod_def setup_container_def download_source_container_def
      upload_output_container_def empty_container_def)

lemma run_pod_volumes:
  assumes "c \<in> set (psInitContainers (podSpec (run_pod b a z (runC genv rmd img) rmd cu u pn pu)) @
       psContainers (podSpec (run_pod b a z (runC genv rmd img) rmd cu u pn pu)))"
    and "m \<in> set (cVolumeMounts c)"
  shows "vmName m \<in> volName ` set (psVolumes (podSpec (run_pod b a z (runC genv rmd img) rmd cu u pn pu)))"
proof -
  have "vmName m \<in> {''chaincode'', ''certs''}" if "c = runC genv rmd img"
    using assms(2) that run_mount_names [of genv rmd img] by auto
  then show ?thesis using assms
    by (auto simp: run_pod_def download_output_container_def empty_container_def)
qed

lemma run_pod_container_names:
  "distinct (map cName (psInitContainers (podSpec (run_pod b a z (runC genv rmd img) rmd cu u pn pu)) @
     psContainers (podSpec (run_pod b a z (runC genv rmd img) rmd cu u pn pu))))"
  using run_name [of genv rmd img]
  by (auto simp: run_pod_def download_output_container_def empty_container_def)

end

interpretation golang: chaincode_platform golangBuildContainer golangRunContainer
  by unfold_locales (simp_all add: container_defs)

interpretation java: chaincode_platform "\<lambda>_. javaBuildContainer" javaRunContainer
  by unfold_locales (simp_all add: container_defs)

interpretation node: chaincode_platform "\<lambda>_. nodeBuildContainer" nodeRunContainer
  by unfold_locales (simp_all add: container_defs)

interpretation executable: chaincode_platform "\<lambda>_. executableBuildContainer" executableRunContainer
  by unfold_locales (simp_all add: container_defs)

end
