(* ===== verification/Json.thy ===== *)
theory Json
  imports Prelude "HOL-Library.AList"
begin

text \<open>
  The part of package \<^verbatim>\<open>encoding/json\<close> the program uses: parsing a document, decoding it into a
  struct of string fields or into a \<^verbatim>\<open>map[string]interface{}\<close>, and encoding such a map. Numbers
  are kept as written; \<open>fl\<close>, the only parameter, is the text \<^verbatim>\<open>encoding/json\<close> prints for the
  \<^verbatim>\<open>float64\<close> nearest to a number, or \<^const>\<open>None\<close> when that is out of range. The texts of syntax
  errors are not modelled.
\<close>

datatype json =
    JNull
  | JBool bool
  | JNum string
  | JStr string
  | JArr "json list"
  | JObj "(string \<times> json) list"

section \<open>Parsing\<close>

definition byte :: "char \<Rightarrow> nat" where
  "byte c = of_char c"

definition is_ws :: "char \<Rightarrow> bool" where
  "is_ws c \<longleftrightarrow> byte c \<in> {32, 9, 10, 13}"

definition skip_ws :: "string \<Rightarrow> string" where
  "skip_ws s = dropWhile is_ws s"

definition is_digit :: "char \<Rightarrow> bool" where
  "is_digit c \<longleftrightarrow> 48 \<le> byte c \<and> byte c \<le> 57"

definition hex_digit :: "char \<Rightarrow> nat option" where
  "hex_digit c = (let b = byte c in
     if 48 \<le> b \<and> b \<le> 57 then Some (b - 48)
     else if 65 \<le> b \<and> b \<le> 70 then Some (b - 55)
     else if 97 \<le> b \<and> b \<le> 102 then Some (b - 87) else None)"

fun hex4 :: "string \<Rightarrow> (nat \<times> string) option" where
  "hex4 (a # b # c # d # r) =
     (case (hex_digit a, hex_digit b, hex_digit c, hex_digit d) of
        (Some w, Some x, Some y, Some z) \<Rightarrow> Some (((w * 16 + x) * 16 + y) * 16 + z, r)
      | _ \<Rightarrow> None)"
| "hex4 _ = None"

text \<open>UTF-8: encoding a rune, and replacing every invalid byte by U+FFFD as the decoder does.\<close>

definition utf8 :: "nat \<Rightarrow> string" where
  "utf8 r = (if r < 0x80 then [char_of r]
     else if r < 0x800 then [char_of (0xC0 + r div 64), char_of (0x80 + r mod 64)]
     else if r < 0x10000 then
       [char_of (0xE0 + r div 4096), char_of (0x80 + r div 64 mod 64), char_of (0x80 + r mod 64)]
     else [char_of (0xF0 + r div 262144), char_of (0x80 + r div 4096 mod 64),
           char_of (0x80 + r div 64 mod 64), char_of (0x80 + r mod 64)])"

definition rune_error :: string where
  "rune_error = [char_of (0xEF :: nat), char_of (0xBF :: nat), char_of (0xBD :: nat)]"

text \<open>The length of the valid encoding at the front, 0 for none.\<close>

fun rune_len :: "string \<Rightarrow> nat" where
  "rune_len [] = 0"
| "rune_len (c # r) = (let b = byte c; bs = map byte r; cont = (\<lambda>x. 0x80 \<le> x \<and> x \<le> 0xBF) in
     if b < 0x80 then 1
     else if 0xC2 \<le> b \<and> b \<le> 0xDF then
       (case bs of x # _ \<Rightarrow> (if cont x then 2 else 0) | _ \<Rightarrow> 0)
     else if 0xE0 \<le> b \<and> b \<le> 0xEF then
       (case bs of x # y # _ \<Rightarrow>
          (if (if b = 0xE0 then 0xA0 else 0x80) \<le> x \<and> x \<le> (if b = 0xED then 0x9F else 0xBF) \<and> cont y
           then 3 else 0) | _ \<Rightarrow> 0)
     else if 0xF0 \<le> b \<and> b \<le> 0xF4 then
       (case bs of x # y # z # _ \<Rightarrow>
          (if (if b = 0xF0 then 0x90 else 0x80) \<le> x \<and> x \<le> (if b = 0xF4 then 0x8F else 0xBF) \<and>
              cont y \<and> cont z then 4 else 0) | _ \<Rightarrow> 0)
     else 0)"

text \<open>
  The characters of a string literal after the opening quote, up to and with the closing quote. A
  surrogate escape that is not half of a pair becomes U+FFFD.
\<close>

fun simple_escape :: "char \<Rightarrow> char option" where
  "simple_escape c =
     (if byte c \<in> {34, 47, 92} then Some c
      else if c = CHR ''b'' then Some (char_of (8 :: nat))
      else if c = CHR ''f'' then Some (char_of (12 :: nat))
      else if c = CHR ''n'' then Some (char_of (10 :: nat))
      else if c = CHR ''r'' then Some (char_of (13 :: nat))
      else if c = CHR ''t'' then Some (char_of (9 :: nat))
      else None)"

fun unicode_escape :: "string \<Rightarrow> (string \<times> string) option" where
  "unicode_escape r = (case hex4 r of
      None \<Rightarrow> None
    | Some (u, r') \<Rightarrow>
        (if u < 0xD800 \<or> 0xDFFF < u then Some (utf8 u, r')
         else case r' of
           a # b # r'' \<Rightarrow>
             (if byte a = 92 \<and> b = CHR ''u'' \<and> u < 0xDC00 then
                (case hex4 r'' of
                   Some (v, r3) \<Rightarrow>
                     (if 0xDC00 \<le> v \<and> v \<le> 0xDFFF
                      then Some (utf8 (0x10000 + (u - 0xD800) * 1024 + (v - 0xDC00)), r3)
                      else Some (rune_error, r'))
                 | None \<Rightarrow> Some (rune_error, r'))
              else Some (rune_error, r'))
         | _ \<Rightarrow> Some (rune_error, r')))"

fun parse_chars :: "nat \<Rightarrow> string \<Rightarrow> (string \<times> string) option" where
  "parse_chars 0 s = None"
| "parse_chars (Suc n) [] = None"
| "parse_chars (Suc n) (c # r) =
     (if byte c = 34 then Some ([], r)
      else if byte c < 32 then None
      else if byte c = 92 then
        (case r of
           [] \<Rightarrow> None
         | e # r' \<Rightarrow>
             (if e = CHR ''u'' then
                (case unicode_escape r' of
                   None \<Rightarrow> None
                 | Some (w, r2) \<Rightarrow> map_option (\<lambda>(t, r3). (w @ t, r3)) (parse_chars n r2))
              else case simple_escape e of
                None \<Rightarrow> None
              | Some x \<Rightarrow> map_option (\<lambda>(t, r3). (x # t, r3)) (parse_chars n r')))
      else (let l = rune_len (c # r) in
        if l = 0 then map_option (\<lambda>(t, r3). (rune_error @ t, r3)) (parse_chars n r)
        else map_option (\<lambda>(t, r3). (take l (c # r) @ t, r3)) (parse_chars n (drop l (c # r)))))"

text \<open>A number: optional sign, integer part without leading zeros, fraction, exponent.\<close>

definition span :: "(char \<Rightarrow> bool) \<Rightarrow> string \<Rightarrow> string \<times> string" where
  "span P s = (takeWhile P s, dropWhile P s)"

definition parse_number :: "string \<Rightarrow> (string \<times> string) option" where
  "parse_number s =
     (let (sign, s1) = (case s of c # r \<Rightarrow> (if c = CHR ''-'' then ([c], r) else ([], s)) | [] \<Rightarrow> ([], s));
          (int_part, s2) = (case s1 of c # r \<Rightarrow> (if c = CHR ''0'' then ([c], r) else span is_digit s1) | [] \<Rightarrow> ([], s1));
          (frac, s3) = (case s2 of c # r \<Rightarrow>
             (if c = CHR ''.'' then (let (ds, r') = span is_digit r in (c # ds, r')) else ([], s2)) | [] \<Rightarrow> ([], s2));
          (ex, s4) = (case s3 of c # r \<Rightarrow>
             (if c = CHR ''e'' \<or> c = CHR ''E'' then
                (let (sg, r1) = (case r of d # r' \<Rightarrow> (if d = CHR ''+'' \<or> d = CHR ''-'' then ([d], r') else ([], r)) | [] \<Rightarrow> ([], r));
                     (ds, r2) = span is_digit r1
                 in (if ds = [] then ''!'' else c # sg @ ds, r2))
              else ([], s3)) | [] \<Rightarrow> ([], s3))
      in if int_part = [] \<or> length frac = 1 \<or> ex = ''!'' then None
         else Some (sign @ int_part @ frac @ ex, s4))"

fun parse_value :: "nat \<Rightarrow> string \<Rightarrow> (json \<times> string) option"
  and parse_elems :: "nat \<Rightarrow> string \<Rightarrow> (json list \<times> string) option"
  and parse_members :: "nat \<Rightarrow> string \<Rightarrow> ((string \<times> json) list \<times> string) option" where
  "parse_value 0 s = None"
| "parse_value (Suc n) s =
     (case skip_ws s of
        [] \<Rightarrow> None
      | c # r \<Rightarrow>
          (if byte c = 34 then map_option (\<lambda>(t, r'). (JStr t, r')) (parse_chars (Suc (length r)) r)
           else if c = CHR ''{'' then
             (case skip_ws r of
                d # r' \<Rightarrow> (if d = CHR ''}'' then Some (JObj [], r')
                  else map_option (\<lambda>(ms, r2). (JObj ms, r2)) (parse_members n r))
              | [] \<Rightarrow> None)
           else if c = CHR ''['' then
             (case skip_ws r of
                d # r' \<Rightarrow> (if d = CHR '']'' then Some (JArr [], r')
                  else map_option (\<lambda>(vs, r2). (JArr vs, r2)) (parse_elems n r))
              | [] \<Rightarrow> None)
           else if has_prefix (c # r) ''true'' then Some (JBool True, drop 4 (c # r))
           else if has_prefix (c # r) ''false'' then Some (JBool False, drop 5 (c # r))
           else if has_prefix (c # r) ''null'' then Some (JNull, drop 4 (c # r))
           else map_option (\<lambda>(t, r'). (JNum t, r')) (parse_number (c # r))))"
| "parse_elems 0 s = None"
| "parse_elems (Suc n) s =
     (case parse_value n s of
        None \<Rightarrow> None
      | Some (v, r) \<Rightarrow>
          (case skip_ws r of
             c # r' \<Rightarrow>
               (if c = CHR '']'' then Some ([v], r')
                else if c = CHR '','' then map_option (\<lambda>(vs, r2). (v # vs, r2)) (parse_elems n r')
                else None)
           | [] \<Rightarrow> None))"
| "parse_members 0 s = None"
| "parse_members (Suc n) s =
     (case skip_ws s of
        [] \<Rightarrow> None
      | q # r0 \<Rightarrow>
          (if byte q \<noteq> 34 then None
           else case parse_chars (Suc (length r0)) r0 of
             None \<Rightarrow> None
           | Some (k, r) \<Rightarrow>
               (case skip_ws r of
                  [] \<Rightarrow> None
                | col # r1 \<Rightarrow>
                    (if col \<noteq> CHR '':'' then None
                     else case parse_value n r1 of
                       None \<Rightarrow> None
                     | Some (v, r2) \<Rightarrow>
                         (case skip_ws r2 of
                            c # r3 \<Rightarrow>
                              (if c = CHR ''}'' then Some ([(k, v)], r3)
                               else if c = CHR '','' then
                                 map_option (\<lambda>(ms, r4). ((k, v) # ms, r4)) (parse_members n r3)
                               else None)
                          | [] \<Rightarrow> None)))))"

text \<open>A whole document: one value and white space. Every call consumes a byte, so the length is fuel.\<close>

definition json_parse :: "string \<Rightarrow> json option" where
  "json_parse s = (case parse_value (2 * length s + 2) s of
      Some (v, r) \<Rightarrow> (if skip_ws r = [] then Some v else None)
    | None \<Rightarrow> None)"

definition syntax_error :: gerror where
  "syntax_error = ErrMsg ''json: syntax error''"

section \<open>Decoding into string fields\<close>

text \<open>Field names match without regard to case; U+017F and U+212A fold to \<^verbatim>\<open>s\<close> and \<^verbatim>\<open>k\<close>.\<close>

fun fold_name :: "string \<Rightarrow> string" where
  "fold_name (a # b # c # r) =
     (if byte a = 0xE2 \<and> byte b = 0x84 \<and> byte c = 0xAA then CHR ''k'' # fold_name r
      else if byte a = 0xC5 \<and> byte b = 0xBF then CHR ''s'' # fold_name (c # r)
      else to_lower_char a # fold_name (b # c # r))"
| "fold_name [a, b] = (if byte a = 0xC5 \<and> byte b = 0xBF then ''s'' else [to_lower_char a, to_lower_char b])"
| "fold_name s = map to_lower_char s"

text \<open>
  The value of a string field after decoding the members in order: \<^verbatim>\<open>null\<close> leaves it alone, a value
  of another type is an error.
\<close>

fun decode_field :: "string \<Rightarrow> string \<Rightarrow> (string \<times> json) list \<Rightarrow> string option" where
  "decode_field f cur [] = Some cur"
| "decode_field f cur ((k, v) # ms) =
     (if fold_name k = f then
        (case v of JStr t \<Rightarrow> decode_field f t ms | JNull \<Rightarrow> decode_field f cur ms | _ \<Rightarrow> None)
      else decode_field f cur ms)"

definition type_error :: gerror where
  "type_error = ErrMsg ''json: cannot unmarshal value into Go struct field of type string''"

definition unmarshal_fields :: "string list \<Rightarrow> string \<Rightarrow> string list outcome" where
  "unmarshal_fields fs s = (case json_parse s of
      None \<Rightarrow> Err syntax_error
    | Some JNull \<Rightarrow> Ok (map (\<lambda>_. []) fs)
    | Some (JObj ms) \<Rightarrow>
        (let vs = map (\<lambda>f. decode_field f [] ms) fs in
         if None \<in> set vs then Err type_error else Ok (map the vs))
    | Some _ \<Rightarrow> Err type_error)"

section \<open>Maps\<close>

text \<open>Decoding into a map: of members with the same key the last one counts.\<close>

fun valid_numbers :: "(string \<Rightarrow> string option) \<Rightarrow> json \<Rightarrow> bool" where
  "valid_numbers fl (JNum n) = (fl n \<noteq> None)"
| "valid_numbers fl (JArr vs) = list_all (valid_numbers fl) vs"
| "valid_numbers fl (JObj ms) = list_all (\<lambda>(_, v). valid_numbers fl v) ms"
| "valid_numbers fl _ = True"

definition last_wins :: "(string \<times> 'a) list \<Rightarrow> (string \<times> 'a) list" where
  "last_wins ms = fold (\<lambda>(k, v) m. AList.update k v m) ms []"

definition unmarshal_map :: "(string \<Rightarrow> string option) \<Rightarrow> string \<Rightarrow> (string \<times> json) list outcome" where
  "unmarshal_map fl s = (case json_parse s of
      None \<Rightarrow> Err syntax_error
    | Some JNull \<Rightarrow> Ok []
    | Some (JObj ms) \<Rightarrow>
        (if valid_numbers fl (JObj ms) then Ok (last_wins ms) else Err type_error)
    | Some _ \<Rightarrow> Err type_error)"

text \<open>The type assertion \<^verbatim>\<open>m[k].(string)\<close>.\<close>

definition get_string :: "(string \<times> json) list \<Rightarrow> string \<Rightarrow> string option" where
  "get_string m k = (case map_of m k of Some (JStr t) \<Rightarrow> Some t | _ \<Rightarrow> None)"

section \<open>Encoding\<close>

definition backslash :: char where "backslash = char_of (92 :: nat)"
definition dquote :: char where "dquote = char_of (34 :: nat)"

definition hex_char :: "nat \<Rightarrow> char" where
  "hex_char d = char_of (if d < 10 then 48 + d else 87 + d)"

text \<open>One ASCII byte of a string literal; \<^verbatim>\<open><\<close>, \<^verbatim>\<open>>\<close> and \<^verbatim>\<open>&\<close> are escaped for HTML.\<close>

definition enc_ascii :: "char \<Rightarrow> string" where
  "enc_ascii c =
     (if byte c \<in> {34, 92} then [backslash, c]
      else if byte c = 8 then [backslash, CHR ''b'']
      else if byte c = 12 then [backslash, CHR ''f'']
      else if byte c = 10 then [backslash, CHR ''n'']
      else if byte c = 13 then [backslash, CHR ''r'']
      else if byte c = 9 then [backslash, CHR ''t'']
      else if byte c < 32 \<or> byte c \<in> {60, 62, 38}
        then [backslash] @ ''u00'' @ [hex_char (byte c div 16), hex_char (byte c mod 16)]
      else [c])"

fun enc_chars :: "string \<Rightarrow> string" where
  "enc_chars [] = []"
| "enc_chars (c # r) =
     (if byte c < 0x80 then enc_ascii c @ enc_chars r
      else (let l = rune_len (c # r); w = take l (c # r) in
        if l = 0 then [backslash] @ ''ufffd'' @ enc_chars r
        else (if w = utf8 0x2028 then [backslash] @ ''u2028''
              else if w = utf8 0x2029 then [backslash] @ ''u2029'' else w) @
             enc_chars (drop (l - 1) r)))"

definition enc_string :: "string \<Rightarrow> string" where
  "enc_string t = [dquote] @ enc_chars t @ [dquote]"

fun json_encode :: "(string \<Rightarrow> string option) \<Rightarrow> json \<Rightarrow> string" where
  "json_encode fl JNull = ''null''"
| "json_encode fl (JBool b) = (if b then ''true'' else ''false'')"
| "json_encode fl (JNum n) = (case fl n of Some t \<Rightarrow> t | None \<Rightarrow> [])"
| "json_encode fl (JStr t) = enc_string t"
| "json_encode fl (JArr vs) = ''['' @ join_with '','' (map (json_encode fl) vs) @ '']''"
| "json_encode fl (JObj ms) = ''{'' @ join_with '',''
     (map (\<lambda>(k, t). enc_string k @ '':'' @ t)
       (sort_key fst (last_wins (map (\<lambda>(k, v). (k, json_encode fl v)) ms)))) @ ''}''"

text \<open>\<^verbatim>\<open>json.Marshal\<close> of a map; a map decoded by \<^const>\<open>unmarshal_map\<close> always encodes.\<close>

definition marshal_map :: "(string \<Rightarrow> string option) \<Rightarrow> (string \<times> json) list \<Rightarrow> string" where
  "marshal_map fl m = json_encode fl (JObj m)"

lemmas json_defs [go_defs] = byte_def is_ws_def skip_ws_def is_digit_def hex_digit_def utf8_def
  rune_error_def span_def parse_number_def json_parse_def unmarshal_fields_def unmarshal_map_def
  last_wins_def get_string_def backslash_def dquote_def hex_char_def enc_ascii_def enc_string_def
  marshal_map_def

end
