(* ===== verification/JsonFile.thy ===== *)
theory JsonFile
  imports OsModel Json
begin

text \<open>
  Decoding the contents of a file into the string fields of a struct, as the server does with the
  chaincode and run metadata and the client commands with \<^verbatim>\<open>metadata.json\<close>.
\<close>

definition unmarshal_content :: "string list \<Rightarrow> content \<Rightarrow> string list outcome" where
  "unmarshal_content fs c = (case c of Raw s \<Rightarrow> unmarshal_fields fs s | Archive _ _ \<Rightarrow> Err syntax_error)"

definition lift_outcome :: "'a outcome \<Rightarrow> 'a sys" where
  "lift_outcome r = (\<lambda>s. (r, s))"

lemma lift_outcome_simp [simp]: "lift_outcome r s = (r, s)"
  by (simp add: lift_outcome_def)

lemmas json_file_defs [go_defs] = unmarshal_content_def lift_outcome_def

end
