(* ===== verification/ServerSecrets.thy ===== *)
theory ServerSecrets
  imports PodDefs JsonFile
begin

text \<open>
  The helpers of \<^verbatim>\<open>server.go\<close> around the handlers: the check for parent path elements, reading the
  chaincode and run metadata from the shared directory, and the life of the secret that carries a
  run's TLS material.
\<close>

section \<open>Metadata\<close>

definition containsDotDot :: "string \<Rightarrow> bool" where
  "containsDotDot s =
     (if \<not> contains_str ''..'' s then False
      else list_ex (\<lambda>segment. segment = ''..'') (filter (\<lambda>f. f \<noteq> []) (slash_split s)))"

text \<open>The loop over the archive entries up to \<^verbatim>\<open>metadata.json\<close>.\<close>

fun find_metadata :: "(tar_header \<times> content) list \<Rightarrow> gerror option \<Rightarrow> content outcome" where
  "find_metadata [] None = Err (ErrMsg ''metadata.json not found'')"
| "find_metadata [] (Some e) = Err e"
| "find_metadata ((hdr, c) # es) end = (if hName hdr = ''metadata.json'' then Ok c else find_metadata es end)"

definition extractChaincodeMetadata :: "Server \<Rightarrow> string \<Rightarrow> chaincodeMetadata sys" where
  "extractChaincodeMetadata b metadataPath =
     (if containsDotDot metadataPath
      then throw (ErrMsg (''invalid metadata path: '' @ metadataPath))
      else (let path = path_Join [SharedPath b, metadataPath] in
        seq (os_Open (path_Clean path)) (\<lambda>archive.
        seq (read_handle (path_Clean path) archive) (\<lambda>c.
        seq (lift_outcome (find_metadata (fst (tar_entries c)) (snd (tar_entries c)))) (\<lambda>contents.
        seq (lift_outcome (unmarshal_content [''path'', ''type''] contents)) (\<lambda>vs.
        ret \<lparr>mdPath = vs ! 0, mdType = vs ! 1\<rparr>))))))"

definition readRunMetadata :: "Server \<Rightarrow> string \<Rightarrow> runMetadata sys" where
  "readRunMetadata b metadataPath =
     (if containsDotDot metadataPath
      then throw (ErrMsg (''invalid metadata path: '' @ metadataPath))
      else (let path = path_Join [SharedPath b, metadataPath] in
        seq (ioutil_ReadFile (path_Clean path)) (\<lambda>contents.
        seq (lift_outcome (unmarshal_content
               [''chaincode_id'', ''client_cert'', ''client_key'', ''root_cert'', ''peer_address''] contents)) (\<lambda>vs.
        ret \<lparr>ChaincodeID = vs ! 0, ClientCert = vs ! 1, ClientKey = vs ! 2, RootCert = vs ! 3,
             PeerAddress = vs ! 4\<rparr>))))"

section \<open>The crypto secret\<close>

definition toSecretData :: "runMetadata \<Rightarrow> (string \<times> string) list" where
  "toSecretData r =
     [(''peer.crt'', RootCert r),
      (''client_pem.crt'', ClientCert r),
      (''client_pem.key'', ClientKey r),
      (''client.crt'', EncodeToString (ClientCert r)),
      (''client.key'', EncodeToString (ClientKey r))]"

definition secret_name :: "string \<Rightarrow> string" where
  "secret_name uuid = ''certs-'' @ uuid"

definition crypto_secret :: "runMetadata \<Rightarrow> string \<Rightarrow> Secret" where
  "crypto_secret m uuid =
     \<lparr>secMeta = \<lparr>omName = secret_name uuid, omUID = [], omLabels = [], omOwnerReferences = []\<rparr>,
      secStringData = toSecretData m\<rparr>"

definition createCryptoSecret :: "'k kube \<Rightarrow> runMetadata \<Rightarrow> string \<Rightarrow> 'k world \<Rightarrow> nilerr \<times> 'k world" where
  "createCryptoSecret kc m uuid w =
     (case api (secretCreate kc (crypto_secret m uuid)) (CSecretCreate (crypto_secret m uuid)) w of
        (Inl e, w') \<Rightarrow> (Some e, w')
      | (Inr _, w') \<Rightarrow> (None, w'))"

definition deleteCryptoSecret :: "'k kube \<Rightarrow> string \<Rightarrow> 'k world \<Rightarrow> nilerr \<times> 'k world" where
  "deleteCryptoSecret kc uuid w =
     (case api (secretGet kc (secret_name uuid)) (CSecretGet (secret_name uuid)) w of
        (Inl _, w') \<Rightarrow> (None, w')
      | (Inr secret, w') \<Rightarrow>
          (if omOwnerReferences (secMeta secret) \<noteq> [] then (None, w')
           else (case api (secretDelete kc (secret_name uuid)) (CSecretDelete (secret_name uuid))
                   (log_msg (''crypto secret does not have owner references, deleting secret'' @ [CHR 0x0A]) w') of
                   (Inl e, w'') \<Rightarrow> (Some e, w'')
                 | (Inr _, w'') \<Rightarrow> (None, w''))))"

definition owner_ref :: "Pod \<Rightarrow> OwnerReference" where
  "owner_ref owner = \<lparr>orAPIVersion = ''v1'', orKind = ''Pod'', orName = omName (podMeta owner),
     orUID = omUID (podMeta owner), orBlockOwnerDeletion = True, orController = True\<rparr>"

definition owned_secret :: "Pod \<Rightarrow> Secret \<Rightarrow> Secret" where
  "owned_secret owner secret =
     secret\<lparr>secMeta := (secMeta secret)\<lparr>omOwnerReferences := [owner_ref owner]\<rparr>\<rparr>"

definition addControllerReferenceToCryptoSecret :: "'k kube \<Rightarrow> Pod \<Rightarrow> string \<Rightarrow> 'k world \<Rightarrow> nilerr \<times> 'k world" where
  "addControllerReferenceToCryptoSecret kc owner uuid w =
     (case api (secretGet kc (secret_name uuid)) (CSecretGet (secret_name uuid)) w of
        (Inl e, w') \<Rightarrow>
          (Some (ErrMsg (''failed to get '' @ secret_name uuid @ '' secret: '' @ error_text e)), w')
      | (Inr secret, w') \<Rightarrow>
          (case api (secretUpdate kc (owned_secret owner secret)) (CSecretUpdate (owned_secret owner secret)) w' of
             (Inl e, w'') \<Rightarrow> (Some e, w'')
           | (Inr _, w'') \<Rightarrow> (None, w'')))"

text \<open>
  Package \<^verbatim>\<open>util\<close> wraps one function of controller-runtime, which the program itself does not call: it
  makes \<open>owner\<close> the controller of \<open>secret\<close>, or fails.
\<close>

definition ControllerClient_SetControllerReference :: "('o \<Rightarrow> 's \<Rightarrow> 'scheme \<Rightarrow> nilerr \<times> 's) \<Rightarrow> 'o \<Rightarrow> 's \<Rightarrow> 'scheme \<Rightarrow> nilerr \<times> 's" where
  "ControllerClient_SetControllerReference controllerutil owner secret scheme = controllerutil owner secret scheme"

lemmas secret_defs [go_defs] = containsDotDot_def extractChaincodeMetadata_def readRunMetadata_def toSecretData_def secret_name_def
  crypto_secret_def createCryptoSecret_def deleteCryptoSecret_def owner_ref_def owned_secret_def
  addControllerReferenceToCryptoSecret_def EncodeToString_def

section \<open>Lemmas\<close>

lemma containsDotDot_iff: "containsDotDot s \<longleftrightarrow> ''..'' \<in> set (slash_split s)"
proof -
  have "''..'' \<in> set (slash_split s) \<Longrightarrow> contains_str ''..'' s" by (rule contains_str_split)
  then show ?thesis by (auto simp: containsDotDot_def list_ex_iff)
qed

end
