(* ===== verification/ExecutePod.thy ===== *)
theory ExecutePod
  imports ServerSecrets
begin

text \<open>
  \<^verbatim>\<open>executePod\<close> of \<^verbatim>\<open>server.go\<close> with the goroutines it starts. The loop over the watch channel and
  the goroutines that copy container logs to the caller run concurrently; an execution is the list
  of the steps taken, in the order they happened (a schedule): an event arriving on the channel, the
  context ending, a goroutine sending its next message, or \<^verbatim>\<open>wg.Wait\<close> returning. A schedule that
  takes a step that is not possible, or that stops before the function returns, is no execution.
  The body of one loop iteration is one step, and messages of goroutines that are still running when
  the function returns early are not followed further.
\<close>

section \<open>Log streams\<close>

definition newline :: char where "newline = CHR 0x0A"

definition drop_cr :: "string \<Rightarrow> string" where
  "drop_cr l = (if l \<noteq> [] \<and> last l = CHR 0x0D then butlast l else l)"

definition max_token :: int where "max_token = 65536"

text \<open>
  \<^verbatim>\<open>bufio.Scanner\<close> splitting lines: a last line without newline counts, a carriage return before
  the newline is dropped, and the scan stops at a line that fills the whole buffer. The second
  component tells whether it stopped there.
\<close>

function scan_lines :: "string \<Rightarrow> string list \<times> bool" where
  "scan_lines s =
     (let l = takeWhile (\<lambda>c. c \<noteq> newline) s in
      if s = [] then ([], False)
      else if max_token \<le> int (length l) then ([], True)
      else if length l = length s then ([drop_cr l], False)
      else (let (ls, t) = scan_lines (drop (Suc (length l)) s) in (drop_cr l # ls, t)))"
  by pat_completeness auto
termination
  by (relation "measure length") auto

declare scan_lines.simps [simp del]

text \<open>\<^verbatim>\<open>streamLogs\<close>: the messages it logs for a stream with the given bytes and final error.\<close>

definition streamLogs :: "string \<Rightarrow> string \<times> gerror option \<Rightarrow> string list" where
  "streamLogs name stream =
     (let (ls, too_long) = scan_lines (fst stream);
          failed = (\<lambda>t. [name @ '': scanning log lines failed: '' @ t @ [newline]]) in
      map (\<lambda>l. name @ '': '' @ l @ [newline]) ls @
      (if too_long then failed ''bufio.Scanner: token too long''
       else case snd stream of None \<Rightarrow> [] | Some e \<Rightarrow> failed (error_text e)))"

definition containerStatuses :: "Pod \<Rightarrow> ContainerStatus list" where
  "containerStatuses pod = stInitContainerStatuses (podStatus pod) @ stContainerStatuses (podStatus pod)"

section \<open>States and steps\<close>

datatype Stage = BUILD | RUN

datatype pc = Looping | Waiting PodPhase | Returned "unit result"

text \<open>
  The state of a running \<^verbatim>\<open>executePod\<close>: the world, where the function is, and the log streams
  opened so far in order, each with all its messages and those not yet sent.
\<close>

record 'k exec =
  xworld :: "'k world"
  xpc :: pc
  xstreams :: "(string \<times> string list \<times> string list) list"

datatype step = Watch "Event option" | CtxDone string | LogStep string | WaitDone

definition upd_world :: "('k world \<Rightarrow> 'k world) \<Rightarrow> 'k exec \<Rightarrow> 'k exec" where
  "upd_world f x = x\<lparr>xworld := f (xworld x)\<rparr>"

definition deletePod :: "'k kube \<Rightarrow> string \<Rightarrow> 'k world \<Rightarrow> 'k world" where
  "deletePod kc podName w = (case api (podDelete kc podName) (CPodDelete podName) w of
      (Inl e, w') \<Rightarrow> log_msg (''pod delete: '' @ error_text e @ [newline]) w'
    | (Inr _, w') \<Rightarrow> w')"

definition close_stream :: "'k kube \<Rightarrow> string \<Rightarrow> 'k world \<Rightarrow> 'k world" where
  "close_stream kc name w = (case api (logClose kc name) (CLogClose name) w of
      (Inl e, w') \<Rightarrow> log_msg (''Error closing stream: '' @ error_text e @ [newline]) w'
    | (Inr _, w') \<Rightarrow> w')"

text \<open>
  The deferred calls of a return from the loop, last deferred first: close the log streams, delete
  the pod in the build stage, stop the watch.
\<close>

definition run_deferred :: "'k kube \<Rightarrow> Stage \<Rightarrow> string \<Rightarrow> string list \<Rightarrow> 'k world \<Rightarrow> 'k world" where
  "run_deferred kc stage podName names w =
     record_call CWatchStop
       ((if stage = BUILD then deletePod kc podName else id) (fold (close_stream kc) (rev names) w))"

definition finish :: "'k kube \<Rightarrow> Stage \<Rightarrow> string \<Rightarrow> unit result \<Rightarrow> 'k exec \<Rightarrow> 'k exec" where
  "finish kc stage podName r x =
     x\<lparr>xworld := run_deferred kc stage podName (map fst (xstreams x)) (xworld x), xpc := Returned r\<rparr>"

text \<open>One container status of an event: open its log unless it has not started or is already open.\<close>

definition open_log :: "'k kube \<Rightarrow> Pod \<Rightarrow> ContainerStatus \<Rightarrow> 'k exec \<Rightarrow> 'k exec" where
  "open_log kc pod status x =
     (if \<not> csRunning status \<and> csTerminated status = None then x
      else if csName status \<in> fst ` set (xstreams x) then x
      else case api (podLogs kc (pod_name pod) (csName status) (csRunning status))
                    (CPodLogs (pod_name pod) (csName status) (csRunning status)) (xworld x) of
        (Inl e, w') \<Rightarrow>
          x\<lparr>xworld := log_msg (pod_name pod @ '': get logs: '' @ error_text e @ [newline]) w'\<rparr>
      | (Inr stream, w') \<Rightarrow>
          (let ms = streamLogs (csName status) stream in
           x\<lparr>xworld := w', xstreams := xstreams x @ [(csName status, ms, ms)]\<rparr>))"

definition pod_event :: "'k kube \<Rightarrow> Pod \<Rightarrow> 'k exec \<Rightarrow> 'k exec" where
  "pod_event kc pod x =
     (let x' = fold (open_log kc pod) (containerStatuses pod) x;
          phase = stPhase (podStatus pod) in
      if phase = PodFailed \<or> phase = PodSucceeded then x'\<lparr>xpc := Waiting phase\<rparr> else x')"

text \<open>A goroutine sends its next message.\<close>

fun send_next :: "string \<Rightarrow> (string \<times> string list \<times> string list) list \<Rightarrow>
    (string \<times> (string \<times> string list \<times> string list) list) option" where
  "send_next n [] = None"
| "send_next n ((m, tot, rem) # ss) =
     (if m = n then (case rem of [] \<Rightarrow> None | x # xs \<Rightarrow> Some (x, (m, tot, xs) # ss))
      else map_option (\<lambda>(x, ss'). (x, (m, tot, rem) # ss')) (send_next n ss))"

definition log_step :: "string \<Rightarrow> 'k exec \<Rightarrow> 'k exec option" where
  "log_step n x = (case send_next n (xstreams x) of
      None \<Rightarrow> None
    | Some (m, ss) \<Rightarrow> Some (x\<lparr>xworld := log_msg m (xworld x), xstreams := ss\<rparr>))"

definition all_sent :: "'k exec \<Rightarrow> bool" where
  "all_sent x \<longleftrightarrow> list_all (\<lambda>(_, _, rem). rem = []) (xstreams x)"

fun watch_step :: "'k kube \<Rightarrow> Stage \<Rightarrow> string \<Rightarrow> Event option \<Rightarrow> 'k exec \<Rightarrow> 'k exec" where
  "watch_step kc stage podName None x =
     finish kc stage podName (Inl (ErrMsg ''execute pod: watch closed before pod termination'')) x"
| "watch_step kc stage podName (Some (ErrorEvent t)) x =
     finish kc stage podName (Inl (ErrMsg (''error event from watch: '' @ t))) x"
| "watch_step kc stage podName (Some (Added pod)) x = pod_event kc pod x"
| "watch_step kc stage podName (Some (Modified pod)) x = pod_event kc pod x"
| "watch_step kc stage podName (Some (Deleted pod)) x = x"
| "watch_step kc stage podName (Some Bookmark) x = x"

fun exec_step :: "'k kube \<Rightarrow> Stage \<Rightarrow> string \<Rightarrow> step \<Rightarrow> 'k exec \<Rightarrow> 'k exec option" where
  "exec_step kc stage podName (LogStep n) x =
     (case xpc x of Returned _ \<Rightarrow> None | _ \<Rightarrow> log_step n x)"
| "exec_step kc stage podName (Watch e) x =
     (if xpc x = Looping then Some (watch_step kc stage podName e x) else None)"
| "exec_step kc stage podName (CtxDone t) x =
     (if xpc x = Looping then Some (finish kc stage podName (Inl (ErrMsg (''execute pod: '' @ t))) x) else None)"
| "exec_step kc stage podName WaitDone x =
     (case xpc x of
        Waiting phase \<Rightarrow>
          (if all_sent x then
             Some (finish kc stage podName
               (if phase = PodFailed then Inl (ErrMsg ''pod terminated: pod status is failed'') else Inr ()) x)
           else None)
      | _ \<Rightarrow> None)"

fun exec_run :: "'k kube \<Rightarrow> Stage \<Rightarrow> string \<Rightarrow> step list \<Rightarrow> 'k exec \<Rightarrow> 'k exec option" where
  "exec_run kc stage podName [] x = Some x"
| "exec_run kc stage podName (l # ls) x =
     (case exec_step kc stage podName l x of None \<Rightarrow> None | Some x' \<Rightarrow> exec_run kc stage podName ls x')"

section \<open>executePod\<close>

text \<open>The field selector of the watch, \<^verbatim>\<open>OneTermEqualSelector\<close>: a field and the value it must have.\<close>

definition watch_selector :: "Pod \<Rightarrow> string \<times> string" where
  "watch_selector pod = (''metadata.name'', pod_name pod)"

text \<open>
  The part before the loop: set up the watch, create the pod, and in the run stage make the pod the
  owner of the crypto secret. The result is the error to return or the created pod.
\<close>

definition exec_setup :: "'k kube \<Rightarrow> Pod \<Rightarrow> Stage \<Rightarrow> string option \<Rightarrow> 'k world \<Rightarrow> Pod result \<times> 'k world" where
  "exec_setup kc pod stage opts w =
     (case api (podWatch kc (watch_selector pod)) (CPodWatch (watch_selector pod)) w of
        (Inl e, w1) \<Rightarrow> (Inl (ErrMsg (''pod watch: '' @ error_text e)), w1)
      | (Inr _, w1) \<Rightarrow>
          (case api (podCreate kc pod) (CPodCreate pod) w1 of
             (Inl e, w2) \<Rightarrow> (Inl (ErrMsg (''pod create: '' @ error_text e)), record_call CWatchStop w2)
           | (Inr created, w2) \<Rightarrow>
               (case (stage, opts) of
                  (RUN, Some uuid) \<Rightarrow>
                    (case addControllerReferenceToCryptoSecret kc created uuid w2 of
                       (Some e, w3) \<Rightarrow>
                         (Inl e, record_call CWatchStop (log_msg
                            (''failed to add controller reference to crypto secret: '' @ error_text e @ [newline]) w3))
                     | (None, w3) \<Rightarrow> (Inr created, w3))
                | _ \<Rightarrow> (Inr created, w2))))"

definition start_exec :: "'k world \<Rightarrow> 'k exec" where
  "start_exec w = \<lparr>xworld = w, xpc = Looping, xstreams = []\<rparr>"

definition executePod :: "'k kube \<Rightarrow> Pod \<Rightarrow> Stage \<Rightarrow> string option \<Rightarrow> step list \<Rightarrow> 'k world \<Rightarrow>
    (unit result \<times> 'k world) option" where
  "executePod kc pod stage opts sched w =
     (case exec_setup kc pod stage opts w of
        (Inl e, w') \<Rightarrow> (if sched = [] then Some (Inl e, w') else None)
      | (Inr created, w') \<Rightarrow>
          (case exec_run kc stage (pod_name created) sched (start_exec w') of
             None \<Rightarrow> None
           | Some x \<Rightarrow> (case xpc x of Returned r \<Rightarrow> Some (r, xworld x) | _ \<Rightarrow> None)))"

lemmas exec_defs [go_defs] = newline_def drop_cr_def streamLogs_def containerStatuses_def
  upd_world_def deletePod_def close_stream_def run_deferred_def finish_def open_log_def
  pod_event_def log_step_def all_sent_def watch_selector_def exec_setup_def start_exec_def
  executePod_def

end
