(* ===== verification/ExecutePodProofs.thy ===== *)
theory ExecutePodProofs
  imports ExecutePod "HOL-Library.Sublist"
begin

text \<open>
  What every execution of \<^verbatim>\<open>executePod\<close> does, whatever the interleaving: the states reachable
  from the start of its loop satisfy an invariant, proved by rule induction over the steps, which
  fixes the calls made to the cluster and ties the messages sent to the logs that were opened.
\<close>

section \<open>Reachable states\<close>

inductive reach :: "'k kube \<Rightarrow> Stage \<Rightarrow> string \<Rightarrow> 'k world \<Rightarrow> 'k exec \<Rightarrow> bool"
  for kc :: "'k kube" and stage :: Stage and podName :: string and w :: "'k world" where
  reach_start: "reach kc stage podName w (start_exec w)"
| reach_step: "reach kc stage podName w x \<Longrightarrow> exec_step kc stage podName l x = Some x' \<Longrightarrow>
    reach kc stage podName w x'"

lemma reach_run:
  "reach kc stage podName w x \<Longrightarrow> exec_run kc stage podName ls x = Some x' \<Longrightarrow> reach kc stage podName w x'"
  by (induction ls arbitrary: x) (auto intro: reach_step split: option.splits)

lemma exec_run_append:
  "exec_run kc stage podName (ls @ ls') x =
     (case exec_run kc stage podName ls x of None \<Rightarrow> None | Some x' \<Rightarrow> exec_run kc stage podName ls' x')"
  by (induction ls arbitrary: x) (auto split: option.splits)

section \<open>The invariant\<close>

text \<open>The container logs that a trace of calls opened: the container and all its messages.\<close>

fun opened :: "kcall list \<Rightarrow> (string \<times> string list) list" where
  "opened [] = []"
| "opened (CPodLogs p c f (Inr st) # cs) = (c, streamLogs c st) # opened cs"
| "opened (_ # cs) = opened cs"

fun is_log_call :: "kcall \<Rightarrow> bool" where
  "is_log_call (CPodLogs _ _ _ _) = True"
| "is_log_call _ = False"

text \<open>
  The messages sent are tagged with their origin: the container whose log goroutine sent them, or
  none for the messages of the loop itself, which report the calls that failed.
\<close>

type_synonym tagged = "(string option \<times> string) list"

definition of_log :: "string option \<Rightarrow> tagged \<Rightarrow> string list" where
  "of_log t ms = map snd (filter (\<lambda>m. fst m = t) ms)"

fun failure_report :: "kcall \<Rightarrow> string list" where
  "failure_report (CPodLogs p c f (Inl e)) = [p @ '': get logs: '' @ error_text e @ [CHR 0x0A]]"
| "failure_report (CLogClose c (Inl e)) = [''Error closing stream: '' @ error_text e @ [CHR 0x0A]]"
| "failure_report (CPodDelete p (Inl e)) = [''pod delete: '' @ error_text e @ [CHR 0x0A]]"
| "failure_report _ = []"

definition failure_reports :: "kcall list \<Rightarrow> string list" where
  "failure_reports cs = concat (map failure_report cs)"

definition delivered :: "tagged \<Rightarrow> string \<times> string list \<times> string list \<Rightarrow> bool" where
  "delivered ms st = (case st of (n, tot, rem) \<Rightarrow> tot = of_log (Some n) ms @ rem)"

definition from_logs :: "tagged \<Rightarrow> string set \<Rightarrow> bool" where
  "from_logs ms N \<longleftrightarrow> (\<forall>m \<in> set ms. \<forall>n. fst m = Some n \<longrightarrow> n \<in> N)"

definition exec_inv :: "'k world \<Rightarrow> 'k exec \<Rightarrow> bool" where
  "exec_inv w x \<longleftrightarrow>
     distinct (map fst (xstreams x)) \<and>
     (\<exists>new ms. calls (xworld x) = calls w @ new \<and> list_all is_log_call new \<and>
        opened new = map (\<lambda>(n, tot, _). (n, tot)) (xstreams x) \<and>
        sent (xworld x) = sent w @ map snd ms \<and> of_log None ms = failure_reports new \<and>
        from_logs ms (fst ` set (xstreams x)) \<and>
        list_all (delivered ms) (xstreams x))"

lemma opened_append [simp]: "opened (a @ b) = opened a @ opened b"
  by (induction a rule: opened.induct) auto

lemma of_log_simps [simp]:
  "of_log t [] = []" "of_log t (ms @ ms') = of_log t ms @ of_log t ms'"
  "of_log t ((u, m) # ms) = (if u = t then m # of_log t ms else of_log t ms)"
  by (simp_all add: of_log_def)

lemma of_log_none [simp]: "of_log None (map (Pair None) ms) = ms" "of_log (Some n) (map (Pair None) ms) = []"
  by (induction ms) simp_all

lemma from_logs_simps [simp]:
  "from_logs [] N" "from_logs (ms @ ms') N \<longleftrightarrow> from_logs ms N \<and> from_logs ms' N"
  "from_logs ((t, m) # ms) N \<longleftrightarrow> (\<forall>n. t = Some n \<longrightarrow> n \<in> N) \<and> from_logs ms N"
  "from_logs (map (Pair None) texts) N"
  by (auto simp: from_logs_def)

lemma from_logs_insert: "from_logs ms N \<Longrightarrow> from_logs ms (insert n N)"
  by (auto simp: from_logs_def)

lemma from_logs_fresh: "from_logs ms N \<Longrightarrow> n \<notin> N \<Longrightarrow> of_log (Some n) ms = []"
  by (auto simp: from_logs_def of_log_def filter_empty_conv)

lemma subseq_of_log: "subseq (of_log t ms) (map snd ms)"
  by (simp add: of_log_def subseq_map subseq_filter_left)

lemma of_log_set: "set (of_log t ms) \<subseteq> snd ` set ms"
  by (auto simp: of_log_def)

lemma failure_reports_simps [simp]:
  "failure_reports [] = []" "failure_reports (cs @ cs') = failure_reports cs @ failure_reports cs'"
  "failure_reports (c # cs) = failure_report c @ failure_reports cs"
  by (simp_all add: failure_reports_def)

lemma failure_reports_set: "c \<in> set cs \<Longrightarrow> set (failure_report c) \<subseteq> set (failure_reports cs)"
  by (auto simp: failure_reports_def)

lemma delivered_none [simp]: "delivered (ms @ [(None, m)]) = delivered ms"
  by (rule ext) (simp add: delivered_def)

lemma exec_inv_pc [simp]: "exec_inv w (x\<lparr>xpc := c\<rparr>) = exec_inv w x"
  by (simp add: exec_inv_def)

lemma exec_inv_start: "exec_inv w (start_exec w)"
  by (simp add: exec_inv_def start_exec_def)

lemma opened_call: "(c, ls) \<in> set (opened cs) \<Longrightarrow> \<exists>p f st. CPodLogs p c f (Inr st) \<in> set cs"
  by (induction cs rule: opened.induct) auto

lemma call_opened: "CPodLogs p c f (Inr st) \<in> set cs \<Longrightarrow> (c, streamLogs c st) \<in> set (opened cs)"
  by (induction cs rule: opened.induct) auto

lemma opened_closes [simp]: "opened (map2 CLogClose ns rs) = []"
  by (induction ns arbitrary: rs) (auto simp: zip_Cons1 split: list.split)

lemma opened_log_call: "opened [CPodLogs p c f r] =
    (case r of Inl _ \<Rightarrow> [] | Inr st \<Rightarrow> [(c, streamLogs c st)])"
  by (cases r) auto

lemma exec_inv_open_log:
  assumes "exec_inv w x"
  shows "exec_inv w (open_log kc pod status x)"
proof (cases "(\<not> csRunning status \<and> csTerminated status = None) \<or> csName status \<in> fst ` set (xstreams x)")
  case True
  then show ?thesis using assms by (auto simp: open_log_def)
next
  case False
  obtain new ms where inv: "distinct (map fst (xstreams x))" "calls (xworld x) = calls w @ new"
      "list_all is_log_call new" "opened new = map (\<lambda>(n, tot, _). (n, tot)) (xstreams x)"
      "sent (xworld x) = sent w @ map snd ms" "of_log None ms = failure_reports new"
      "from_logs ms (fst ` set (xstreams x))" "list_all (delivered ms) (xstreams x)"
    using assms by (auto simp: exec_inv_def)
  let ?call = "CPodLogs (pod_name pod) (csName status) (csRunning status)"
  obtain r w' where api: "api (podLogs kc (pod_name pod) (csName status) (csRunning status)) ?call (xworld x) = (r, w')"
    by fastforce
  then have w': "calls w' = calls w @ new @ [?call r]" "sent w' = sent w @ map snd ms"
    using inv api_frame [OF api] by auto
  show ?thesis
  proof (cases r)
    case (Inl e)
    then have "open_log kc pod status x = x\<lparr>xworld :=
        log_msg (pod_name pod @ '': get logs: '' @ error_text e @ [newline]) w'\<rparr>"
      using False api by (auto simp: open_log_def)
    then show ?thesis using inv w' Inl unfolding exec_inv_def
      by (intro conjI exI [of _ "new @ [?call r]"]
          exI [of _ "ms @ [(None, pod_name pod @ '': get logs: '' @ error_text e @ [CHR 0x0A])]"])
        (simp_all add: newline_def)
  next
    case (Inr st)
    then have "open_log kc pod status x = x\<lparr>xworld := w', xstreams := xstreams x @
        [(csName status, streamLogs (csName status) st, streamLogs (csName status) st)]\<rparr>"
      using False api by (auto simp: open_log_def Let_def)
    moreover have "of_log (Some (csName status)) ms = []"
      using inv(7) False by (blast intro: from_logs_fresh)
    moreover have "delivered ms (csName status, streamLogs (csName status) st, streamLogs (csName status) st)"
      using calculation(2) by (simp add: delivered_def)
    ultimately show ?thesis using inv w' Inr False unfolding exec_inv_def
      by (intro conjI exI [of _ "new @ [?call r]"] exI [of _ ms]) (simp_all add: from_logs_insert)
  qed
qed

lemma exec_inv_open_logs: "exec_inv w x \<Longrightarrow> exec_inv w (fold (open_log kc pod) cs x)"
  by (induction cs arbitrary: x) (auto intro: exec_inv_open_log)

lemma open_log_pc [simp]: "xpc (open_log kc pod st x) = xpc x"
  by (auto simp: open_log_def Let_def split: prod.splits sum.splits)

lemma open_logs_pc [simp]: "xpc (fold (open_log kc pod) cs x) = xpc x"
  by (induction cs arbitrary: x) auto

lemma exec_inv_pod_event: "exec_inv w x \<Longrightarrow> exec_inv w (pod_event kc pod x)"
  by (simp add: pod_event_def Let_def exec_inv_open_logs)

lemma send_next_streams:
  assumes "send_next n ss = Some (m, ss')"
  shows "map fst ss' = map fst ss" and "n \<in> fst ` set ss"
    and "map (\<lambda>(n, tot, _). (n, tot)) ss' = map (\<lambda>(n, tot, _). (n, tot)) ss"
  using assms
  by (induction n ss arbitrary: ss' rule: send_next.induct) (auto split: if_splits list.splits)

lemma delivered_other: "fst st \<noteq> n \<Longrightarrow> delivered (ms @ [(Some n, m)]) st = delivered ms st"
  by (auto simp: delivered_def split: prod.splits)

lemma send_next_delivered:
  assumes "send_next n ss = Some (m, ss')" and "distinct (map fst ss)" and "list_all (delivered ms) ss"
  shows "list_all (delivered (ms @ [(Some n, m)])) ss'"
  using assms
proof (induction n ss arbitrary: ss' rule: send_next.induct)
  case (2 n k tot rem ss)
  show ?case
  proof (cases "k = n")
    case True
    have "list_all (delivered (ms @ [(Some n, m)])) ss"
      using 2(3,4) True by (auto simp: list_all_iff delivered_other image_iff)
    then show ?thesis using 2(2,4) True by (cases rem) (auto simp: delivered_def [of _ "(_, _, _)"])
  next
    case False
    then show ?thesis using 2 by (auto simp: delivered_def)
  qed
qed simp

lemma exec_inv_log_step:
  assumes "exec_inv w x" and "log_step n x = Some x'"
  shows "exec_inv w x'"
proof -
  obtain new ms where inv: "distinct (map fst (xstreams x))" "calls (xworld x) = calls w @ new"
      "list_all is_log_call new" "opened new = map (\<lambda>(n, tot, _). (n, tot)) (xstreams x)"
      "sent (xworld x) = sent w @ map snd ms" "of_log None ms = failure_reports new"
      "from_logs ms (fst ` set (xstreams x))" "list_all (delivered ms) (xstreams x)"
    using assms(1) by (auto simp: exec_inv_def)
  obtain m ss where m: "send_next n (xstreams x) = Some (m, ss)"
    and x': "x' = x\<lparr>xworld := log_msg m (xworld x), xstreams := ss\<rparr>"
    using assms(2) by (auto simp: log_step_def split: option.splits)
  have names: "fst ` set ss = fst ` set (xstreams x)"
    using send_next_streams(1) [OF m] by (metis set_map)
  show ?thesis
    using inv send_next_streams [OF m] send_next_delivered [OF m inv(1,8)] names unfolding exec_inv_def x'
    by (intro conjI exI [of _ new] exI [of _ "ms @ [(Some n, m)]"]) simp_all
qed

lemma log_step_pc [simp]: "log_step n x = Some x' \<Longrightarrow> xpc x' = xpc x"
  by (auto simp: log_step_def split: option.splits)

section \<open>The lines of a log\<close>

text \<open>
  The bytes of a log from its lines: each is a text and whether a carriage return follows it, and
  ends with a newline; \<open>rest\<close> is what comes after the last newline. In a plain line the text holds no
  newline, and a carriage return at its end is not part of it but marked.
\<close>

type_synonym log_line = "string \<times> bool"

definition raw_line :: "log_line \<Rightarrow> string" where
  "raw_line l = fst l @ (if snd l then [CHR 0x0D] else [])"

definition plain_line :: "log_line \<Rightarrow> bool" where
  "plain_line l \<longleftrightarrow> CHR 0x0A \<notin> set (fst l) \<and> (snd l \<or> fst l = [] \<or> last (fst l) \<noteq> CHR 0x0D)"

definition log_bytes :: "log_line list \<Rightarrow> log_line \<Rightarrow> string" where
  "log_bytes ls rest = concat (map (\<lambda>l. raw_line l @ [CHR 0x0A]) ls) @ raw_line rest"

definition line_message :: "string \<Rightarrow> log_line \<Rightarrow> string" where
  "line_message c l = c @ '': '' @ fst l @ [CHR 0x0A]"

text \<open>The messages the lines of container \<open>c\<close> should give, \<open>err\<close> being the error the log's reader ends with.\<close>

definition expected_log :: "string \<Rightarrow> log_line list \<Rightarrow> log_line \<Rightarrow> gerror option \<Rightarrow> string list" where
  "expected_log c ls rest err =
     (let all = ls @ (if raw_line rest = [] then [] else [rest]);
          short = (\<lambda>l. length (raw_line l) < 65536);
          failed = (\<lambda>t. c @ '': scanning log lines failed: '' @ t @ [CHR 0x0A]) in
      if list_all short all
      then map (line_message c) all @ (case err of None \<Rightarrow> [] | Some e \<Rightarrow> [failed (error_text e)])
      else map (line_message c) (takeWhile short all) @ [failed ''bufio.Scanner: token too long''])"

lemma drop_cr_raw: "plain_line l \<Longrightarrow> drop_cr (raw_line l) = fst l"
  by (auto simp: plain_line_def drop_cr_def raw_line_def)

lemma raw_line_newline: "plain_line l \<Longrightarrow> newline \<notin> set (raw_line l)"
  by (auto simp: plain_line_def raw_line_def newline_def)

lemma takeWhile_line:
  assumes "newline \<notin> set l"
  shows "takeWhile (\<lambda>c. c \<noteq> newline) (l @ newline # s) = l" and "takeWhile (\<lambda>c. c \<noteq> newline) l = l"
proof -
  show l: "takeWhile (\<lambda>c. c \<noteq> newline) l = l" using assms by (auto simp: takeWhile_eq_all_conv)
  show "takeWhile (\<lambda>c. c \<noteq> newline) (l @ newline # s) = l" using assms by (simp add: takeWhile_tail l takeWhile_append2)
qed

lemma scan_lines_rest:
  assumes "plain_line l"
  shows "scan_lines (raw_line l) =
    (if raw_line l = [] then ([], False) else if 65536 \<le> length (raw_line l) then ([], True) else ([fst l], False))"
  by (simp add: scan_lines.simps [of "raw_line l"] max_token_def Let_def
      takeWhile_line [OF raw_line_newline [OF assms]] drop_cr_raw [OF assms])

lemma scan_lines_line:
  assumes "plain_line l"
  shows "scan_lines (raw_line l @ newline # s) =
    (if 65536 \<le> length (raw_line l) then ([], True) else (fst l # fst (scan_lines s), snd (scan_lines s)))"
  by (simp add: scan_lines.simps [of "raw_line l @ newline # s"] max_token_def Let_def
      takeWhile_line [OF raw_line_newline [OF assms]] drop_cr_raw [OF assms] split: prod.splits)

lemma scan_lines_log:
  assumes "list_all plain_line ls" and "plain_line rest"
  shows "scan_lines (log_bytes ls rest) =
    (let all = ls @ (if raw_line rest = [] then [] else [rest]); short = (\<lambda>l. length (raw_line l) < 65536) in
     (map fst (takeWhile short all), \<not> list_all short all))"
  using assms(1)
proof (induction ls)
  case Nil
  then show ?case using scan_lines_rest [OF assms(2)] by (simp add: log_bytes_def Let_def not_le)
next
  case (Cons l ls)
  have "log_bytes (l # ls) rest = raw_line l @ newline # log_bytes ls rest"
    by (simp add: log_bytes_def newline_def)
  then show ?case using Cons scan_lines_line [of l "log_bytes ls rest"] by (auto simp: Let_def)
qed

lemma streamLogs_expected:
  assumes "list_all plain_line ls" and "plain_line rest"
  shows "streamLogs c (log_bytes ls rest, err) = expected_log c ls rest err"
proof -
  define all where "all = ls @ (if raw_line rest = [] then [] else [rest])"
  define short :: "log_line \<Rightarrow> bool" where "short = (\<lambda>l. length (raw_line l) < 65536)"
  have scan: "scan_lines (log_bytes ls rest) = (map fst (takeWhile short all), \<not> list_all short all)"
    using scan_lines_log [OF assms] unfolding Let_def all_def short_def .
  have msg: "map (line_message c) xs = map ((\<lambda>l. c @ '': '' @ l @ [newline]) \<circ> fst) xs" for xs
    by (simp add: line_message_def newline_def)
  have "map f (takeWhile short all) = map f all" if "list_all short all" for f :: "log_line \<Rightarrow> string"
    using that by (simp add: takeWhile_eq_all_conv [THEN iffD2] list_all_iff)
  then show ?thesis
    by (simp add: streamLogs_def expected_log_def scan msg Let_def newline_def
        flip: all_def short_def split: option.split)
qed

text \<open>Every log is of this form.\<close>

lemma plain_line_ex:
  assumes "newline \<notin> set s"
  shows "\<exists>l. plain_line l \<and> raw_line l = s"
proof (cases "s \<noteq> [] \<and> last s = CHR 0x0D")
  case True
  then have "raw_line (butlast s, True) = s" using append_butlast_last_id [of s] by (simp add: raw_line_def)
  moreover have "plain_line (butlast s, True)"
    using assms in_set_butlastD [of _ s] by (auto simp: plain_line_def newline_def)
  ultimately show ?thesis by blast
next
  case False
  then have "plain_line (s, False)" "raw_line (s, False) = s"
    using assms by (auto simp: plain_line_def raw_line_def newline_def)
  then show ?thesis by blast
qed

lemma log_bytes_ex: "\<exists>ls rest. list_all plain_line ls \<and> plain_line rest \<and> s = log_bytes ls rest"
proof (induction "length s" arbitrary: s rule: less_induct)
  case less
  show ?case
  proof (cases "newline \<in> set s")
    case True
    then obtain a b where s: "s = a @ newline # b" "newline \<notin> set a" by (meson split_list_first)
    obtain l where l: "plain_line l" "raw_line l = a" using plain_line_ex [OF s(2)] by blast
    obtain ls rest where "list_all plain_line ls" "plain_line rest" "b = log_bytes ls rest"
      using less [of b] s(1) by auto
    then show ?thesis using l s(1)
      by (intro exI [of _ "l # ls"] exI [of _ rest]) (simp add: log_bytes_def newline_def)
  next
    case False
    then obtain l where "plain_line l" "raw_line l = s" using plain_line_ex by blast
    then show ?thesis by (intro exI [of _ "[]"] exI [of _ l]) (simp add: log_bytes_def)
  qed
qed

section \<open>Returned states\<close>

text \<open>
  The function returns by running its deferred calls from a state of the loop; when it returns
  because the pod ended, every log opened has been sent to its end.
\<close>

definition pod_failed :: "unit result" where
  "pod_failed = Inl (ErrMsg ''pod terminated: pod status is failed'')"

definition pod_ended :: "unit result \<Rightarrow> bool" where
  "pod_ended r \<longleftrightarrow> r = Inr () \<or> r = pod_failed"

definition returned_inv :: "'k kube \<Rightarrow> Stage \<Rightarrow> string \<Rightarrow> 'k world \<Rightarrow> unit result \<Rightarrow> 'k exec \<Rightarrow> bool" where
  "returned_inv kc stage podName w r x \<longleftrightarrow>
     (\<exists>y. exec_inv w y \<and> x = finish kc stage podName r y \<and> (pod_ended r \<longrightarrow> all_sent y))"

definition reach_inv :: "'k kube \<Rightarrow> Stage \<Rightarrow> string \<Rightarrow> 'k world \<Rightarrow> 'k exec \<Rightarrow> bool" where
  "reach_inv kc stage podName w x = (case xpc x of
      Returned r \<Rightarrow> returned_inv kc stage podName w r x
    | _ \<Rightarrow> exec_inv w x)"

lemma finish_pc [simp]: "xpc (finish kc stage podName r x) = Returned r"
  by (simp add: finish_def)

lemma pod_event_pc: "xpc x = Looping \<Longrightarrow>
    xpc (pod_event kc pod x) =
      (if stPhase (podStatus pod) = PodFailed \<or> stPhase (podStatus pod) = PodSucceeded
       then Waiting (stPhase (podStatus pod)) else Looping)"
  by (auto simp: pod_event_def Let_def)

lemma reach_inv_loop [simp]: "\<forall>r. xpc x \<noteq> Returned r \<Longrightarrow> reach_inv kc stage podName w x = exec_inv w x"
  by (auto simp: reach_inv_def split: pc.splits)

lemma reach_inv_finish:
  "exec_inv w y \<Longrightarrow> (pod_ended r \<Longrightarrow> all_sent y) \<Longrightarrow> reach_inv kc stage podName w (finish kc stage podName r y)"
  by (auto simp: reach_inv_def returned_inv_def)

lemma not_pod_ended [simp]:
  "\<not> pod_ended (Inl (ErrMsg (''execute pod: '' @ t)))"
  "\<not> pod_ended (Inl (ErrMsg (''error event from watch: '' @ t)))"
  "\<not> pod_ended (Inl (ErrMsg ''execute pod: watch closed before pod termination''))"
  by (auto simp: pod_ended_def pod_failed_def)

lemma reach_inv_watch:
  assumes "exec_inv w x" "xpc x = Looping"
  shows "reach_inv kc stage podName w (watch_step kc stage podName e x)"
proof -
  have pe: "reach_inv kc stage podName w (pod_event kc pod x)" for pod
    using exec_inv_pod_event [OF assms(1), of kc pod] pod_event_pc [OF assms(2), of kc pod] by auto
  show ?thesis
  proof (cases e)
    case None
    then show ?thesis using assms not_pod_ended(3) by (simp only: watch_step.simps) (blast intro: reach_inv_finish)
  next
    case (Some ev)
    then show ?thesis using assms pe not_pod_ended(2)
      by (cases ev) (simp_all only: watch_step.simps, auto intro: reach_inv_finish)
  qed
qed

lemma reach_inv_step:
  assumes inv: "reach_inv kc stage podName w x" and step: "exec_step kc stage podName l x = Some x'"
  shows "reach_inv kc stage podName w x'"
proof -
  have loop: "\<forall>r. xpc x \<noteq> Returned r"
    using step by (cases l) (auto split: pc.splits if_splits)
  then have x: "exec_inv w x" using inv by simp
  show ?thesis
  proof (cases l)
    case (Watch e)
    then show ?thesis using step x by (auto split: if_splits intro: reach_inv_watch)
  next
    case (CtxDone t)
    then show ?thesis using step x not_pod_ended(1)
      by (auto simp del: append.simps split: if_splits intro!: reach_inv_finish)
  next
    case (LogStep n)
    then have "log_step n x = Some x'" using step by (auto split: pc.splits)
    then show ?thesis using exec_inv_log_step [OF x] loop by simp
  next
    case WaitDone
    then show ?thesis using step x by (auto split: pc.splits if_splits intro: reach_inv_finish)
  qed
qed

theorem reach_inv: "reach kc stage podName w x \<Longrightarrow> reach_inv kc stage podName w x"
proof (induction rule: reach.induct)
  case reach_start
  show ?case using exec_inv_start [of w] by (simp add: start_exec_def)
next
  case (reach_step x l x')
  then show ?case by (blast intro: reach_inv_step)
qed

section \<open>The calls of the deferred functions\<close>

lemma close_stream_calls:
  "\<exists>r. calls (close_stream kc n w) = calls w @ [CLogClose n r] \<and>
     sent (close_stream kc n w) = sent w @ failure_report (CLogClose n r)"
  by (auto simp: close_stream_def api_def newline_def split: prod.splits sum.splits)

lemma close_streams_calls:
  "\<exists>rs. length rs = length ns \<and> calls (fold (close_stream kc) ns w) = calls w @ map2 CLogClose ns rs \<and>
     sent (fold (close_stream kc) ns w) = sent w @ failure_reports (map2 CLogClose ns rs)"
proof (induction ns arbitrary: w)
  case (Cons n ns)
  obtain r where r: "calls (close_stream kc n w) = calls w @ [CLogClose n r]"
      "sent (close_stream kc n w) = sent w @ failure_report (CLogClose n r)"
    using close_stream_calls by blast
  obtain rs where rs: "length rs = length ns"
      "calls (fold (close_stream kc) ns (close_stream kc n w)) = calls (close_stream kc n w) @ map2 CLogClose ns rs"
      "sent (fold (close_stream kc) ns (close_stream kc n w)) =
         sent (close_stream kc n w) @ failure_reports (map2 CLogClose ns rs)"
    using Cons by blast
  show ?case using r rs by (intro exI [of _ "r # rs"]) simp
qed simp

lemma deletePod_calls:
  "\<exists>r. calls (deletePod kc n w) = calls w @ [CPodDelete n r] \<and>
     sent (deletePod kc n w) = sent w @ failure_report (CPodDelete n r)"
  by (auto simp: deletePod_def api_def newline_def split: prod.splits sum.splits)

lemma run_deferred_calls:
  "\<exists>rs ds. length rs = length ns \<and>
     calls (run_deferred kc stage podName ns w) = calls w @ map2 CLogClose (rev ns) rs @ ds @ [CWatchStop] \<and>
     sent (run_deferred kc stage podName ns w) = sent w @ failure_reports (map2 CLogClose (rev ns) rs @ ds) \<and>
     (if stage = BUILD then \<exists>r. ds = [CPodDelete podName r] else ds = [])"
proof -
  obtain rs where "length rs = length ns"
      "calls (fold (close_stream kc) (rev ns) w) = calls w @ map2 CLogClose (rev ns) rs"
      "sent (fold (close_stream kc) (rev ns) w) = sent w @ failure_reports (map2 CLogClose (rev ns) rs)"
    using close_streams_calls [of "rev ns" kc w] by auto
  then show ?thesis
    using deletePod_calls [of kc podName "fold (close_stream kc) (rev ns) w"]
    by (auto simp: run_deferred_def intro!: exI [of _ rs])
qed

lemma all_sent_delivered:
  "all_sent y \<Longrightarrow> list_all (delivered ms) (xstreams y) \<Longrightarrow> (n, tot, rem) \<in> set (xstreams y) \<Longrightarrow>
   of_log (Some n) ms = tot"
  by (fastforce simp: all_sent_def list_all_iff delivered_def)

lemma opened_streams:
  "opened logs = map (\<lambda>(n, tot, _). (n, tot)) ss \<Longrightarrow> map fst (opened logs) = map fst ss"
  by (auto intro: map_cong)

text \<open>
  The trace of a returned execution: log calls, then the streams closed in reverse order, the pod
  deleted in the build stage, and the watch stopped. Every message sent is one of an opened log or
  reports a failed call, each such call once; and when the pod ended, every opened log has been sent
  exactly.
\<close>

lemma returned_messages:
  assumes "returned_inv kc stage podName w r x"
  obtains logs rs ds ms where
    "calls (xworld x) = calls w @ logs @ map2 CLogClose (rev (map fst (opened logs))) rs @ ds @ [CWatchStop]"
    "list_all is_log_call logs" "distinct (map fst (opened logs))" "length rs = length (opened logs)"
    "if stage = BUILD then \<exists>a. ds = [CPodDelete podName a] else ds = []"
    "sent (xworld x) = sent w @ map snd ms"
    "of_log None ms = failure_reports (logs @ map2 CLogClose (rev (map fst (opened logs))) rs @ ds)"
    "from_logs ms (fst ` set (opened logs))"
    "pod_ended r \<Longrightarrow> \<forall>(c, lines) \<in> set (opened logs). of_log (Some c) ms = lines"
proof -
  obtain y where y: "exec_inv w y" "x = finish kc stage podName r y" "pod_ended r \<Longrightarrow> all_sent y"
    using assms by (auto simp: returned_inv_def)
  obtain logs ms where inv: "distinct (map fst (xstreams y))" "calls (xworld y) = calls w @ logs"
      "list_all is_log_call logs" "opened logs = map (\<lambda>(n, tot, _). (n, tot)) (xstreams y)"
      "sent (xworld y) = sent w @ map snd ms" "of_log None ms = failure_reports logs"
      "from_logs ms (fst ` set (xstreams y))" "list_all (delivered ms) (xstreams y)"
    using y(1) by (auto simp: exec_inv_def)
  have len: "length (opened logs) = length (xstreams y)" using inv(4) by simp
  have names: "map fst (opened logs) = map fst (xstreams y)" using opened_streams [OF inv(4)] .
  then have tags: "fst ` set (opened logs) = fst ` set (xstreams y)" by (metis set_map)
  obtain rs ds where tr: "length rs = length (xstreams y)"
      "calls (xworld x) = calls (xworld y) @ map2 CLogClose (rev (map fst (xstreams y))) rs @ ds @ [CWatchStop]"
      "sent (xworld x) = sent (xworld y) @ failure_reports (map2 CLogClose (rev (map fst (xstreams y))) rs @ ds)"
      "if stage = BUILD then \<exists>a. ds = [CPodDelete podName a] else ds = []"
    using run_deferred_calls [of "map fst (xstreams y)" kc stage podName "xworld y"] y(2)
    by (auto simp: finish_def)
  let ?more = "map (Pair None) (failure_reports (map2 CLogClose (rev (map fst (xstreams y))) rs @ ds)) :: tagged"
  have full: "\<forall>(c, lines) \<in> set (opened logs). of_log (Some c) (ms @ ?more) = lines" if "pod_ended r"
    using all_sent_delivered [OF y(3) [OF that] inv(8)] inv(4) by auto
  show ?thesis
  proof (rule that [of logs rs ds "ms @ ?more"])
    show "sent (xworld x) = sent w @ map snd (ms @ ?more)" using tr(3) inv(5) by (simp add: comp_def)
    show "of_log None (ms @ ?more) = failure_reports (logs @ map2 CLogClose (rev (map fst (opened logs))) rs @ ds)"
      using inv(6) by (simp add: names)
    show "from_logs (ms @ ?more) (fst ` set (opened logs))" using inv(7) tags by simp
  qed (use inv(1-3) names tr(1,2,4) len full in simp_all)
qed

lemma returned_trace:
  assumes "returned_inv kc stage podName w r x"
  obtains logs rs ds ms where
    "calls (xworld x) = calls w @ logs @ map2 CLogClose (rev (map fst (opened logs))) rs @ ds @ [CWatchStop]"
    "list_all is_log_call logs" "distinct (map fst (opened logs))" "length rs = length (opened logs)"
    "if stage = BUILD then \<exists>a. ds = [CPodDelete podName a] else ds = []"
    "sent (xworld x) = sent w @ ms" "set (failure_reports ds) \<subseteq> set ms"
    "pod_ended r \<Longrightarrow> \<forall>(c, lines) \<in> set (opened logs). subseq lines ms"
  using assms
proof (rule returned_messages)
  fix logs rs ds ms
  assume tr: "calls (xworld x) = calls w @ logs @ map2 CLogClose (rev (map fst (opened logs))) rs @ ds @ [CWatchStop]"
    "list_all is_log_call logs" "distinct (map fst (opened logs))" "length rs = length (opened logs)"
    "if stage = BUILD then \<exists>a. ds = [CPodDelete podName a] else ds = []" "sent (xworld x) = sent w @ map snd ms"
    "of_log None ms = failure_reports (logs @ map2 CLogClose (rev (map fst (opened logs))) rs @ ds)"
    "pod_ended r \<Longrightarrow> \<forall>(c, lines) \<in> set (opened logs). of_log (Some c) ms = lines"
  have "set (failure_reports ds) \<subseteq> set (map snd ms)" using of_log_set [of None ms] tr(7) by auto
  moreover have "\<forall>(c, lines) \<in> set (opened logs). subseq lines (map snd ms)" if "pod_ended r"
    using tr(8) [OF that] subseq_of_log [of _ ms] by fastforce
  ultimately show thesis using that [of logs rs ds "map snd ms"] tr(1-6) by blast
qed

lemma returned_calls:
  assumes "returned_inv kc stage podName w r x"
  shows "\<exists>logs rs ds. calls (xworld x) =
      calls w @ logs @ map2 CLogClose (rev (map fst (opened logs))) rs @ ds @ [CWatchStop] \<and>
    list_all is_log_call logs \<and> distinct (map fst (opened logs)) \<and> length rs = length (opened logs) \<and>
    (if stage = BUILD then \<exists>a. ds = [CPodDelete podName a] else ds = [])"
  using assms by (rule returned_trace) blast

section \<open>Whole executions\<close>

lemma exec_setup_ok:
  assumes "exec_setup kc pod stage opts w = (Inr created, w')"
  shows "sent w' = sent w"
    and "\<exists>refs. calls w' = calls w @ [CPodWatch (watch_selector pod) (Inr ()), CPodCreate pod (Inr created)] @ refs \<and>
      (case (stage, opts) of
         (RUN, Some uuid) \<Rightarrow> \<exists>secret upd. refs = [CSecretGet (secret_name uuid) (Inr secret),
           CSecretUpdate (owned_secret created secret) (Inr upd)]
       | _ \<Rightarrow> refs = [])"
  using assms
  by (auto simp: exec_setup_def addControllerReferenceToCryptoSecret_def api_def split: prod.splits sum.splits
      Stage.splits option.splits)

lemma exec_setup_err:
  assumes "exec_setup kc pod stage opts w = (Inl e, w')"
  shows "\<exists>t. calls w' = calls w @ t \<and>
    ((\<exists>a. t = [CPodWatch (watch_selector pod) (Inl a)]) \<or>
     (\<exists>a. t = [CPodWatch (watch_selector pod) (Inr ()), CPodCreate pod (Inl a), CWatchStop]) \<or>
     (stage = RUN \<and> opts \<noteq> None \<and>
       (\<exists>created refs. t = [CPodWatch (watch_selector pod) (Inr ()), CPodCreate pod (Inr created)] @ refs @ [CWatchStop] \<and>
          list_all (\<lambda>c. case c of CSecretGet _ _ \<Rightarrow> True | CSecretUpdate _ _ \<Rightarrow> True | _ \<Rightarrow> False) refs)))"
  using assms
  by (auto simp: exec_setup_def addControllerReferenceToCryptoSecret_def api_def split: prod.splits sum.splits
      Stage.splits option.splits)

lemma exec_setup_run_err:
  assumes "exec_setup kc pod RUN (Some uuid) w = (Inl e, w')"
  shows "\<exists>tr. calls w' = calls w @ tr \<and>
    ((\<exists>a. tr = [CPodWatch (watch_selector pod) (Inl a)]) \<or>
     (\<exists>a. tr = [CPodWatch (watch_selector pod) (Inr ()), CPodCreate pod (Inl a), CWatchStop]) \<or>
     (\<exists>created a. tr = [CPodWatch (watch_selector pod) (Inr ()), CPodCreate pod (Inr created),
        CSecretGet (secret_name uuid) (Inl a), CWatchStop]) \<or>
     (\<exists>created secret a. tr = [CPodWatch (watch_selector pod) (Inr ()), CPodCreate pod (Inr created),
        CSecretGet (secret_name uuid) (Inr secret), CSecretUpdate (owned_secret created secret) (Inl a), CWatchStop] \<and>
        e = a))"
  using assms
  by (auto simp: exec_setup_def addControllerReferenceToCryptoSecret_def api_def split: prod.splits sum.splits)

text \<open>A returned execution went through the set-up and reached a returned state of the loop.\<close>

lemma executePod_cases:
  assumes "executePod kc pod stage opts sched w = Some (r, w')"
  obtains (failed) e where "exec_setup kc pod stage opts w = (Inl e, w')" "r = Inl e" "sched = []"
  | (looped) created w1 x where "exec_setup kc pod stage opts w = (Inr created, w1)"
      "exec_run kc stage (pod_name created) sched (start_exec w1) = Some x"
      "xpc x = Returned r" "w' = xworld x" "returned_inv kc stage (pod_name created) w1 r x"
proof -
  obtain s w1 where s: "exec_setup kc pod stage opts w = (s, w1)" by fastforce
  show ?thesis
  proof (cases s)
    case (Inl e)
    then show ?thesis using s assms failed by (auto simp: executePod_def split: if_splits)
  next
    case (Inr created)
    then obtain x where x: "exec_run kc stage (pod_name created) sched (start_exec w1) = Some x"
        "xpc x = Returned r" "w' = xworld x"
      using s assms by (auto simp: executePod_def split: option.splits pc.splits)
    have "reach_inv kc stage (pod_name created) w1 x"
      using reach_inv reach_run [OF reach_start x(1)] by blast
    then show ?thesis using looped [OF _ x] s Inr x(2) by (auto simp: reach_inv_def)
  qed
qed

section \<open>The schedule of a successful execution\<close>

text \<open>The phase a watch step reports, when it ends the pod.\<close>

fun end_phase :: "step \<Rightarrow> PodPhase option" where
  "end_phase (Watch (Some (Added pod))) =
     (if stPhase (podStatus pod) = PodFailed \<or> stPhase (podStatus pod) = PodSucceeded
      then Some (stPhase (podStatus pod)) else None)"
| "end_phase (Watch (Some (Modified pod))) =
     (if stPhase (podStatus pod) = PodFailed \<or> stPhase (podStatus pod) = PodSucceeded
      then Some (stPhase (podStatus pod)) else None)"
| "end_phase _ = None"

fun is_log_step :: "step \<Rightarrow> bool" where
  "is_log_step (LogStep _) = True"
| "is_log_step _ = False"

lemma log_step_result: "exec_step kc stage podName (LogStep n) x = Some x' \<Longrightarrow> xpc x' = xpc x"
  by (auto split: pc.splits)

lemma exec_run_returned:
  "exec_run kc stage podName ls x = Some x' \<Longrightarrow> xpc x = Returned r \<Longrightarrow> ls = [] \<and> x' = x"
  by (cases ls; cases "hd ls") (auto split: option.splits)

lemma exec_run_waiting:
  "exec_run kc stage podName ls x = Some x' \<Longrightarrow> xpc x = Waiting ph \<Longrightarrow> xpc x' = Returned r \<Longrightarrow>
   \<exists>post. ls = post @ [WaitDone] \<and> list_all is_log_step post \<and>
     r = (if ph = PodFailed then pod_failed else Inr ())"
proof (induction ls arbitrary: x)
  case Nil
  then show ?case by simp
next
  case (Cons l ls)
  obtain y where y: "exec_step kc stage podName l x = Some y" "exec_run kc stage podName ls y = Some x'"
    using Cons.prems(1) by (auto split: option.splits)
  show ?case
  proof (cases l)
    case (LogStep n)
    then have "xpc y = Waiting ph" using log_step_result y(1) Cons.prems(2) by metis
    then obtain post where "ls = post @ [WaitDone]" "list_all is_log_step post"
        "r = (if ph = PodFailed then pod_failed else Inr ())"
      using Cons.IH [OF y(2) _ Cons.prems(3)] by auto
    then show ?thesis using LogStep by (intro exI [of _ "l # post"]) simp
  next
    case WaitDone
    then have "xpc y = Returned (if ph = PodFailed then pod_failed else Inr ())"
      using y(1) Cons.prems(2) by (auto simp: pod_failed_def split: if_splits)
    then show ?thesis using exec_run_returned [OF y(2)] Cons.prems(3) WaitDone by auto
  qed (use y(1) Cons.prems(2) in auto)
qed

lemma watch_step_pc:
  assumes "xpc x = Looping"
  shows "xpc (watch_step kc stage podName e x) =
    (case end_phase (Watch e) of
       Some ph \<Rightarrow> Waiting ph
     | None \<Rightarrow> xpc (watch_step kc stage podName e x))"
    and "end_phase (Watch e) = None \<Longrightarrow>
      xpc (watch_step kc stage podName e x) = Looping \<or>
      (\<exists>r. xpc (watch_step kc stage podName e x) = Returned r \<and> \<not> pod_ended r)"
proof -
  have e: "e = None \<or> (\<exists>t. e = Some (ErrorEvent t)) \<or> (\<exists>p. e = Some (Added p)) \<or> (\<exists>p. e = Some (Modified p)) \<or>
      (\<exists>p. e = Some (Deleted p)) \<or> e = Some Bookmark"
    by (cases e rule: option.exhaust) (auto, metis Event.exhaust)
  show "xpc (watch_step kc stage podName e x) =
    (case end_phase (Watch e) of Some ph \<Rightarrow> Waiting ph | None \<Rightarrow> xpc (watch_step kc stage podName e x))"
    using e assms by (auto simp: pod_event_pc)
  show "xpc (watch_step kc stage podName e x) = Looping \<or>
      (\<exists>r. xpc (watch_step kc stage podName e x) = Returned r \<and> \<not> pod_ended r)"
    if "end_phase (Watch e) = None"
    using e assms that by (auto simp: pod_event_pc pod_ended_def pod_failed_def split: if_splits)
qed

lemma exec_run_looping:
  "exec_run kc stage podName ls x = Some x' \<Longrightarrow> xpc x = Looping \<Longrightarrow> xpc x' = Returned r \<Longrightarrow> pod_ended r \<Longrightarrow>
   \<exists>pre l post ph. ls = pre @ l # post @ [WaitDone] \<and> end_phase l = Some ph \<and>
     list_all (\<lambda>k. end_phase k = None) pre \<and> list_all is_log_step post \<and>
     r = (if ph = PodFailed then pod_failed else Inr ())"
proof (induction ls arbitrary: x)
  case Nil
  then show ?case by simp
next
  case (Cons l ls)
  obtain y where y: "exec_step kc stage podName l x = Some y" "exec_run kc stage podName ls y = Some x'"
    using Cons.prems(1) by (auto split: option.splits)
  have later: ?case if none: "end_phase l = None" and loop: "xpc y = Looping"
  proof -
    obtain pre k post ph where "ls = pre @ k # post @ [WaitDone]" "end_phase k = Some ph"
        "list_all (\<lambda>k. end_phase k = None) pre" "list_all is_log_step post"
        "r = (if ph = PodFailed then pod_failed else Inr ())"
      using Cons.IH [OF y(2) loop Cons.prems(3,4)] by auto
    then show ?thesis using none
      by (intro exI [of _ "l # pre"] exI [of _ k] exI [of _ post] exI [of _ ph]) simp
  qed
  have no_end: False if "xpc y = Returned q" "\<not> pod_ended q" for q
    using exec_run_returned [OF y(2) that(1)] that Cons.prems(3,4) by auto
  show ?case
  proof (cases l)
    case (Watch e)
    then have ye: "y = watch_step kc stage podName e x" using y(1) Cons.prems(2) by simp
    show ?thesis
    proof (cases "end_phase l")
      case None
      then show ?thesis using watch_step_pc(2) [OF Cons.prems(2)] Watch ye later no_end by blast
    next
      case (Some ph)
      then have "xpc y = Waiting ph" using watch_step_pc(1) [OF Cons.prems(2), of kc stage podName e] Watch ye by simp
      then show ?thesis using exec_run_waiting [OF y(2) _ Cons.prems(3)] Some
        by (intro exI [of _ "[]"]) auto
    qed
  next
    case (CtxDone t)
    then show ?thesis using y(1) Cons.prems(2) no_end
      by (auto simp: pod_ended_def pod_failed_def)
  next
    case (LogStep n)
    then have "xpc y = Looping" using log_step_result y(1) Cons.prems(2) by metis
    then show ?thesis using later LogStep by simp
  qed (use y(1) Cons.prems(2) in auto)
qed

section \<open>Draining the logs\<close>

text \<open>The goroutines that still have messages, one entry per message, in the order of the streams.\<close>

definition drain :: "(string \<times> string list \<times> string list) list \<Rightarrow> step list" where
  "drain ss = concat (map (\<lambda>(n, tot, rem). map (\<lambda>_. LogStep n) rem) ss)"

lemma send_next_skip:
  "n \<notin> fst ` set as \<Longrightarrow> send_next n (as @ ss) = map_option (\<lambda>(m, ss'). (m, as @ ss')) (send_next n ss)"
  by (cases "send_next n ss"; induction as) auto

lemma drain_stream:
  assumes "xstreams x = as @ (n, tot, rem) # bs" "n \<notin> fst ` set as" "\<forall>r. xpc x \<noteq> Returned r"
  shows "\<exists>x'. exec_run kc stage podName (map (\<lambda>_. LogStep n) rem) x = Some x' \<and>
    xstreams x' = as @ (n, tot, []) # bs \<and> xpc x' = xpc x"
  using assms
proof (induction rem arbitrary: x)
  case Nil
  then show ?case by simp
next
  case (Cons m rem)
  let ?y = "x\<lparr>xworld := log_msg m (xworld x), xstreams := as @ (n, tot, rem) # bs\<rparr>"
  have "exec_step kc stage podName (LogStep n) x = Some ?y"
    using Cons.prems by (auto simp: log_step_def send_next_skip split: pc.splits)
  then show ?case using Cons.IH [of ?y] Cons.prems by simp
qed

lemma drain_streams:
  assumes "xstreams x = as @ bs" "distinct (map fst (as @ bs))" "\<forall>r. xpc x \<noteq> Returned r"
    "list_all (\<lambda>(_, _, rem). rem = []) as"
  shows "\<exists>x'. exec_run kc stage podName (drain bs) x = Some x' \<and> all_sent x' \<and> xpc x' = xpc x"
  using assms
proof (induction bs arbitrary: as x)
  case Nil
  then show ?case by (simp add: drain_def all_sent_def)
next
  case (Cons b bs)
  obtain n tot rem where b: "b = (n, tot, rem)" by (cases b)
  obtain y where y: "exec_run kc stage podName (map (\<lambda>_. LogStep n) rem) x = Some y"
      "xstreams y = as @ (n, tot, []) # bs" "xpc y = xpc x"
    using drain_stream [of x as n tot rem bs kc stage podName] Cons.prems b by auto
  have "\<exists>x'. exec_run kc stage podName (drain bs) y = Some x' \<and> all_sent x' \<and> xpc x' = xpc y"
    using Cons.IH [of y "as @ [(n, tot, [])]"] Cons.prems y b by simp
  then show ?case using y b by (simp add: drain_def exec_run_append)
qed

lemma reach_waiting_returns:
  assumes "reach kc stage podName w x" "xpc x = Waiting ph"
  shows "\<exists>x'. exec_run kc stage podName (drain (xstreams x) @ [WaitDone]) x = Some x' \<and>
    xpc x' = Returned (if ph = PodFailed then pod_failed else Inr ())"
proof -
  have "distinct (map fst (xstreams x))"
    using reach_inv [OF assms(1)] assms(2) by (simp add: exec_inv_def)
  then obtain y where "exec_run kc stage podName (drain (xstreams x)) x = Some y" "all_sent y" "xpc y = Waiting ph"
    using drain_streams [of x "[]" "xstreams x" kc stage podName] assms(2) by auto
  then show ?thesis by (simp add: exec_run_append pod_failed_def)
qed

lemma reach_end_returns:
  assumes "exec_run kc stage podName ls (start_exec w) = Some x" "xpc x = Looping" "end_phase l = Some ph"
  shows "\<exists>post y. list_all is_log_step post \<and>
    exec_run kc stage podName (ls @ l # post @ [WaitDone]) (start_exec w) = Some y \<and>
    xpc y = Returned (if ph = PodFailed then pod_failed else Inr ())"
proof -
  obtain e where l: "l = Watch e" using assms(3) by (cases l) auto
  let ?x = "watch_step kc stage podName e x"
  have step: "exec_step kc stage podName l x = Some ?x" using assms(2) l by simp
  have wait: "xpc ?x = Waiting ph" using watch_step_pc(1) [OF assms(2), of kc stage podName e] assms(3) l by simp
  have "reach kc stage podName w ?x"
    using reach_step [OF reach_run [OF reach_start assms(1)] step] .
  then obtain y where y: "exec_run kc stage podName (drain (xstreams ?x) @ [WaitDone]) ?x = Some y"
      "xpc y = Returned (if ph = PodFailed then pod_failed else Inr ())"
    using reach_waiting_returns [OF _ wait] by blast
  have "list_all is_log_step (drain (xstreams ?x))" by (auto simp: drain_def list_all_iff)
  then show ?thesis using y step assms(1)
    by (intro exI [of _ "drain (xstreams ?x)"] exI [of _ y]) (simp add: exec_run_append)
qed

section \<open>A concrete cluster\<close>

text \<open>
  A cluster that accepts every call: a created object is returned as given, secrets are stored, and
  the log of every container is two lines. It shows that the hypotheses of the properties can hold.
\<close>

definition sample_kube :: "Secret option kube" where
  "sample_kube = \<lparr>
     secretCreate = (\<lambda>s k. (Inr s, Some s)),
     secretGet = (\<lambda>n k. (case k of Some s \<Rightarrow> Inr s | None \<Rightarrow> Inl (ErrMsg ''not found''), k)),
     secretUpdate = (\<lambda>s k. (Inr s, Some s)),
     secretDelete = (\<lambda>n k. (Inr (), None)),
     podWatch = (\<lambda>sel k. (Inr (), k)),
     podCreate = (\<lambda>p k. (Inr p, k)),
     podDelete = (\<lambda>n k. (Inr (), k)),
     podList = (\<lambda>sel k. (Inr [], k)),
     podLogs = (\<lambda>p c f k. (Inr (''one'' @ [newline] @ ''two'' @ [newline], None), k)),
     logClose = (\<lambda>n k. (Inr (), k)),
     nodeList = None\<rparr>"

definition sample_world :: "Secret option world" where
  "sample_world = \<lparr>cluster = None, calls = [], sent = []\<rparr>"

definition sample_pod :: "PodPhase \<Rightarrow> Pod" where
  "sample_pod ph =
     \<lparr>podMeta = \<lparr>omName = ''chaincode-build-1'', omUID = [], omLabels = [], omOwnerReferences = []\<rparr>,
      podSpec = \<lparr>psImagePullSecrets = [], psRestartPolicy = ''Never'', psVolumes = [],
        psInitContainers = [], psContainers = [], psAffinity = None\<rparr>,
      podStatus = \<lparr>stPhase = ph, stInitContainerStatuses = [],
        stContainerStatuses = [\<lparr>csName = ''upload'', csRunning = True, csTerminated = None\<rparr>]\<rparr>\<rparr>"

definition sample_sched :: "step list" where
  "sample_sched = [Watch (Some (Added (sample_pod PodRunning))), LogStep ''upload'',
     Watch (Some (Modified (sample_pod PodSucceeded))), LogStep ''upload'', WaitDone]"

definition sample_logs :: "(string \<times> gerror option) result" where
  "sample_logs = Inr (''one'' @ [newline] @ ''two'' @ [newline], None)"

definition sample_end :: "Secret option world" where
  "sample_end = \<lparr>cluster = None,
     calls = [CPodWatch (''metadata.name'', ''chaincode-build-1'') (Inr ()),
       CPodCreate (sample_pod PodRunning) (Inr (sample_pod PodRunning)),
       CPodLogs ''chaincode-build-1'' ''upload'' True sample_logs,
       CLogClose ''upload'' (Inr ()), CPodDelete ''chaincode-build-1'' (Inr ()), CWatchStop],
     sent = [''upload: one'' @ [newline], ''upload: two'' @ [newline]]\<rparr>"

definition sample_secret :: Secret where
  "sample_secret = \<lparr>secMeta = \<lparr>omName = ''certs-1'', omUID = [], omLabels = [], omOwnerReferences = []\<rparr>,
     secStringData = []\<rparr>"

definition sample_world_run :: "Secret option world" where
  "sample_world_run = sample_world\<lparr>cluster := Some sample_secret\<rparr>"

definition sample_end_run :: "Secret option world" where
  "sample_end_run = (case executePod sample_kube (sample_pod PodRunning) RUN (Some ''1'') sample_sched
     sample_world_run of Some (_, w) \<Rightarrow> w | None \<Rightarrow> sample_world)"

lemma sample_build:
  "executePod sample_kube (sample_pod PodRunning) BUILD None sample_sched sample_world = Some (Inr (), sample_end)"
  by code_simp

lemma sample_run:
  "executePod sample_kube (sample_pod PodRunning) RUN (Some ''1'') sample_sched sample_world_run =
     Some (Inr (), sample_end_run)"
  by code_simp

section \<open>Properties\<close>

text \<open>Property C1: a build execution that returns has made, on every path and under every
  interleaving with the log goroutines, exactly these calls: set up the watch on the pod's name;
  create the pod; open container logs (each container at most once); close the opened logs, last
  first; delete the created pod exactly once; and stop the watch last. Where the watch or the
  creation fails the execution ends there (with the watch stopped if it was set up), and no pod is
  left behind.\<close>

theorem executePod_build_trace:
  assumes "executePod kc pod BUILD opts sched w = Some (r, w')"
  shows "(\<exists>a. calls w' = calls w @ [CPodWatch (watch_selector pod) (Inl a)]) \<or>
    (\<exists>a. calls w' = calls w @ [CPodWatch (watch_selector pod) (Inr ()), CPodCreate pod (Inl a), CWatchStop]) \<or>
    (\<exists>created logs rs a. calls w' = calls w @
       [CPodWatch (watch_selector pod) (Inr ()), CPodCreate pod (Inr created)] @ logs @
       map2 CLogClose (rev (map fst (opened logs))) rs @ [CPodDelete (pod_name created) a, CWatchStop] \<and>
       list_all is_log_call logs \<and> distinct (map fst (opened logs)) \<and> length rs = length (opened logs))"
  using assms
proof (cases rule: executePod_cases)
  case (failed e)
  then show ?thesis using exec_setup_err [of kc pod BUILD opts w e w'] by auto
next
  case (looped created w1 x)
  obtain logs rs a where "calls w' = calls w1 @ logs @ map2 CLogClose (rev (map fst (opened logs))) rs @
      [CPodDelete (pod_name created) a, CWatchStop]"
      "list_all is_log_call logs" "distinct (map fst (opened logs))" "length rs = length (opened logs)"
    using returned_calls [OF looped(5)] looped(4) by auto
  then show ?thesis using exec_setup_ok(2) [OF looped(1)] by auto
qed

theorem executePod_build_trace_witness:
  "(\<exists>a. calls sample_end = calls sample_world @
      [CPodWatch (watch_selector (sample_pod PodRunning)) (Inl a)]) \<or>
    (\<exists>a. calls sample_end = calls sample_world @
      [CPodWatch (watch_selector (sample_pod PodRunning)) (Inr ()), CPodCreate (sample_pod PodRunning) (Inl a), CWatchStop]) \<or>
    (\<exists>created logs rs a. calls sample_end = calls sample_world @
       [CPodWatch (watch_selector (sample_pod PodRunning)) (Inr ()), CPodCreate (sample_pod PodRunning) (Inr created)] @ logs @
       map2 CLogClose (rev (map fst (opened logs))) rs @ [CPodDelete (pod_name created) a, CWatchStop] \<and>
       list_all is_log_call logs \<and> distinct (map fst (opened logs)) \<and> length rs = length (opened logs))"
  by (rule executePod_build_trace [OF sample_build])

text \<open>Property C20: a run execution never deletes the chaincode pod, and no log is opened before the
  pod owns the crypto secret. Every execution, those whose set-up fails included, is one of five: the
  watch is refused; the pod is refused; the secret cannot be read; the secret cannot be
  updated; or the secret, read after the pod was created, has been updated with an owner reference
  to exactly that pod, and then logs are opened, and at the end closed. No path holds another call,
  and every path after the watch was set up stops it last. Where the set-up fails the result is an
  error, and in the third and the fourth the created pod is left running.\<close>

theorem executePod_run_trace:
  assumes "executePod kc pod RUN (Some uuid) sched w = Some (r, w')"
  shows "\<exists>tr. calls w' = calls w @ tr \<and>
    ((\<exists>a. tr = [CPodWatch (watch_selector pod) (Inl a)] \<and> (\<exists>e. r = Inl e)) \<or>
     (\<exists>a. tr = [CPodWatch (watch_selector pod) (Inr ()), CPodCreate pod (Inl a), CWatchStop] \<and> (\<exists>e. r = Inl e)) \<or>
     (\<exists>created a. tr = [CPodWatch (watch_selector pod) (Inr ()), CPodCreate pod (Inr created),
        CSecretGet (secret_name uuid) (Inl a), CWatchStop] \<and> (\<exists>e. r = Inl e)) \<or>
     (\<exists>created secret a. tr = [CPodWatch (watch_selector pod) (Inr ()), CPodCreate pod (Inr created),
        CSecretGet (secret_name uuid) (Inr secret), CSecretUpdate (owned_secret created secret) (Inl a), CWatchStop] \<and>
        r = Inl a) \<or>
     (\<exists>created secret upd logs rs. tr = [CPodWatch (watch_selector pod) (Inr ()), CPodCreate pod (Inr created),
        CSecretGet (secret_name uuid) (Inr secret), CSecretUpdate (owned_secret created secret) (Inr upd)] @
        logs @ map2 CLogClose (rev (map fst (opened logs))) rs @ [CWatchStop] \<and>
        list_all is_log_call logs \<and> distinct (map fst (opened logs)) \<and> length rs = length (opened logs)))"
  using assms
proof (cases rule: executePod_cases)
  case (failed e)
  from exec_setup_run_err [OF failed(1)] show ?thesis using failed(2) by (elim exE conjE) (intro exI conjI, assumption, blast)
next
  case (looped created w1 x)
  obtain logs rs where "calls w' = calls w1 @ logs @ map2 CLogClose (rev (map fst (opened logs))) rs @ [CWatchStop]"
      "list_all is_log_call logs" "distinct (map fst (opened logs))" "length rs = length (opened logs)"
    using returned_calls [OF looped(5)] looped(4) by auto
  moreover obtain secret upd where "calls w1 = calls w @ [CPodWatch (watch_selector pod) (Inr ()),
      CPodCreate pod (Inr created), CSecretGet (secret_name uuid) (Inr secret), CSecretUpdate (owned_secret created secret) (Inr upd)]"
    using exec_setup_ok(2) [OF looped(1)] by auto
  ultimately show ?thesis by (intro exI conjI disjI2) simp_all
qed

theorem executePod_run_trace_witness:
  "\<exists>tr created secret upd. calls sample_end_run = calls sample_world_run @ tr \<and>
     take 4 tr = [CPodWatch (watch_selector (sample_pod PodRunning)) (Inr ()), CPodCreate (sample_pod PodRunning) (Inr created),
       CSecretGet (secret_name ''1'') (Inr secret), CSecretUpdate (owned_secret created secret) (Inr upd)] \<and>
     list_all (\<lambda>c. \<forall>n a. c \<noteq> CPodDelete n a) tr"
proof -
  have no: "is_log_call c \<Longrightarrow> c \<noteq> CPodDelete n a" for c n a by (cases c) auto
  have "list_all (\<lambda>c. \<forall>n a. c \<noteq> CPodDelete n a) (map2 CLogClose ns rs)" for ns rs by (auto simp: list_all_iff)
  moreover have "list_all is_log_call logs \<Longrightarrow> list_all (\<lambda>c. \<forall>n a. c \<noteq> CPodDelete n a) logs" for logs
    using no by (auto simp: list_all_iff)
  ultimately show ?thesis
    using executePod_run_trace [OF sample_run] by (elim exE conjE disjE) fastforce+
qed

text \<open>Property C7: the messages of a pod execution are exactly its container logs. When an execution
  that entered the loop returns because the pod ended (successfully or not), under every interleaving
  of the goroutines, each container whose log was opened has sent, in order and once each, its lines
  (the bytes between newlines, without a carriage return before the newline, and the rest after the
  last newline when there is any) prefixed with its name, and then the read error when there was one;
  and every other message reports one failed call, in the order of the calls. The one exception is
  stated by \<^const>\<open>expected_log\<close>: a line of 64 KiB or more ends the log there with an error message,
  and it and the lines after it are not sent.\<close>

theorem executePod_logs_complete:
  assumes "executePod kc pod stage opts sched w = Some (r, w')"
    and "r = Inr () \<or> r = pod_failed" and "sched \<noteq> []"
  shows "\<exists>ms new. calls w' = calls w @ new \<and> sent w' = sent w @ map snd ms \<and>
    of_log None ms = failure_reports new \<and>
    (\<forall>c. Some c \<in> fst ` set ms \<longrightarrow> (\<exists>p f st. CPodLogs p c f (Inr st) \<in> set new)) \<and>
    (\<forall>p c f ls rest err. CPodLogs p c f (Inr (log_bytes ls rest, err)) \<in> set new \<and>
       list_all plain_line ls \<and> plain_line rest \<longrightarrow> of_log (Some c) ms = expected_log c ls rest err)"
  using assms(1)
proof (cases rule: executePod_cases)
  case (failed e)
  then show ?thesis using assms(3) by simp
next
  case (looped created w1 x)
  obtain refs where refs: "calls w1 = calls w @ refs" "opened refs = []" "failure_reports refs = []"
    using exec_setup_ok(2) [OF looped(1)] by (fastforce split: Stage.splits option.splits)
  show ?thesis
  proof (rule returned_messages [OF looped(5)])
    fix logs rs ds ms
    let ?closes = "map2 CLogClose (rev (map fst (opened logs))) rs"
    assume tr: "calls (xworld x) = calls w1 @ logs @ ?closes @ ds @ [CWatchStop]"
      "if stage = BUILD then \<exists>a. ds = [CPodDelete (pod_name created) a] else ds = []"
      "sent (xworld x) = sent w1 @ map snd ms" "of_log None ms = failure_reports (logs @ ?closes @ ds)"
      "from_logs ms (fst ` set (opened logs))"
      "pod_ended r \<Longrightarrow> \<forall>(c, lines) \<in> set (opened logs). of_log (Some c) ms = lines"
    let ?new = "refs @ logs @ ?closes @ ds @ [CWatchStop]"
    have "opened ds = []" using tr(2) by (auto split: if_splits)
    then have op: "opened ?new = opened logs" using refs(2) by (simp add: opened_closes)
    have "calls w' = calls w @ ?new" using refs(1) tr(1) looped(4) by simp
    moreover have "sent w' = sent w @ map snd ms"
      using tr(3) looped(4) exec_setup_ok(1) [OF looped(1)] by simp
    moreover have "of_log None ms = failure_reports ?new" using tr(4) refs(3) by simp
    moreover have "\<exists>p f st. CPodLogs p c f (Inr st) \<in> set ?new" if tag: "Some c \<in> fst ` set ms" for c
    proof -
      have "c \<in> fst ` set (opened logs)" using tr(5) tag by (auto simp: from_logs_def)
      then obtain ls where "(c, ls) \<in> set (opened ?new)" unfolding op by force
      then show ?thesis by (rule opened_call)
    qed
    moreover have "of_log (Some c) ms = expected_log c ls rest err"
      if "CPodLogs p c f (Inr (log_bytes ls rest, err)) \<in> set ?new" "list_all plain_line ls" "plain_line rest"
      for p c f ls rest err
    proof -
      have "(c, streamLogs c (log_bytes ls rest, err)) \<in> set (opened logs)"
        using call_opened [OF that(1)] unfolding op .
      moreover have "\<forall>(c, lines) \<in> set (opened logs). of_log (Some c) ms = lines"
        using tr(6) assms(2) by (simp add: pod_ended_def)
      ultimately show ?thesis using streamLogs_expected [OF that(2,3)] by auto
    qed
    ultimately show ?thesis by blast
  qed
qed

theorem executePod_logs_complete_witness:
  "\<exists>ms. sent sample_end = sent sample_world @ map snd ms \<and> of_log None ms = [] \<and>
     of_log (Some ''upload'') ms = [''upload: one'' @ [newline], ''upload: two'' @ [newline]]"
proof -
  let ?ls = "[(''one'', False), (''two'', False)]" and ?rest = "([], False)"
  have b: "log_bytes ?ls ?rest = ''one'' @ [newline] @ ''two'' @ [newline]"
    by (simp add: log_bytes_def raw_line_def newline_def)
  have p: "list_all plain_line ?ls" "plain_line ?rest" by (simp_all add: plain_line_def)
  obtain ms new where m: "calls sample_end = calls sample_world @ new" "sent sample_end = sent sample_world @ map snd ms"
      "of_log None ms = failure_reports new"
      "\<forall>p c f ls rest err. CPodLogs p c f (Inr (log_bytes ls rest, err)) \<in> set new \<and>
         list_all plain_line ls \<and> plain_line rest \<longrightarrow> of_log (Some c) ms = expected_log c ls rest err"
    using executePod_logs_complete [OF sample_build] by (auto simp: sample_sched_def)
  have n: "new = calls sample_end" using m(1) by (simp add: sample_world_def)
  have "CPodLogs ''chaincode-build-1'' ''upload'' True (Inr (log_bytes ?ls ?rest, None)) \<in> set new"
    by (simp only: n b) (simp add: sample_end_def sample_logs_def)
  then have "of_log (Some ''upload'') ms = expected_log ''upload'' ?ls ?rest None" using m(4) p by blast
  then show ?thesis using m(2,3) n
    by (intro exI [of _ ms]) (simp add: expected_log_def line_message_def raw_line_def newline_def sample_end_def sample_logs_def)
qed

text \<open>
  What the exception means: of a log with a line of 64 KiB, followed by any other lines, only the
  lines before it and the message about it are sent.
\<close>

lemma long_line_lost:
  assumes "list_all plain_line ls" and "list_all (\<lambda>l. length (raw_line l) < 65536) ls" and "plain_line l"
    and "65536 \<le> length (raw_line l)" and "list_all plain_line later" and "plain_line rest"
  shows "streamLogs c (log_bytes (ls @ l # later) rest, err) = map (line_message c) ls @
    [c @ '': scanning log lines failed: bufio.Scanner: token too long'' @ [CHR 0x0A]]"
proof -
  have "list_all plain_line (ls @ l # later)" using assms by simp
  moreover have "takeWhile (\<lambda>l. length (raw_line l) < 65536) (ls @ l # later @ zs) = ls" for zs
    using assms(2,4) by (simp add: takeWhile_tail list_all_iff takeWhile_append2)
  ultimately show ?thesis
    using assms(4,6) by (simp add: streamLogs_expected expected_log_def)
qed

text \<open>An execution succeeds only if the pod did: the watch reported the phase
  Succeeded, no earlier event had ended the pod, and after that event only log goroutines ran until
  all of them were done. The same holds for the error of a failed pod with the phase Failed.\<close>

lemma executePod_success_phase:
  assumes "executePod kc pod stage opts sched w = Some (r, w')" and "r = Inr () \<or> r = pod_failed" and "sched \<noteq> []"
  shows "\<exists>pre l post. sched = pre @ l # post @ [WaitDone] \<and>
    end_phase l = Some (if r = Inr () then PodSucceeded else PodFailed) \<and>
    list_all (\<lambda>k. end_phase k = None) pre \<and> list_all is_log_step post"
  using assms(1)
proof (cases rule: executePod_cases)
  case (failed e)
  then show ?thesis using assms(3) by simp
next
  case (looped created w1 x)
  have ph: "end_phase l = Some ph \<Longrightarrow> ph = PodFailed \<or> ph = PodSucceeded" for l ph
    by (cases l rule: end_phase.cases) (auto split: if_splits)
  obtain pre l post p where "sched = pre @ l # post @ [WaitDone]" "end_phase l = Some p"
      "list_all (\<lambda>k. end_phase k = None) pre" "list_all is_log_step post"
      "r = (if p = PodFailed then pod_failed else Inr ())"
    using exec_run_looping [OF looped(2) _ looped(3)] assms(2)
    by (auto simp: start_exec_def pod_ended_def)
  then show ?thesis using ph [of l p]
    by (intro exI [of _ pre] exI [of _ l] exI [of _ post]) (auto simp: pod_failed_def)
qed

text \<open>Property C19: an execution always gets to its end once the pod ends. From any point the loop
  can be at, an event with the phase Succeeded or Failed, followed by the goroutines sending what
  is left of their logs, makes the function return, with success exactly when the phase was
  Succeeded.\<close>

theorem executePod_returns:
  assumes "exec_setup kc pod stage opts w = (Inr created, w1)"
    and "exec_run kc stage (pod_name created) sched (start_exec w1) = Some x" and "xpc x = Looping"
    and "end_phase l = Some ph"
  shows "\<exists>post w'. list_all is_log_step post \<and>
    executePod kc pod stage opts (sched @ l # post @ [WaitDone]) w =
      Some (if ph = PodFailed then pod_failed else Inr (), w')"
proof -
  obtain post y where "list_all is_log_step post"
      "exec_run kc stage (pod_name created) (sched @ l # post @ [WaitDone]) (start_exec w1) = Some y"
      "xpc y = Returned (if ph = PodFailed then pod_failed else Inr ())"
    using reach_end_returns [OF assms(2-4)] by blast
  then show ?thesis using assms(1) by (intro exI [of _ post]) (simp add: executePod_def)
qed

theorem executePod_returns_witness:
  "\<exists>post w'. list_all is_log_step post \<and>
    executePod sample_kube (sample_pod PodRunning) BUILD None
      ([Watch (Some (Added (sample_pod PodRunning)))] @ Watch (Some (Modified (sample_pod PodFailed))) # post @ [WaitDone])
      sample_world = Some (pod_failed, w')"
proof -
  obtain w1 where w1: "exec_setup sample_kube (sample_pod PodRunning) BUILD None sample_world = (Inr (sample_pod PodRunning), w1)"
    by (simp add: exec_setup_def api_def sample_kube_def sample_world_def)
  let ?x = "pod_event sample_kube (sample_pod PodRunning) (start_exec w1)"
  have "xpc ?x = Looping" by (simp add: pod_event_pc start_exec_def sample_pod_def)
  then show ?thesis
    using executePod_returns [OF w1, of "[Watch (Some (Added (sample_pod PodRunning)))]" ?x
        "Watch (Some (Modified (sample_pod PodFailed)))" PodFailed]
    by (simp add: start_exec_def sample_pod_def)
qed

end
