(* ===== verification/Sidecar.thy ===== *)
theory Sidecar
  imports KubeTypes
begin

text \<open>
  The messages of \<^verbatim>\<open>pkg/sidecar\<close> that the client commands and the server exchange, their
  accessors, and the generated client stubs over a gRPC connection, which is a parameter. The wire
  encoding belongs to the protobuf library and is not modelled; \<^verbatim>\<open>Descriptor\<close> has what the code says
  about its messages.
\<close>

section \<open>Messages\<close>

record BuildRequest =
  brSourcePath :: string
  brMetadataPath :: string
  brOutputPath :: string

record RunRequest =
  rrChaincodePath :: string
  rrMetadataPath :: string
  rrArtifactsPath :: string

text \<open>The alternatives of \<^verbatim>\<open>BuildResponse.Message\<close> and \<^verbatim>\<open>RunResponse.Message\<close>.\<close>

datatype response_message = StandardOut string | StandardError string

record BuildResponse =
  bpMessage :: "response_message option"

record RunResponse =
  rpMessage :: "response_message option"

text \<open>The accessors take a pointer and answer the zero value for nil.\<close>

definition get_field :: "('r \<Rightarrow> string) \<Rightarrow> 'r option \<Rightarrow> string" where
  "get_field f m = (case m of Some r \<Rightarrow> f r | None \<Rightarrow> [])"

definition GetSourcePath :: "BuildRequest option \<Rightarrow> string" where
  "GetSourcePath = get_field brSourcePath"

definition GetMetadataPath :: "BuildRequest option \<Rightarrow> string" where
  "GetMetadataPath = get_field brMetadataPath"

definition GetOutputPath :: "BuildRequest option \<Rightarrow> string" where
  "GetOutputPath = get_field brOutputPath"

definition GetChaincodePath :: "RunRequest option \<Rightarrow> string" where
  "GetChaincodePath = get_field rrChaincodePath"

definition Run_GetMetadataPath :: "RunRequest option \<Rightarrow> string" where
  "Run_GetMetadataPath = get_field rrMetadataPath"

definition GetArtifactsPath :: "RunRequest option \<Rightarrow> string" where
  "GetArtifactsPath = get_field rrArtifactsPath"

definition GetMessage :: "BuildResponse option \<Rightarrow> response_message option" where
  "GetMessage m = (case m of Some r \<Rightarrow> bpMessage r | None \<Rightarrow> None)"

definition GetStandardOut :: "BuildResponse option \<Rightarrow> string" where
  "GetStandardOut m = (case GetMessage m of Some (StandardOut x) \<Rightarrow> x | _ \<Rightarrow> [])"

definition GetStandardError :: "BuildResponse option \<Rightarrow> string" where
  "GetStandardError m = (case GetMessage m of Some (StandardError x) \<Rightarrow> x | _ \<Rightarrow> [])"

definition Run_GetMessage :: "RunResponse option \<Rightarrow> response_message option" where
  "Run_GetMessage m = (case m of Some r \<Rightarrow> rpMessage r | None \<Rightarrow> None)"

definition Run_GetStandardOut :: "RunResponse option \<Rightarrow> string" where
  "Run_GetStandardOut m = (case Run_GetMessage m of Some (StandardOut x) \<Rightarrow> x | _ \<Rightarrow> [])"

definition Run_GetStandardError :: "RunResponse option \<Rightarrow> string" where
  "Run_GetStandardError m = (case Run_GetMessage m of Some (StandardError x) \<Rightarrow> x | _ \<Rightarrow> [])"

section \<open>Client stubs\<close>

text \<open>
  What a gRPC stream does for a client: opening it, sending the request and closing the sending
  side may fail; the answer is a list of responses and then an error, \<^verbatim>\<open>io.EOF\<close> at the end.
  While it answers, the other side acts on what the two share, of type \<open>'s\<close>.
\<close>

record ('q, 'p, 's) grpc_conn =
  newStream :: "string \<Rightarrow> nilerr"
  sendMsg :: "'q \<Rightarrow> nilerr"
  closeSend :: nilerr
  answers :: "'q \<Rightarrow> 's \<Rightarrow> ('p list \<times> gerror) \<times> 's"

definition open_stream :: "string \<Rightarrow> ('q, 'p, 's) grpc_conn \<Rightarrow> 'q \<Rightarrow> 's \<Rightarrow> ('p list \<times> gerror) result \<times> 's" where
  "open_stream method c req s =
     (case newStream c method of
        Some e \<Rightarrow> (Inl e, s)
      | None \<Rightarrow>
          (case sendMsg c req of
             Some e \<Rightarrow> (Inl e, s)
           | None \<Rightarrow>
               (case closeSend c of
                  Some e \<Rightarrow> (Inl e, s)
                | None \<Rightarrow> (case answers c req s of (a, s') \<Rightarrow> (Inr a, s')))))"

definition client_Build :: "(BuildRequest, BuildResponse, 's) grpc_conn \<Rightarrow> BuildRequest \<Rightarrow> 's \<Rightarrow>
    (BuildResponse list \<times> gerror) result \<times> 's" where
  "client_Build = open_stream ''/sidecar.Builder/Build''"

definition client_Run :: "(RunRequest, RunResponse, 's) grpc_conn \<Rightarrow> RunRequest \<Rightarrow> 's \<Rightarrow>
    (RunResponse list \<times> gerror) result \<times> 's" where
  "client_Run = open_stream ''/sidecar.Runner/Run''"

text \<open>\<^verbatim>\<open>Recv\<close>: the next response and the rest of the stream, or the error that ends it.\<close>

fun client_Recv :: "'p list \<times> gerror \<Rightarrow> gerror + ('p \<times> ('p list \<times> gerror))" where
  "client_Recv ([], e) = Inl e"
| "client_Recv (m # ms, e) = Inr (m, (ms, e))"

section \<open>Server stubs\<close>

text \<open>
  The generated side of the server. A stream hands out the request with \<^verbatim>\<open>RecvMsg\<close> and takes
  responses with \<^verbatim>\<open>SendMsg\<close>; both are the library's and act on the stream's state \<open>'st\<close>.
\<close>

definition Builder_Build_Handler :: "('st \<Rightarrow> BuildRequest result \<times> 'st) \<Rightarrow> (BuildRequest \<Rightarrow> 'st \<Rightarrow> nilerr \<times> 'st) \<Rightarrow>
    'st \<Rightarrow> nilerr \<times> 'st" where
  "Builder_Build_Handler recvMsg srv stream = (case recvMsg stream of
      (Inl e, stream') \<Rightarrow> (Some e, stream') | (Inr m, stream') \<Rightarrow> srv m stream')"

definition Runner_Run_Handler :: "('st \<Rightarrow> RunRequest result \<times> 'st) \<Rightarrow> (RunRequest \<Rightarrow> 'st \<Rightarrow> nilerr \<times> 'st) \<Rightarrow>
    'st \<Rightarrow> nilerr \<times> 'st" where
  "Runner_Run_Handler recvMsg srv stream = (case recvMsg stream of
      (Inl e, stream') \<Rightarrow> (Some e, stream') | (Inr m, stream') \<Rightarrow> srv m stream')"

definition builderBuildServer_Send :: "(BuildResponse \<Rightarrow> 'st \<Rightarrow> nilerr \<times> 'st) \<Rightarrow> BuildResponse \<Rightarrow> 'st \<Rightarrow> nilerr \<times> 'st" where
  "builderBuildServer_Send stream_SendMsg m stream = stream_SendMsg m stream"

definition runnerRunServer_Send :: "(RunResponse \<Rightarrow> 'st \<Rightarrow> nilerr \<times> 'st) \<Rightarrow> RunResponse \<Rightarrow> 'st \<Rightarrow> nilerr \<times> 'st" where
  "runnerRunServer_Send stream_SendMsg m stream = stream_SendMsg m stream"

definition UnimplementedBuilderServer_Build :: "BuildRequest \<Rightarrow> nilerr" where
  "UnimplementedBuilderServer_Build req = Some (StatusError Unimplemented ''method Build not implemented'')"

definition UnimplementedRunnerServer_Run :: "RunRequest \<Rightarrow> nilerr" where
  "UnimplementedRunnerServer_Run req = Some (StatusError Unimplemented ''method Run not implemented'')"

text \<open>
  What the generated code registers with a gRPC server: the name of the service and of its stream, and
  that the server streams. The library calls the handler for requests to the path made of the two names.
\<close>

record service_desc =
  ServiceName :: string
  Streams :: "(string \<times> bool) list"

definition Builder_serviceDesc :: service_desc where
  "Builder_serviceDesc = \<lparr>ServiceName = ''sidecar.Builder'', Streams = [(''Build'', True)]\<rparr>"

definition Runner_serviceDesc :: service_desc where
  "Runner_serviceDesc = \<lparr>ServiceName = ''sidecar.Runner'', Streams = [(''Run'', True)]\<rparr>"

definition RegisterBuilderServer :: "(service_desc \<Rightarrow> 'srv \<Rightarrow> 'g \<Rightarrow> 'g) \<Rightarrow> 'g \<Rightarrow> 'srv \<Rightarrow> 'g" where
  "RegisterBuilderServer RegisterService s srv = RegisterService Builder_serviceDesc srv s"

definition RegisterRunnerServer :: "(service_desc \<Rightarrow> 'srv \<Rightarrow> 'g \<Rightarrow> 'g) \<Rightarrow> 'g \<Rightarrow> 'srv \<Rightarrow> 'g" where
  "RegisterRunnerServer RegisterService s srv = RegisterService Runner_serviceDesc srv s"

definition full_methods :: "service_desc \<Rightarrow> string list" where
  "full_methods desc = map (\<lambda>(stream, _). ''/'' @ ServiceName desc @ ''/'' @ stream) (Streams desc)"

text \<open>The stubs of the client open the streams that the server registers.\<close>

lemma stubs_open_registered_methods:
  "client_Build = open_stream (hd (full_methods Builder_serviceDesc))"
  "client_Run = open_stream (hd (full_methods Runner_serviceDesc))"
  by (simp_all add: client_Build_def client_Run_def full_methods_def Builder_serviceDesc_def Runner_serviceDesc_def)

text \<open>\<^verbatim>\<open>Reset\<close> makes a message the zero message of its type.\<close>

definition BuildRequest_Reset :: "BuildRequest \<Rightarrow> BuildRequest" where
  "BuildRequest_Reset m = \<lparr>brSourcePath = [], brMetadataPath = [], brOutputPath = []\<rparr>"

definition RunRequest_Reset :: "RunRequest \<Rightarrow> RunRequest" where
  "RunRequest_Reset m = \<lparr>rrChaincodePath = [], rrMetadataPath = [], rrArtifactsPath = []\<rparr>"

definition BuildResponse_Reset :: "BuildResponse \<Rightarrow> BuildResponse" where
  "BuildResponse_Reset m = \<lparr>bpMessage = None\<rparr>"

definition RunResponse_Reset :: "RunResponse \<Rightarrow> RunResponse" where
  "RunResponse_Reset m = \<lparr>rpMessage = None\<rparr>"

lemmas sidecar_defs [go_defs] = get_field_def GetSourcePath_def GetMetadataPath_def GetOutputPath_def
  GetChaincodePath_def Run_GetMetadataPath_def GetArtifactsPath_def GetMessage_def GetStandardOut_def
  GetStandardError_def Run_GetMessage_def Run_GetStandardOut_def Run_GetStandardError_def
  open_stream_def client_Build_def client_Run_def

end
