(* ===== verification/ServerHandlers.thy ===== *)
theory ServerHandlers
  imports ExecutePodProofs Sidecar
begin

text \<open>
  The gRPC handlers of \<^verbatim>\<open>server.go\<close>: \<^verbatim>\<open>Build\<close> and \<^verbatim>\<open>Run\<close>. A handler acts on the file
  system and environment of the process, on the cluster and on the response stream; the schedule is
  that of the pod execution it contains, and is empty when the handler does not get that far.
\<close>

section \<open>Handlers\<close>

definition early :: "step list \<Rightarrow> 'a \<Rightarrow> 'a option" where
  "early sched r = (if sched = [] then Some r else None)"

fun build_status :: "unit result \<Rightarrow> unit outcome" where
  "build_status (Inl e) = Err (StatusError Unknown (''build failed: '' @ error_text e))"
| "build_status (Inr _) = Ok ()"

fun run_status :: "unit result \<Rightarrow> unit outcome" where
  "run_status (Inl e) = Err (StatusError Unknown (''run failed: '' @ error_text e))"
| "run_status (Inr _) = Ok ()"

definition Build :: "'k kube \<Rightarrow> Server \<Rightarrow> 8 word list option \<Rightarrow> step list \<Rightarrow> BuildRequest \<Rightarrow> os \<Rightarrow> 'k world \<Rightarrow>
    (unit outcome \<times> os \<times> 'k world) option" where
  "Build kc b rnd sched req s w =
     (case extractChaincodeMetadata b (brMetadataPath req) s of
        (Panic p, s') \<Rightarrow> early sched (Panic p, s', w)
      | (Err e, s') \<Rightarrow>
          early sched (Err (StatusError InvalidArgument (''failed to read metadata: '' @ error_text e)), s', w)
      | (Ok metadata, s') \<Rightarrow>
          (case buildContainerDefinition b metadata of
             Panic p \<Rightarrow> early sched (Panic p, s', w)
           | Err e \<Rightarrow>
               early sched (Err (StatusError InvalidArgument (''unable to generate build container: '' @ error_text e)), s', w)
           | Ok buildContainer \<Rightarrow>
               (let peerPodName = getenv s' ''PEER_POD_NAME'';
                    peerPodUID = getenv s' ''PEER_POD_UID'' in
                if peerPodName = [] then
                  early sched (Err (StatusError Unknown ''failed to get peer pod name, env var not passed''), s', w)
                else if peerPodUID = [] then
                  early sched (Err (StatusError Unknown ''failed to get peer pod uid, env var not passed''), s', w)
                else
                  (case buildPodDefinition b rnd buildContainer (brSourcePath req) (brOutputPath req) peerPodName peerPodUID of
                     Panic p \<Rightarrow> early sched (Panic p, s', w)
                   | Err e \<Rightarrow> early sched (Err e, s', w)
                   | Ok pod \<Rightarrow> map_option (\<lambda>(r, w'). (build_status r, s', w')) (executePod kc pod BUILD None sched w)))))"

text \<open>The part of \<^verbatim>\<open>Run\<close> after the secret has been created.\<close>

definition run_with_secret :: "'k kube \<Rightarrow> Server \<Rightarrow> step list \<Rightarrow> RunRequest \<Rightarrow> chaincodeMetadata \<Rightarrow> runMetadata \<Rightarrow>
    string \<Rightarrow> os \<Rightarrow> 'k world \<Rightarrow> (unit outcome \<times> 'k world) option" where
  "run_with_secret kc b sched req metadata rmd uuid s w =
     (case runContainerDefinition (getenv s) b (mdType metadata) rmd of
        Panic p \<Rightarrow> early sched (Panic p, w)
      | Err e \<Rightarrow>
          early sched (Err (StatusError InvalidArgument (''unable to generate run container: '' @ error_text e)), w)
      | Ok runContainer \<Rightarrow>
          (let peerPodName = getenv s ''PEER_POD_NAME'';
               peerPodUID = getenv s ''PEER_POD_UID'' in
           if peerPodName = [] then
             early sched (Err (StatusError Unknown ''failed to get peer pod name, env var not passed''), w)
           else if peerPodUID = [] then
             early sched (Err (StatusError Unknown ''failed to get peer pod UID, env var not passed''), w)
           else
             (case runPodDefinition kc b runContainer rmd (rrChaincodePath req) uuid peerPodName peerPodUID w of
                (Panic p, w') \<Rightarrow> early sched (Panic p, w')
              | (Err e, w') \<Rightarrow> early sched (Err e, w')
              | (Ok pod, w') \<Rightarrow>
                  map_option (\<lambda>(r, w''). (run_status r, w'')) (executePod kc pod RUN (Some uuid) sched w'))))"

text \<open>
  The deferred function of \<^verbatim>\<open>Run\<close>: it runs on every way out, a panic included, and an error of
  the deletion replaces the handler's result.
\<close>

definition deferred_delete :: "'k kube \<Rightarrow> string \<Rightarrow> unit outcome \<times> 'k world \<Rightarrow> unit outcome \<times> 'k world" where
  "deferred_delete kc uuid rw =
     (case deleteCryptoSecret kc uuid (snd rw) of
        (Some deleteErr, w') \<Rightarrow> (case fst rw of Panic p \<Rightarrow> Panic p | _ \<Rightarrow> Err deleteErr, w')
      | (None, w') \<Rightarrow> (fst rw, w'))"

definition Run :: "'k kube \<Rightarrow> Server \<Rightarrow> 8 word list option \<Rightarrow> step list \<Rightarrow> RunRequest \<Rightarrow> os \<Rightarrow> 'k world \<Rightarrow>
    (unit outcome \<times> os \<times> 'k world) option" where
  "Run kc b rnd sched req s w =
     (case extractChaincodeMetadata b (rrMetadataPath req) s of
        (Panic p, s1) \<Rightarrow> early sched (Panic p, s1, w)
      | (Err e, s1) \<Rightarrow>
          early sched (Err (StatusError InvalidArgument (''failed to read chaincode metadata: '' @ error_text e)), s1, w)
      | (Ok metadata, s1) \<Rightarrow>
          (if mdType metadata = ''external'' then early sched (Ok (), s1, w)
           else (case readRunMetadata b (rrArtifactsPath req) s1 of
             (Panic p, s2) \<Rightarrow> early sched (Panic p, s2, w)
           | (Err e, s2) \<Rightarrow>
               early sched (Err (StatusError Unknown (''failed to extract run metadata: '' @ error_text e)), s2, w)
           | (Ok rmd, s2) \<Rightarrow>
               (case UUID rnd of
                  Panic p \<Rightarrow> early sched (Panic p, s2, w)
                | Err e \<Rightarrow> early sched (Err e, s2, w)
                | Ok uuid \<Rightarrow>
                    (case createCryptoSecret kc rmd uuid w of
                       (Some e, w1) \<Rightarrow>
                         early sched (Err (StatusError InvalidArgument (''unable to create crypto secret: '' @ error_text e)), s2, w1)
                     | (None, w1) \<Rightarrow>
                         map_option (\<lambda>rw. (case deferred_delete kc uuid rw of (r, w') \<Rightarrow> (r, s2, w')))
                           (run_with_secret kc b sched req metadata rmd uuid s2 w1))))))"

lemmas handler_defs [go_defs] = early_def Build_def run_with_secret_def deferred_delete_def Run_def

section \<open>What the helpers leave unchanged\<close>

lemma early_Some [simp]: "early sched r = Some r' \<longleftrightarrow> sched = [] \<and> r' = r"
  by (auto simp: early_def)

lemma reads_state [simp]:
  "snd (os_Open p s) = s" "snd (read_handle p k s) = s" "snd (ioutil_ReadFile p s) = s"
  by (auto simp: os_Open_def with_key_def lookup_key_def read_handle_def ioutil_ReadFile_def seq_def
      split: option.splits outcome.splits prod.splits if_splits)

lemma seq_state: "snd (m s) = s \<Longrightarrow> (\<And>a. snd (f a s) = s) \<Longrightarrow> snd (seq m f s) = s"
  by (cases "m s") (auto simp: seq_def split: outcome.splits)

lemma extractChaincodeMetadata_state: "snd (extractChaincodeMetadata b p s) = s"
  by (auto simp: extractChaincodeMetadata_def Let_def intro!: seq_state)

lemma readRunMetadata_state: "snd (readRunMetadata b p s) = s"
  by (auto simp: readRunMetadata_def Let_def intro!: seq_state)

lemma UUID_cases: "(\<exists>u. UUID rnd = Ok u) \<or> (\<exists>p. UUID rnd = Panic p)"
  by (cases "UUID rnd") (auto simp: UUID_def split: option.splits if_splits)

lemma urlJoin_cases: "(\<exists>u. urlJoin base p = Ok u) \<or> (\<exists>q. urlJoin base p = Panic q)"
  by (cases "urlJoin base p") (auto simp: urlJoin_def split: option.splits sum.splits outcome.splits)

lemma buildPodDefinition_cases:
  obtains (ok) a su ou uuid where "Auth b = Some a" "urlJoin (FSBaseURL b) src = Ok su"
      "urlJoin (FSBaseURL b) out = Ok ou" "UUID rnd = Ok uuid"
      "buildPodDefinition b rnd c src out n u = Ok (build_pod b a c su ou uuid n u)"
  | (panic) q where "buildPodDefinition b rnd c src out n u = Panic q"
  using urlJoin_cases [of "FSBaseURL b" src] urlJoin_cases [of "FSBaseURL b" out] UUID_cases [of rnd]
  by (cases "Auth b") (auto simp: buildPodDefinition_def intro: ok panic)

lemma runPodDefinition_cases:
  obtains (ok) a cu where "Auth b = Some a" "urlJoin (FSBaseURL b) p = Ok cu"
      "runPodDefinition kc b c rmd p uuid n u w =
        (Ok (run_pod b a (fst (hasZoneLabels kc w)) c rmd cu uuid n u), snd (hasZoneLabels kc w))"
  | (panic) q w' where "runPodDefinition kc b c rmd p uuid n u w = (Panic q, w')"
      "w' = w \<or> w' = snd (hasZoneLabels kc w)"
  using urlJoin_cases [of "FSBaseURL b" p]
  by (cases "Auth b"; cases "hasZoneLabels kc w") (auto simp: runPodDefinition_def intro: ok panic)

lemma hasZoneLabels_calls:
  "\<exists>ns. calls (snd (hasZoneLabels kc w)) = calls w @ ns \<and> (ns = [] \<or> (\<exists>a. ns = [CNodeList a]))"
  "sent (snd (hasZoneLabels kc w)) = sent w"
  by (auto simp: hasZoneLabels_def api_def split: option.splits prod.splits sum.splits)

lemma buildContainerDefinition_cases:
  "(\<exists>c. buildContainerDefinition b md = Ok c \<and> to_lower (mdType md) \<in> {''golang'', ''java'', ''node'', ''executable''}) \<or>
   (\<exists>m. buildContainerDefinition b md = Err (ErrMsg m) \<and> to_lower (mdType md) \<notin> {''golang'', ''java'', ''node'', ''executable''})"
  by (simp add: buildContainerDefinition_def Let_def)

section \<open>The ways a build request ends\<close>

definition build_accepted :: "Server \<Rightarrow> BuildRequest \<Rightarrow> os \<Rightarrow> bool" where
  "build_accepted b req s \<longleftrightarrow>
     ''..'' \<notin> set (slash_split (brMetadataPath req)) \<and>
     (\<exists>md. fst (extractChaincodeMetadata b (brMetadataPath req) s) = Ok md \<and>
        to_lower (mdType md) \<in> {''golang'', ''java'', ''node'', ''executable''}) \<and>
     getenv s ''PEER_POD_NAME'' \<noteq> [] \<and> getenv s ''PEER_POD_UID'' \<noteq> []"

lemma extract_Ok_path: "fst (extractChaincodeMetadata b p s) = Ok md \<Longrightarrow> ''..'' \<notin> set (slash_split p)"
  by (auto simp: extractChaincodeMetadata_def containsDotDot_iff split: if_splits)

lemma Build_cases:
  assumes "Build kc b rnd sched req s w = Some (r, s', w')"
  obtains (rejected) c m where "r = Err (StatusError c m)" "w' = w" "sched = []" "\<not> build_accepted b req s"
  | (panicked) q where "r = Panic q" "w' = w" "sched = []"
  | (executed) a c su ou uuid r0 where "build_accepted b req s" "Auth b = Some a"
      "urlJoin (FSBaseURL b) (brSourcePath req) = Ok su" "urlJoin (FSBaseURL b) (brOutputPath req) = Ok ou"
      "UUID rnd = Ok uuid"
      "executePod kc (build_pod b a c su ou uuid (getenv s ''PEER_POD_NAME'') (getenv s ''PEER_POD_UID'')) BUILD None sched w =
        Some (r0, w')" "r = build_status r0"
proof -
  obtain x where x: "extractChaincodeMetadata b (brMetadataPath req) s = (x, s)"
    using extractChaincodeMetadata_state [of b "brMetadataPath req" s]
    by (cases "extractChaincodeMetadata b (brMetadataPath req) s") auto
  show ?thesis
  proof (cases x)
    case (Err e)
    then show ?thesis using assms x rejected by (auto simp: Build_def build_accepted_def)
  next
    case (Panic q)
    then show ?thesis using assms x panicked by (auto simp: Build_def)
  next
    case (Ok md)
    have dots: "''..'' \<notin> set (slash_split (brMetadataPath req))" using extract_Ok_path [of b "brMetadataPath req" s md] x Ok by simp
    show ?thesis
    proof (cases "build_accepted b req s")
      case False
      then have "\<exists>c m. r = Err (StatusError c m) \<and> w' = w \<and> sched = []"
        using assms x Ok dots buildContainerDefinition_cases [of b md]
        by (auto simp: Build_def build_accepted_def Let_def split: if_splits)
      then show ?thesis using rejected False by blast
    next
      case True
      then obtain c where c: "buildContainerDefinition b md = Ok c"
        using buildContainerDefinition_cases [of b md] x Ok by (auto simp: build_accepted_def)
      show ?thesis
      proof (cases rule: buildPodDefinition_cases [of b "brSourcePath req" "brOutputPath req" rnd c
            "getenv s ''PEER_POD_NAME''" "getenv s ''PEER_POD_UID''"])
        case (ok a su ou uuid)
        have "\<exists>r0. executePod kc (build_pod b a c su ou uuid (getenv s ''PEER_POD_NAME'') (getenv s ''PEER_POD_UID''))
            BUILD None sched w = Some (r0, w') \<and> r = build_status r0"
          using ok assms x Ok c True by (auto simp: Build_def build_accepted_def Let_def)
        then show ?thesis using executed True ok by blast
      next
        case (panic q)
        then show ?thesis using assms x Ok c True
          by (auto simp: Build_def build_accepted_def Let_def intro: panicked)
      qed
    qed
  qed
qed

end
