(* ===== verification/ServerProps.thy ===== *)
theory ServerProps
  imports ServerHandlers
begin

text \<open>
  Properties of the two gRPC handlers: which requests reach the cluster, what a successful build
  has done, and the life of the crypto secret of a run, on every path through the handlers.
\<close>

section \<open>The ways a run request ends\<close>

text \<open>
  The calls a run makes between creating and cleaning up its secret: it creates no other secret,
  deletes nothing, and a pod it creates is the one named after the run that mounts the run's secret.
\<close>

fun run_call :: "string \<Rightarrow> kcall \<Rightarrow> bool" where
  "run_call uuid (CPodCreate pod _) =
     (pod_name pod = ''chaincode-execution-'' @ uuid \<and>
      SecretVolume (secret_name uuid) \<in> volSource ` set (psVolumes (podSpec pod)))"
| "run_call uuid (CSecretUpdate sec _) =
     (\<exists>owner old. sec = owned_secret owner old)"
| "run_call uuid (CSecretGet name _) = (name = secret_name uuid)"
| "run_call uuid (CSecretCreate _ _) = False"
| "run_call uuid (CSecretDelete _ _) = False"
| "run_call uuid (CPodDelete _ _) = False"
| "run_call uuid (CPodList _ _) = False"
| "run_call uuid _ = True"

text \<open>
  The calls that end a run: the secret is looked up, and it is deleted when the lookup finds it
  without an owner. A lookup that fails, for whatever reason, and an owner end the clean-up.
\<close>

definition secret_cleanup :: "string \<Rightarrow> kcall list \<Rightarrow> bool" where
  "secret_cleanup name t \<longleftrightarrow>
     (\<exists>e. t = [CSecretGet name (Inl e)]) \<or>
     (\<exists>sec. t = [CSecretGet name (Inr sec)] \<and> omOwnerReferences (secMeta sec) \<noteq> []) \<or>
     (\<exists>sec d. t = [CSecretGet name (Inr sec), CSecretDelete name d] \<and> omOwnerReferences (secMeta sec) = [])"

lemma deleteCryptoSecret_calls:
  "\<exists>t. calls (snd (deleteCryptoSecret kc uuid w)) = calls w @ t \<and> secret_cleanup (secret_name uuid) t"
  by (auto simp: deleteCryptoSecret_def api_def secret_cleanup_def split: prod.splits sum.splits if_splits)

lemma exec_setup_run_calls:
  assumes "pod_name pod = ''chaincode-execution-'' @ uuid"
    "SecretVolume (secret_name uuid) \<in> volSource ` set (psVolumes (podSpec pod))"
  shows "\<exists>t. calls (snd (exec_setup kc pod RUN (Some uuid) w)) = calls w @ t \<and> list_all (run_call uuid) t"
  using assms
  by (auto simp: exec_setup_def addControllerReferenceToCryptoSecret_def api_def watch_selector_def
      split: prod.splits sum.splits)

lemma is_log_call_run_call: "list_all is_log_call t \<Longrightarrow> list_all (run_call uuid) t"
proof -
  have "is_log_call c \<Longrightarrow> run_call uuid c" for c by (cases c) auto
  then show "list_all is_log_call t \<Longrightarrow> list_all (run_call uuid) t" by (auto simp: list_all_iff)
qed

lemma executePod_run_calls:
  assumes "executePod kc pod RUN (Some uuid) sched w = Some (r, w')"
    and "pod_name pod = ''chaincode-execution-'' @ uuid"
    and "SecretVolume (secret_name uuid) \<in> volSource ` set (psVolumes (podSpec pod))"
  shows "\<exists>t. calls w' = calls w @ t \<and> list_all (run_call uuid) t"
  using assms(1)
proof (cases rule: executePod_cases)
  case (failed e)
  then show ?thesis using exec_setup_run_calls [OF assms(2,3), of kc w] by simp
next
  case (looped created w1 x)
  obtain logs rs where "calls w' = calls w1 @ logs @ map2 CLogClose (rev (map fst (opened logs))) rs @ [CWatchStop]"
      "list_all is_log_call logs"
    using returned_calls [OF looped(5)] looped(4) by auto
  moreover have "list_all (run_call uuid) (map2 CLogClose ns rs)" for ns rs
    by (auto simp: list_all_iff)
  ultimately show ?thesis
    using exec_setup_run_calls [OF assms(2,3), of kc w] looped(1) is_log_call_run_call by auto
qed

lemma run_with_secret_calls:
  assumes "run_with_secret kc b sched req md rmd uuid s w = Some (r, w')"
  shows "\<exists>t. calls w' = calls w @ t \<and> list_all (run_call uuid) t"
proof (cases "w' = w")
  case False
  then obtain c where c: "runContainerDefinition (getenv s) b (mdType md) rmd = Ok c"
    using assms by (auto simp: run_with_secret_def split: outcome.splits)
  let ?n = "getenv s ''PEER_POD_NAME''" and ?u = "getenv s ''PEER_POD_UID''"
  have env: "?n \<noteq> []" "?u \<noteq> []"
    using assms c False by (auto simp: run_with_secret_def Let_def split: if_splits)
  have zones: "\<exists>t. calls (snd (hasZoneLabels kc w)) = calls w @ t \<and> list_all (run_call uuid) t"
    using hasZoneLabels_calls(1) [of kc w] by auto
  show ?thesis
  proof (cases rule: runPodDefinition_cases [of b "rrChaincodePath req" kc c rmd uuid ?n ?u w])
    case (ok a cu)
    let ?pod = "run_pod b a (fst (hasZoneLabels kc w)) c rmd cu uuid ?n ?u"
    obtain r0 where "executePod kc ?pod RUN (Some uuid) sched (snd (hasZoneLabels kc w)) = Some (r0, w')"
      using assms c env ok by (auto simp: run_with_secret_def Let_def)
    from executePod_run_calls [OF this] zones show ?thesis by (auto simp: run_pod_def secret_name_def)
  next
    case (panic q w1)
    then have "w' = w1" using assms c env by (auto simp: run_with_secret_def Let_def)
    then show ?thesis using panic zones False by auto
  qed
qed auto

lemma Run_cases:
  assumes "Run kc b rnd sched req s w = Some (r, s', w')"
  obtains (untouched) "w' = w" "sched = []"
      "r = Ok () \<longrightarrow> (\<exists>md. fst (extractChaincodeMetadata b (rrMetadataPath req) s) = Ok md \<and> mdType md = ''external'')"
  | (refused) rmd uuid e where "UUID rnd = Ok uuid" "calls w' = calls w @ [CSecretCreate (crypto_secret rmd uuid) (Inl e)]"
      "r = Err (StatusError InvalidArgument (''unable to create crypto secret: '' @ error_text e))" "sched = []"
  | (started) md rmd uuid w1 r2 w2 a where "UUID rnd = Ok uuid" "mdType md \<noteq> ''external''"
      "fst (extractChaincodeMetadata b (rrMetadataPath req) s) = Ok md"
      "fst (readRunMetadata b (rrArtifactsPath req) s) = Ok rmd"
      "calls w1 = calls w @ [CSecretCreate (crypto_secret rmd uuid) (Inr a)]" "sent w1 = sent w"
      "run_with_secret kc b sched req md rmd uuid s w1 = Some (r2, w2)"
      "deferred_delete kc uuid (r2, w2) = (r, w')"
proof -
  obtain x where x: "extractChaincodeMetadata b (rrMetadataPath req) s = (x, s)"
    using extractChaincodeMetadata_state [of b "rrMetadataPath req" s]
    by (cases "extractChaincodeMetadata b (rrMetadataPath req) s") auto
  obtain y where y: "readRunMetadata b (rrArtifactsPath req) s = (y, s)"
    using readRunMetadata_state [of b "rrArtifactsPath req" s]
    by (cases "readRunMetadata b (rrArtifactsPath req) s") auto
  show ?thesis
  proof (cases "\<exists>md rmd uuid. x = Ok md \<and> mdType md \<noteq> ''external'' \<and> y = Ok rmd \<and> UUID rnd = Ok uuid")
    case False
    then have "w' = w \<and> sched = [] \<and> (r = Ok () \<longrightarrow> (\<exists>md. x = Ok md \<and> mdType md = ''external''))"
      using assms x y by (cases x; cases y; cases "UUID rnd") (auto simp: Run_def split: if_splits)
    then show ?thesis using untouched x by simp
  next
    case True
    then obtain md rmd uuid where ok: "x = Ok md" "mdType md \<noteq> ''external''" "y = Ok rmd" "UUID rnd = Ok uuid" by blast
    let ?sec = "crypto_secret rmd uuid"
    obtain ans w1 where api: "api (secretCreate kc ?sec) (CSecretCreate ?sec) w = (ans, w1)" by fastforce
    then have w1: "calls w1 = calls w @ [CSecretCreate ?sec ans]" "sent w1 = sent w"
      using api_frame [OF api] by auto
    show ?thesis
    proof (cases ans)
      case (Inl e)
      then show ?thesis using refused [OF ok(4)] assms x y ok w1 api
        by (auto simp: Run_def createCryptoSecret_def)
    next
      case (Inr a)
      then obtain r2 w2 where "run_with_secret kc b sched req md rmd uuid s w1 = Some (r2, w2)"
          "r = fst (deferred_delete kc uuid (r2, w2))" "w' = snd (deferred_delete kc uuid (r2, w2))"
        using assms x y ok api by (auto simp: Run_def createCryptoSecret_def case_prod_beta)
      then show ?thesis using started [OF ok(4,2)] x y ok w1 Inr by auto
    qed
  qed
qed

section \<open>A concrete server\<close>

definition sample_dir :: inode where
  "sample_dir = \<lparr>kind = KDir, perm = 0x1FF, data = Raw [], atime = 1, mtime = 2\<rparr>"

definition sample_file :: "content \<Rightarrow> inode" where
  "sample_file c = \<lparr>kind = KRegular, perm = 0x1A4, data = c, atime = 3, mtime = 4\<rparr>"

definition json_object :: "(string \<times> string) list \<Rightarrow> string" where
  "json_object fs = ''{'' @ join_with '','' (map (\<lambda>(k, v). [dquote] @ k @ [dquote] @ '':'' @ [dquote] @ v @ [dquote]) fs) @ ''}''"

definition sample_package :: "string \<Rightarrow> content" where
  "sample_package t = Archive [(\<lparr>hName = ''metadata.json'', hTypeflag = CHR ''0'', hMode = 0x1A4, hModTime = 4,
     hAccessTime = None\<rparr>, Raw (json_object [(''path'', ''cc''), (''type'', t)]))] None"

definition sample_os :: "string \<Rightarrow> os" where
  "sample_os t = \<lparr>cwd = [],
     files = [([], sample_dir), ([''shared''], sample_dir), ([''shared'', ''run1''], sample_dir),
       ([''shared'', ''run1'', ''package-metadata.tar''], sample_file (sample_package t)),
       ([''shared'', ''run1'', ''chaincode.json''], sample_file (Raw (json_object
          [(''chaincode_id'', ''cc:1''), (''client_key'', ''key'')])))],
     umask = 0, now = 9, fault = (\<lambda>_ _. None),
     environ = (\<lambda>v. if v = ''PEER_POD_NAME'' then Some ''peer-0'' else if v = ''PEER_POD_UID'' then Some ''u1'' else None)\<rparr>"

definition sample_server :: Server where
  "sample_server = \<lparr>SharedPath = ''/shared'', FSBaseURL = ''https://peer:22222/'', FileTransferImage = ''ft'',
     BuilderImage = ''bi'', GoEnvImage = ''go'', JavaEnvImage = ''java'', NodeEnvImage = ''node'',
     ImagePullSecrets = [''regcred''], PeerID = ''org1peer'', Auth = Some \<lparr>Username = ''u'', Password = ''p''\<rparr>,
     TLSCertString = ''PEM''\<rparr>"

definition sample_rnd :: "8 word list option" where
  "sample_rnd = Some [1, 2, 3, 4, 5, 6, 7, 8, 9, 10, 11, 12, 13, 14, 15, 16]"

definition sample_build_req :: BuildRequest where
  "sample_build_req = \<lparr>brSourcePath = ''run1/chaincode-source.tar'', brMetadataPath = ''run1/package-metadata.tar'',
     brOutputPath = ''run1/chaincode-output.tar''\<rparr>"

definition sample_run_req :: RunRequest where
  "sample_run_req = \<lparr>rrChaincodePath = ''run1/chaincode-output.tar'', rrMetadataPath = ''run1/package-metadata.tar'',
     rrArtifactsPath = ''run1/chaincode.json''\<rparr>"

definition build_result :: "string \<Rightarrow> (unit outcome \<times> os \<times> Secret option world) option" where
  "build_result t = Build sample_kube sample_server sample_rnd sample_sched sample_build_req (sample_os t) sample_world"

definition run_result :: "string \<Rightarrow> step list \<Rightarrow> (unit outcome \<times> os \<times> Secret option world) option" where
  "run_result t sched = Run sample_kube sample_server sample_rnd sched sample_run_req (sample_os t) sample_world"

lemma sample_metadata:
  "t \<in> {''GoLang'', ''node'', ''external'', ''External''} \<Longrightarrow>
   extractChaincodeMetadata sample_server ''run1/package-metadata.tar'' (sample_os t) =
     (Ok \<lparr>mdPath = ''cc'', mdType = t\<rparr>, sample_os t)"
proof -
  have "fst (extractChaincodeMetadata sample_server ''run1/package-metadata.tar'' (sample_os ''GoLang'')) =
      Ok \<lparr>mdPath = ''cc'', mdType = ''GoLang''\<rparr>"
    "fst (extractChaincodeMetadata sample_server ''run1/package-metadata.tar'' (sample_os ''node'')) =
      Ok \<lparr>mdPath = ''cc'', mdType = ''node''\<rparr>"
    "fst (extractChaincodeMetadata sample_server ''run1/package-metadata.tar'' (sample_os ''external'')) =
      Ok \<lparr>mdPath = ''cc'', mdType = ''external''\<rparr>"
    "fst (extractChaincodeMetadata sample_server ''run1/package-metadata.tar'' (sample_os ''External'')) =
      Ok \<lparr>mdPath = ''cc'', mdType = ''External''\<rparr>"
    by code_simp+
  then show "t \<in> {''GoLang'', ''node'', ''external'', ''External''} \<Longrightarrow> ?thesis"
    using extractChaincodeMetadata_state [of sample_server "''run1/package-metadata.tar''" "sample_os t"]
    by (auto simp: prod_eq_iff)
qed

definition sample_rmd :: runMetadata where
  "sample_rmd = \<lparr>ChaincodeID = ''cc:1'', ClientCert = [], ClientKey = ''key'', RootCert = [], PeerAddress = []\<rparr>"

lemma sample_run_metadata:
  "t \<in> {''node'', ''External''} \<Longrightarrow>
   readRunMetadata sample_server ''run1/chaincode.json'' (sample_os t) = (Ok sample_rmd, sample_os t)"
proof -
  have "fst (readRunMetadata sample_server ''run1/chaincode.json'' (sample_os ''node'')) = Ok sample_rmd"
    "fst (readRunMetadata sample_server ''run1/chaincode.json'' (sample_os ''External'')) = Ok sample_rmd"
    by code_simp+
  then show "t \<in> {''node'', ''External''} \<Longrightarrow> ?thesis"
    using readRunMetadata_state [of sample_server "''run1/chaincode.json''" "sample_os t"]
    by (auto simp: prod_eq_iff)
qed

definition sample_uuid :: string where
  "sample_uuid = ''01020304-0506-4708-890a-0b0c0d0e0f10''"

lemma sample_UUID: "UUID sample_rnd = Ok sample_uuid"
  by code_simp

definition sample_build_pod :: Pod where
  "sample_build_pod = build_pod sample_server \<lparr>Username = ''u'', Password = ''p''\<rparr>
     (golangBuildContainer ''cc'' ''bi'') ''https://peer:22222/run1/chaincode-source.tar''
     ''https://peer:22222/run1/chaincode-output.tar'' sample_uuid ''peer-0'' ''u1''"

lemma sample_build_pod_def_ok:
  "buildPodDefinition sample_server sample_rnd (golangBuildContainer ''cc'' ''bi'') (brSourcePath sample_build_req)
     (brOutputPath sample_build_req) ''peer-0'' ''u1'' = Ok sample_build_pod"
proof -
  have "urlJoin (FSBaseURL sample_server) (brSourcePath sample_build_req) = Ok ''https://peer:22222/run1/chaincode-source.tar''"
    "urlJoin (FSBaseURL sample_server) (brOutputPath sample_build_req) = Ok ''https://peer:22222/run1/chaincode-output.tar''"
    by code_simp+
  then show ?thesis
    by (simp add: buildPodDefinition_def sample_UUID sample_build_pod_def) (simp add: sample_server_def)
qed

lemma sample_lines:
  "streamLogs ''upload'' (''one'' @ [newline] @ ''two'' @ [newline], None) = [''upload: one'' @ [newline], ''upload: two'' @ [newline]]"
  by code_simp

lemma sample_build_exec:
  "map_option fst (executePod sample_kube pod BUILD None sample_sched sample_world) = Some (Inr ())"
  using sample_lines
  by (simp add: executePod_def exec_setup_def api_def sample_kube_def sample_world_def record_call_def start_exec_def
      sample_sched_def pod_event_def containerStatuses_def sample_pod_def open_log_def Let_def log_step_def
      all_sent_def finish_def)

lemma sample_types [simp]: "to_lower ''GoLang'' = ''golang''" "to_lower ''External'' = ''external''"
  by code_simp+

lemma sample_env [simp]:
  "getenv (sample_os t) ''PEER_POD_NAME'' = ''peer-0''" "getenv (sample_os t) ''PEER_POD_UID'' = ''u1''"
  by (simp_all add: getenv_def sample_os_def)

lemma build_sample: "build_result ''GoLang'' =
    map_option (\<lambda>(r, w'). (build_status r, sample_os ''GoLang'', w'))
      (executePod sample_kube sample_build_pod BUILD None sample_sched sample_world)"
proof -
  have c: "buildContainerDefinition sample_server \<lparr>mdPath = ''cc'', mdType = ''GoLang''\<rparr> =
      Ok (golangBuildContainer ''cc'' ''bi'')"
    by (simp add: buildContainerDefinition_def Let_def) (simp add: sample_server_def)
  show ?thesis
    using sample_metadata [of "''GoLang''"] sample_build_pod_def_ok c
    by (simp add: build_result_def Build_def) (simp add: sample_build_req_def)
qed

definition sample_started :: "Secret option world" where
  "sample_started = \<lparr>cluster = Some (crypto_secret sample_rmd sample_uuid),
     calls = [CSecretCreate (crypto_secret sample_rmd sample_uuid) (Inr (crypto_secret sample_rmd sample_uuid))], sent = []\<rparr>"

lemma sample_run_start:
  "t \<in> {''node'', ''External''} \<Longrightarrow>
   run_result t sched = map_option (\<lambda>rw. (case deferred_delete sample_kube sample_uuid rw of (r, w') \<Rightarrow> (r, sample_os t, w')))
     (run_with_secret sample_kube sample_server sched sample_run_req \<lparr>mdPath = ''cc'', mdType = t\<rparr> sample_rmd sample_uuid
        (sample_os t) sample_started)"
  using sample_metadata [of t] sample_run_metadata [of t] sample_UUID
  by (auto simp: run_result_def Run_def sample_run_req_def createCryptoSecret_def sample_kube_def api_def
      record_call_def sample_world_def sample_started_def)

lemma sample_external:
  "run_result ''External'' [] = Some (Err (StatusError InvalidArgument
      ''unable to generate run container: something went wrong, chaincode type: External''),
     sample_os ''External'', sample_started\<lparr>cluster := None, calls := calls sample_started @
       [CSecretGet (secret_name sample_uuid) (Inr (crypto_secret sample_rmd sample_uuid)), CSecretDelete (secret_name sample_uuid) (Inr ())],
       sent := [''crypto secret does not have owner references, deleting secret'' @ [newline]]\<rparr>)"
  by (simp add: sample_run_start run_with_secret_def runContainerDefinition_def early_def deferred_delete_def
      deleteCryptoSecret_def sample_kube_def api_def record_call_def log_msg_def sample_started_def crypto_secret_def
      newline_def)

lemma sample_run_pod:
  "map_option fst (run_with_secret sample_kube sample_server sample_sched sample_run_req \<lparr>mdPath = ''cc'', mdType = ''node''\<rparr>
     sample_rmd sample_uuid (sample_os ''node'') sample_started) = Some (Ok ())"
  by code_simp

section \<open>Properties of Build\<close>

lemma executePod_calls:
  assumes "executePod kc pod stage opts sched w = Some (r, w')"
  shows "\<exists>a t. calls w' = calls w @ CPodWatch (watch_selector pod) a # t"
  using assms
proof (cases rule: executePod_cases)
  case (failed e)
  then show ?thesis using exec_setup_err [of kc pod stage opts w e w'] by auto
next
  case (looped created w1 x)
  then show ?thesis using exec_setup_ok(2) [OF looped(1)] returned_calls [OF looped(5)] by auto
qed

lemma executePod_build_success:
  assumes "executePod kc pod BUILD opts sched w = Some (Inr (), w')"
  shows "\<exists>created a t. calls w' = calls w @ [CPodWatch (watch_selector pod) (Inr ()), CPodCreate pod (Inr created)] @ t @
      [CPodDelete (pod_name created) a, CWatchStop]"
    and "\<exists>l \<in> set sched. end_phase l = Some PodSucceeded"
proof -
  obtain created w1 x where looped: "exec_setup kc pod BUILD opts w = (Inr created, w1)"
      "exec_run kc BUILD (pod_name created) sched (start_exec w1) = Some x"
      "xpc x = Returned (Inr ())" "w' = xworld x" "returned_inv kc BUILD (pod_name created) w1 (Inr ()) x"
    using assms by (cases rule: executePod_cases) auto
  show "\<exists>created a t. calls w' = calls w @ [CPodWatch (watch_selector pod) (Inr ()), CPodCreate pod (Inr created)] @ t @
      [CPodDelete (pod_name created) a, CWatchStop]"
    using exec_setup_ok(2) [OF looped(1)] returned_calls [OF looped(5)] looped(4) by auto
  have ph: "end_phase l = Some ph \<Longrightarrow> ph = PodFailed \<or> ph = PodSucceeded" for l ph
    by (cases l rule: end_phase.cases) (auto split: if_splits)
  show "\<exists>l \<in> set sched. end_phase l = Some PodSucceeded"
    using exec_run_looping [OF looped(2) _ looped(3)] ph
    by (fastforce simp: start_exec_def pod_ended_def pod_failed_def split: if_splits)
qed

text \<open>Property C16: a build request reaches the cluster only when it is valid. If \<^verbatim>\<open>Build\<close> made any
  call, the metadata path has no parent element, the archive it names holds a readable
  \<^verbatim>\<open>metadata.json\<close> of a supported chaincode type, the peer's pod name and UID are in the
  environment, and the server has credentials for the file server.\<close>

theorem Build_validates:
  assumes "Build kc b rnd sched req s w = Some (r, s', w')" and "calls w' \<noteq> calls w"
  shows "build_accepted b req s \<and> Auth b \<noteq> None"
  using assms(1) by (cases rule: Build_cases) (use assms(2) in auto)

theorem Build_validates_witness:
  "build_accepted sample_server sample_build_req (sample_os ''GoLang'') \<and> Auth sample_server \<noteq> None"
proof -
  obtain w' where ex: "executePod sample_kube sample_build_pod BUILD None sample_sched sample_world = Some (Inr (), w')"
    using sample_build_exec [of sample_build_pod] by auto
  then have "Build sample_kube sample_server sample_rnd sample_sched sample_build_req
      (sample_os ''GoLang'') sample_world = Some (Ok (), sample_os ''GoLang'', w')"
    using build_sample by (simp add: build_result_def)
  then show ?thesis by (rule Build_validates) (use executePod_calls [OF ex] in auto)
qed

text \<open>A build request that succeeds did everything a build is: it ran one pod, named
  after a fresh UUID, labelled with the peer and owned by the peer's pod; the watch reported that the
  pod succeeded; and the pod was deleted and the watch stopped before the answer. The file system of
  the process is unchanged.\<close>

lemma Build_success:
  assumes "Build kc b rnd sched req s w = Some (Ok (), s', w')"
  shows "s' = s \<and> (\<exists>pod created uuid a t. UUID rnd = Ok uuid \<and>
    calls w' = calls w @ [CPodWatch (watch_selector pod) (Inr ()), CPodCreate pod (Inr created)] @ t @
      [CPodDelete (pod_name created) a, CWatchStop] \<and>
    pod_name pod = ''chaincode-build-'' @ uuid \<and> omLabels (podMeta pod) = [(''peer-id'', PeerID b)] \<and>
    omOwnerReferences (podMeta pod) = [peer_ref (getenv s ''PEER_POD_NAME'') (getenv s ''PEER_POD_UID'')] \<and>
    (\<exists>l \<in> set sched. end_phase l = Some PodSucceeded))"
  using assms
proof (cases rule: Build_cases)
  case (executed a c su ou uuid r0)
  let ?pod = "build_pod b a c su ou uuid (getenv s ''PEER_POD_NAME'') (getenv s ''PEER_POD_UID'')"
  have r0: "r0 = Inr ()" using executed(7) by (cases r0) auto
  have "s' = s" using assms extractChaincodeMetadata_state [of b "brMetadataPath req" s]
    by (auto simp: Build_def Let_def split: prod.splits outcome.splits if_splits)
  moreover have "\<exists>created a t. calls w' = calls w @ [CPodWatch (watch_selector ?pod) (Inr ()), CPodCreate ?pod (Inr created)] @ t @
      [CPodDelete (pod_name created) a, CWatchStop]" "\<exists>l \<in> set sched. end_phase l = Some PodSucceeded"
    using executePod_build_success executed(6) r0 by blast+
  moreover have "pod_name ?pod = ''chaincode-build-'' @ uuid" "omLabels (podMeta ?pod) = [(''peer-id'', PeerID b)]"
    "omOwnerReferences (podMeta ?pod) = [peer_ref (getenv s ''PEER_POD_NAME'') (getenv s ''PEER_POD_UID'')]"
    by (simp_all add: build_pod_def)
  ultimately show ?thesis using executed(5) by blast
qed simp_all

text \<open>Property C25: every error of \<^verbatim>\<open>Build\<close> is a gRPC status. It is \<^verbatim>\<open>InvalidArgument\<close> or
  \<^verbatim>\<open>Unknown\<close> with nothing done when the request is refused, and otherwise the pod execution's
  error with the code \<^verbatim>\<open>Unknown\<close>.\<close>

theorem Build_errors:
  assumes "Build kc b rnd sched req s w = Some (Err e, s', w')"
  shows "(\<not> build_accepted b req s \<and> w' = w \<and> (\<exists>c m. e = StatusError c m)) \<or>
    (\<exists>pod cause. executePod kc pod BUILD None sched w = Some (Inl cause, w') \<and>
       e = StatusError Unknown (''build failed: '' @ error_text cause))"
  using assms
proof (cases rule: Build_cases)
  case (executed a c su ou uuid r0)
  then show ?thesis by (cases r0) auto
qed auto

theorem Build_errors_witness:
  "\<exists>c m. fst (the (Build sample_kube sample_server sample_rnd [] (sample_build_req\<lparr>brMetadataPath := ''a/../b''\<rparr>)
      (sample_os ''node'') sample_world)) = Err (StatusError c m)"
proof -
  let ?req = "sample_build_req\<lparr>brMetadataPath := ''a/../b''\<rparr>"
  have dd: "containsDotDot ''a/../b''" by code_simp
  have "Build sample_kube sample_server sample_rnd [] ?req (sample_os ''node'') sample_world =
      Some (Err (StatusError InvalidArgument (''failed to read metadata: invalid metadata path: a/../b'')),
        sample_os ''node'', sample_world)" (is "_ = Some (Err ?e, _)")
    using dd by (simp add: Build_def extractChaincodeMetadata_def)
  with Build_errors [OF this] show ?thesis by auto
qed

section \<open>Properties of Run\<close>

lemma deferred_delete_world: "snd (deferred_delete kc uuid (r, w)) = snd (deleteCryptoSecret kc uuid w)"
  by (auto simp: deferred_delete_def split: prod.splits option.splits)

text \<open>How the result of the deferred clean-up depends on what it did.\<close>

lemma deferred_delete_result:
  assumes "deferred_delete kc uuid (r2, w2) = (r, w')"
  obtains (unknown) e where "calls w' = calls w2 @ [CSecretGet (secret_name uuid) (Inl e)]" "r = r2"
  | (owned) sec where "calls w' = calls w2 @ [CSecretGet (secret_name uuid) (Inr sec)]"
      "omOwnerReferences (secMeta sec) \<noteq> []" "r = r2"
  | (deleted) sec d where "calls w' = calls w2 @ [CSecretGet (secret_name uuid) (Inr sec), CSecretDelete (secret_name uuid) d]"
      "omOwnerReferences (secMeta sec) = []"
      "r = (case d of Inr _ \<Rightarrow> r2 | Inl e \<Rightarrow> (case r2 of Panic p \<Rightarrow> Panic p | _ \<Rightarrow> Err e))"
  using assms
  by (auto simp: deferred_delete_def deleteCryptoSecret_def api_def split: prod.splits sum.splits if_splits)

text \<open>Property C2: what becomes of the crypto secret of a run. Whenever \<^verbatim>\<open>Run\<close> has made any call, its
  first call created the secret holding the run's TLS material. If that creation failed, there is
  no other call. Otherwise the last calls on every way out (errors and panics included) look the
  secret up; if the lookup finds it without an owner, it is deleted, and a deletion that fails is never
  answered with success; if it finds an owner, the owner's deletion collects it; and if the lookup
  fails, whether because the secret is gone or for any other reason, the secret is left as it is. In
  between, no secret is created or deleted, no pod is deleted, and the only pod created is the run's
  own, which mounts exactly that secret.\<close>

theorem Run_secret_lifecycle:
  assumes "Run kc b rnd sched req s w = Some (r, s', w')" and "calls w' \<noteq> calls w"
  shows "\<exists>rmd uuid ans body tail. UUID rnd = Ok uuid \<and>
    calls w' = calls w @ [CSecretCreate (crypto_secret rmd uuid) ans] @ body @ tail \<and>
    list_all (run_call uuid) body \<and>
    (case ans of
       Inl e \<Rightarrow> body = [] \<and> tail = [] \<and> r = Err (StatusError InvalidArgument (''unable to create crypto secret: '' @ error_text e))
     | Inr _ \<Rightarrow>
         (\<exists>e. tail = [CSecretGet (secret_name uuid) (Inl e)]) \<or>
         (\<exists>sec. tail = [CSecretGet (secret_name uuid) (Inr sec)] \<and> omOwnerReferences (secMeta sec) \<noteq> []) \<or>
         (\<exists>sec. tail = [CSecretGet (secret_name uuid) (Inr sec), CSecretDelete (secret_name uuid) (Inr ())] \<and>
            omOwnerReferences (secMeta sec) = []) \<or>
         (\<exists>sec e. tail = [CSecretGet (secret_name uuid) (Inr sec), CSecretDelete (secret_name uuid) (Inl e)] \<and>
            omOwnerReferences (secMeta sec) = [] \<and> r \<noteq> Ok ()))"
  using assms(1)
proof (cases rule: Run_cases)
  case untouched
  then show ?thesis using assms(2) by simp
next
  case (refused rmd uuid e)
  then show ?thesis by (intro exI [of _ rmd] exI [of _ uuid] exI [of _ "Inl e"] exI [of _ "[]"]) simp
next
  case (started md rmd uuid w1 r2 w2 a)
  obtain body where body: "calls w2 = calls w1 @ body" "list_all (run_call uuid) body"
    using run_with_secret_calls [OF started(7)] by blast
  note start = started(1,5) body
  from started(8) show ?thesis
  proof (cases rule: deferred_delete_result)
    case (unknown e)
    then show ?thesis using start
      by (intro exI [of _ rmd] exI [of _ uuid] exI [of _ "Inr a"] exI [of _ body] exI [of _ "[CSecretGet (secret_name uuid) (Inl e)]"]) simp
  next
    case (owned sec)
    then show ?thesis using start
      by (intro exI [of _ rmd] exI [of _ uuid] exI [of _ "Inr a"] exI [of _ body] exI [of _ "[CSecretGet (secret_name uuid) (Inr sec)]"]) simp
  next
    case (deleted sec d)
    have "d = Inr () \<or> (\<exists>e. d = Inl e \<and> r \<noteq> Ok ())" using deleted(3) by (cases d) (auto split: outcome.splits)
    then show ?thesis using start deleted(1,2)
      by (intro exI [of _ rmd] exI [of _ uuid] exI [of _ "Inr a"] exI [of _ body]
          exI [of _ "[CSecretGet (secret_name uuid) (Inr sec), CSecretDelete (secret_name uuid) d]"]) auto
  qed
qed

theorem Run_secret_lifecycle_witness:
  "\<exists>rmd sec. calls (snd (snd (the (run_result ''External'' [])))) =
      [CSecretCreate (crypto_secret rmd sample_uuid) (Inr sec), CSecretGet (secret_name sample_uuid) (Inr sec),
       CSecretDelete (secret_name sample_uuid) (Inr ())]"
proof -
  let ?w = "sample_started\<lparr>cluster := None, calls := calls sample_started @
       [CSecretGet (secret_name sample_uuid) (Inr (crypto_secret sample_rmd sample_uuid)), CSecretDelete (secret_name sample_uuid) (Inr ())],
       sent := [''crypto secret does not have owner references, deleting secret'' @ [newline]]\<rparr>"
  obtain rmd uuid ans body tail where "UUID sample_rnd = Ok uuid"
    "calls ?w = calls sample_world @ [CSecretCreate (crypto_secret rmd uuid) ans] @ body @ tail"
    using Run_secret_lifecycle [OF sample_external [unfolded run_result_def]] by (auto simp: sample_world_def sample_started_def)
  then show ?thesis
    by (intro exI [of _ sample_rmd]) (simp add: sample_external sample_world_def sample_started_def sample_UUID)
qed

text \<open>
  The leak the property leaves room for: whenever the lookup of the clean-up fails, be it that the
  cluster did not answer in time, the secret stays in the cluster and the result of the run does not tell.
\<close>

lemma failed_lookup_keeps_secret:
  assumes "secretGet kc (secret_name uuid) (cluster w) = (Inl e, k)"
  shows "\<exists>w'. deferred_delete kc uuid (r, w) = (r, w') \<and> cluster w' = k \<and>
    calls w' = calls w @ [CSecretGet (secret_name uuid) (Inl e)]"
  using assms by (simp add: deferred_delete_def deleteCryptoSecret_def api_def record_call_def)

lemma secret_left_behind:
  "\<exists>e s' w'. Run (sample_kube\<lparr>secretGet := (\<lambda>n k. (Inl (ErrMsg ''timeout''), k))\<rparr>) sample_server sample_rnd [] sample_run_req
      (sample_os ''External'') sample_world = Some (Err e, s', w') \<and>
    cluster w' = Some (crypto_secret sample_rmd sample_uuid) \<and>
    omOwnerReferences (secMeta (crypto_secret sample_rmd sample_uuid)) = []"
  using sample_metadata [of "''External''"] sample_run_metadata [of "''External''"] sample_UUID
  by (simp add: Run_def sample_run_req_def createCryptoSecret_def sample_kube_def api_def record_call_def sample_world_def
      run_with_secret_def runContainerDefinition_def early_def deferred_delete_def deleteCryptoSecret_def crypto_secret_def)

text \<open>Chaincode of type \<^verbatim>\<open>external\<close> is not run: the handler succeeds without any call.
  This test is case-sensitive while the rest of the program ignores case: for any other spelling of
  \<^verbatim>\<open>external\<close> the handler first creates the secret, then always fails, having created no pod,
  and never answers success.\<close>

lemma Run_external:
  assumes "fst (extractChaincodeMetadata b (rrMetadataPath req) s) = Ok md" and "to_lower (mdType md) = ''external''"
    and "Run kc b rnd sched req s w = Some (r, s', w')"
  shows "if mdType md = ''external'' then r = Ok () \<and> w' = w
    else r \<noteq> Ok () \<and> (\<forall>c \<in> set (drop (length (calls w)) (calls w')).
      (\<forall>pod a. c \<noteq> CPodCreate pod a))"
proof (cases "mdType md = ''external''")
  case True
  then show ?thesis using assms(1,3) by (auto simp: Run_def split: prod.splits)
next
  case False
  have err: "run_with_secret kc b sched req md rmd uuid s w1 = Some (r2, w2) \<Longrightarrow> w2 = w1 \<and> (\<exists>e. r2 = Err e)" for rmd uuid w1 r2 w2
    using assms(2) by (auto simp: run_with_secret_def runContainerDefinition_def)
  from assms(3) show ?thesis
  proof (cases rule: Run_cases)
    case untouched
    then show ?thesis using False assms(1) by auto
  next
    case (refused rmd uuid e)
    then show ?thesis using False by simp
  next
    case (started md' rmd uuid w1 r2 w2 a)
    then have "w2 = w1" "\<exists>e. r2 = Err e" using err assms(1) by auto
    then show ?thesis using started(5,8) False deleteCryptoSecret_calls [of kc uuid w1]
      deferred_delete_world [of kc uuid r2 w2]
      by (auto simp: deferred_delete_def secret_cleanup_def split: prod.splits option.splits)
  qed
qed

section \<open>The TLS material in the run container\<close>

text \<open>
  What a container sees at a path that a volume holding a secret provides: the container has one mount
  that contains the path, the pod has one volume of that name, the volume is the given secret, and the
  rest of the path is a key of it. The value of a variable in the container's environment.
\<close>

definition mounted_file :: "Pod \<Rightarrow> Secret \<Rightarrow> Container \<Rightarrow> string \<Rightarrow> string option" where
  "mounted_file pod sec c path =
     (case filter (\<lambda>m. prefix (vmMountPath m @ ''/'') path) (cVolumeMounts c) of
        [m] \<Rightarrow>
          (case filter (\<lambda>v. volName v = vmName m) (psVolumes (podSpec pod)) of
             [v] \<Rightarrow>
               (if volSource v = SecretVolume (omName (secMeta sec)) \<and> vmSubPath m = []
                then map_of (secStringData sec) (drop (Suc (length (vmMountPath m))) path) else None)
           | _ \<Rightarrow> None)
      | _ \<Rightarrow> None)"

definition env_value :: "Container \<Rightarrow> string \<Rightarrow> string option" where
  "env_value c v = map_of (map (\<lambda>e. (evName e, evValue e)) (cEnv c)) v"

lemma run_container:
  assumes "runContainerDefinition genv b ty rmd = Ok c"
  shows "cEnv c = toRunEnv genv rmd"
    and "\<exists>p. p \<in> {''/usr/local/bin'', ''/root/chaincode-java/chaincode'', ''/usr/local/src''} \<and>
      cVolumeMounts c = [mount_sub ''chaincode'' ''/chaincode/artifacts'' ''artifacts'', mount_sub ''chaincode'' p ''output'',
        mount ''certs'' ''/certs'']"
proof -
  consider img where "c = golangRunContainer genv rmd img" | img where "c = javaRunContainer genv rmd img"
    | img where "c = nodeRunContainer genv rmd img" | img where "c = executableRunContainer genv rmd img"
    using assms unfolding runContainerDefinition_def Let_def by (fastforce split: if_split_asm)
  then have "cEnv c = toRunEnv genv rmd \<and>
      (\<exists>p. p \<in> {''/usr/local/bin'', ''/root/chaincode-java/chaincode'', ''/usr/local/src''} \<and>
      cVolumeMounts c = [mount_sub ''chaincode'' ''/chaincode/artifacts'' ''artifacts'', mount_sub ''chaincode'' p ''output'',
        mount ''certs'' ''/certs''])"
    by cases
      (simp_all add: golangRunContainer_def javaRunContainer_def nodeRunContainer_def executableRunContainer_def empty_container_def)
  then show "cEnv c = toRunEnv genv rmd"
    and "\<exists>p. p \<in> {''/usr/local/bin'', ''/root/chaincode-java/chaincode'', ''/usr/local/src''} \<and>
      cVolumeMounts c = [mount_sub ''chaincode'' ''/chaincode/artifacts'' ''artifacts'', mount_sub ''chaincode'' p ''output'',
        mount ''certs'' ''/certs'']" by blast+
qed

lemma certs_file:
  assumes "runContainerDefinition genv b ty rmd = Ok c"
  shows "mounted_file (run_pod b a zones c rmd cu uuid n u) (crypto_secret rmd uuid) c (''/certs/'' @ f) = map_of (toSecretData rmd) f"
proof -
  obtain p where "p \<in> {''/usr/local/bin'', ''/root/chaincode-java/chaincode'', ''/usr/local/src''}"
      "cVolumeMounts c = [mount_sub ''chaincode'' ''/chaincode/artifacts'' ''artifacts'', mount_sub ''chaincode'' p ''output'',
        mount ''certs'' ''/certs'']"
    using run_container(2) [OF assms] by blast
  then show ?thesis
    by (auto simp: mounted_file_def run_pod_def crypto_secret_def secret_name_def)
qed

text \<open>Property C26: the run container finds the peer's TLS material where its environment says. In
  the pod of a run, with the secret that \<^verbatim>\<open>Run\<close> creates for it, and for every chaincode type that has a
  run container: the variables that name files are exactly the five of TLS; the file named by each of
  them is in the secret mounted in the container; and it holds the peer's root certificate, the
  client's certificate and key as they are, and the base64 forms of these two, which decode to
  exactly them. The chaincode is told its own identifier.\<close>

theorem run_env_in_secret:
  assumes "runContainerDefinition genv b ty rmd = Ok c"
  shows "let pod = run_pod b a zones c rmd cu uuid n u;
      file = (\<lambda>v. Option.bind (env_value c v) (mounted_file pod (crypto_secret rmd uuid) c)) in
    c \<in> set (psContainers (podSpec pod)) \<and>
    filter (\<lambda>v. has_suffix v ''_FILE'' \<or> has_suffix v ''_PATH'') (map evName (cEnv c)) =
      [''CORE_PEER_TLS_ROOTCERT_FILE'', ''CORE_TLS_CLIENT_KEY_PATH'', ''CORE_TLS_CLIENT_CERT_PATH'',
       ''CORE_TLS_CLIENT_KEY_FILE'', ''CORE_TLS_CLIENT_CERT_FILE''] \<and>
    file ''CORE_PEER_TLS_ROOTCERT_FILE'' = Some (RootCert rmd) \<and>
    file ''CORE_TLS_CLIENT_CERT_FILE'' = Some (ClientCert rmd) \<and>
    file ''CORE_TLS_CLIENT_KEY_FILE'' = Some (ClientKey rmd) \<and>
    Option.bind (file ''CORE_TLS_CLIENT_CERT_PATH'') DecodeString = Some (ClientCert rmd) \<and>
    Option.bind (file ''CORE_TLS_CLIENT_KEY_PATH'') DecodeString = Some (ClientKey rmd) \<and>
    env_value c ''CORE_CHAINCODE_ID_NAME'' = Some (ChaincodeID rmd)"
proof -
  have env: "env_value c ''CORE_PEER_TLS_ROOTCERT_FILE'' = Some (''/certs/'' @ ''peer.crt'')"
    "env_value c ''CORE_TLS_CLIENT_KEY_PATH'' = Some (''/certs/'' @ ''client.key'')"
    "env_value c ''CORE_TLS_CLIENT_CERT_PATH'' = Some (''/certs/'' @ ''client.crt'')"
    "env_value c ''CORE_TLS_CLIENT_KEY_FILE'' = Some (''/certs/'' @ ''client_pem.key'')"
    "env_value c ''CORE_TLS_CLIENT_CERT_FILE'' = Some (''/certs/'' @ ''client_pem.crt'')"
    "env_value c ''CORE_CHAINCODE_ID_NAME'' = Some (ChaincodeID rmd)"
    by (simp_all add: env_value_def run_container(1) [OF assms] toRunEnv_def)
  have names: "filter (\<lambda>v. has_suffix v ''_FILE'' \<or> has_suffix v ''_PATH'') (map evName (cEnv c)) =
      [''CORE_PEER_TLS_ROOTCERT_FILE'', ''CORE_TLS_CLIENT_KEY_PATH'', ''CORE_TLS_CLIENT_CERT_PATH'',
       ''CORE_TLS_CLIENT_KEY_FILE'', ''CORE_TLS_CLIENT_CERT_FILE'']"
    by (simp add: run_container(1) [OF assms] toRunEnv_def has_suffix_def)
  have keys: "map_of (toSecretData rmd) ''peer.crt'' = Some (RootCert rmd)"
    "map_of (toSecretData rmd) ''client_pem.crt'' = Some (ClientCert rmd)"
    "map_of (toSecretData rmd) ''client_pem.key'' = Some (ClientKey rmd)"
    "map_of (toSecretData rmd) ''client.crt'' = Some (EncodeToString (ClientCert rmd))"
    "map_of (toSecretData rmd) ''client.key'' = Some (EncodeToString (ClientKey rmd))"
    by (simp_all add: toSecretData_def)
  show ?thesis
    unfolding Let_def env names Option.bind.bind_lunit certs_file [OF assms] keys
    by (simp add: run_pod_def base64.dec_enc)
qed

theorem run_env_in_secret_witness:
  "\<exists>c. runContainerDefinition (\<lambda>_. []) sample_server ''Node'' sample_rmd = Ok c \<and>
    Option.bind (env_value c ''CORE_TLS_CLIENT_KEY_FILE'')
      (mounted_file (run_pod sample_server \<lparr>Username = ''u'', Password = ''p''\<rparr> False c sample_rmd [] sample_uuid [] []) (crypto_secret sample_rmd sample_uuid) c) =
      Some ''key''"
proof -
  have "to_lower ''Node'' = ''node''" by code_simp
  then have c: "runContainerDefinition (\<lambda>_. []) sample_server ''Node'' sample_rmd =
      Ok (nodeRunContainer (\<lambda>_. []) sample_rmd (NodeEnvImage sample_server))"
    by (simp add: runContainerDefinition_def)
  from run_env_in_secret [OF c, of "\<lparr>Username = ''u'', Password = ''p''\<rparr>" False "[]" sample_uuid "[]" "[]"] c show ?thesis
    by (simp add: Let_def sample_rmd_def)
qed

end
