(* ===== verification/FsTar.thy ===== *)
theory FsTar
  imports FsCopy
begin

text \<open>
  Package \<^verbatim>\<open>fs\<close>, file \<^verbatim>\<open>tar.go\<close>: writing a directory tree to a tar archive and extracting an
  archive into a directory. The archive is modelled at the level of package \<^verbatim>\<open>archive/tar\<close>: a
  sequence of headers with their data. \<^verbatim>\<open>filepath.Walk\<close> is the mutual recursion
  \<open>tar_walk\<close>/\<open>tar_walk_names\<close>, whose first argument bounds the depth of the tree. The archive is
  taken to lie outside the tree that is walked.
\<close>

section \<open>Creating an archive\<close>

type_synonym entry = "tar_header \<times> content"

text \<open>The type bits of an \<^verbatim>\<open>os.FileMode\<close> that \<^verbatim>\<open>tar.FileInfoHeader\<close> tells apart.\<close>

definition mode_device :: "32 word" where "mode_device = 0x04000000"
definition mode_char :: "32 word" where "mode_char = 0x00200000"
definition mode_pipe :: "32 word" where "mode_pipe = 0x02000000"
definition mode_socket :: "32 word" where "mode_socket = 0x01000000"

definition tar_FileInfoHeader :: "inode \<Rightarrow> char outcome" where
  "tar_FileInfoHeader fi = (case kind fi of
      KRegular \<Rightarrow> Ok (CHR ''0'')
    | KDir \<Rightarrow> Ok (CHR ''5'')
    | KOther b \<Rightarrow>
        (if b AND mode_device \<noteq> 0 then Ok (if b AND mode_char \<noteq> 0 then CHR ''3'' else CHR ''4'')
         else if b AND mode_pipe \<noteq> 0 then Ok (CHR ''6'')
         else if b AND mode_socket \<noteq> 0 then Err (ErrMsg ''archive/tar: sockets not supported'')
         else Err (ErrMsg ''archive/tar: unknown file mode'')))"

definition fileInfoHeader :: "string \<Rightarrow> inode \<Rightarrow> tar_header outcome" where
  "fileInfoHeader relpath fileInfo = (case tar_FileInfoHeader fileInfo of
      Ok flag \<Rightarrow> Ok \<lparr>hName = (if kind fileInfo = KDir then relpath @ ''/'' else relpath),
                   hTypeflag = flag, hMode = perm fileInfo, hModTime = mtime fileInfo,
                   hAccessTime = Some (atime fileInfo)\<rparr>
    | Err e \<Rightarrow> Err e
    | Panic p \<Rightarrow> Panic p)"

text \<open>What has been written: the entries, and the error a reader meets after them.\<close>

type_synonym tarout = "entry list \<times> gerror option"

definition emit :: "tar_header \<Rightarrow> content \<Rightarrow> tarout \<Rightarrow> tarout" where
  "emit h c acc = (fst acc @ [(h, c)], snd acc)"

text \<open>
  The data of a regular file. When it cannot be read, the entry stays incomplete and the closed
  archive ends in the middle of it.
\<close>

definition writeFileContents :: "string \<Rightarrow> content sys" where
  "writeFileContents path = seq (os_Open (path_Clean path)) (read_handle (path_Clean path))"

fun octal :: "nat \<Rightarrow> string" where
  "octal n = (if n < 8 then [char_of (48 + n)] else octal (n div 8) @ [char_of (48 + n mod 8)])"

declare octal.simps [simp del]

definition octal04 :: "32 word \<Rightarrow> string" where
  "octal04 m = (let t = octal (unat m) in replicate (4 - length t) (CHR ''0'') @ t)"

text \<open>The function literal \<^verbatim>\<open>CreateTar\<close> passes to \<^verbatim>\<open>filepath.Walk\<close>, for a file without error.\<close>

definition tar_visit :: "string \<Rightarrow> string \<Rightarrow> inode \<Rightarrow> tarout \<Rightarrow> os \<Rightarrow> unit outcome \<times> tarout" where
  "tar_visit sourceDir path fileInfo acc s =
     (case path_Rel sourceDir path of
        Err e \<Rightarrow> (Err e, acc)
      | Panic p \<Rightarrow> (Panic p, acc)
      | Ok relpath \<Rightarrow>
          (if relpath = ''.'' then (Ok (), acc)
           else case fileInfoHeader relpath fileInfo of
             Err e \<Rightarrow> (Err e, acc)
           | Panic p \<Rightarrow> (Panic p, acc)
           | Ok header \<Rightarrow>
               (case kind fileInfo of
                  KRegular \<Rightarrow>
                    (case fst (writeFileContents path s) of
                       Ok c \<Rightarrow> (Ok (), emit header c acc)
                     | Err e \<Rightarrow>
                         (Err (ErrMsg (''failed to write file contents for '' @ relpath @ '': '' @ error_text e)),
                          (fst (emit header (Raw []) acc), Some (ErrMsg ''unexpected EOF'')))
                     | Panic p \<Rightarrow> (Panic p, acc))
                | KDir \<Rightarrow> (Ok (), emit header (Raw []) acc)
                | KOther _ \<Rightarrow>
                    (Err (ErrMsg (''failed to write header for '' @ relpath @ '': unsupported file mode '' @
                       octal04 (file_mode fileInfo))), emit header (Raw []) acc))))"

fun tar_walk :: "nat \<Rightarrow> string \<Rightarrow> string \<Rightarrow> inode \<Rightarrow> tarout \<Rightarrow> os \<Rightarrow> unit outcome \<times> tarout"
  and tar_walk_names :: "nat \<Rightarrow> string \<Rightarrow> string \<Rightarrow> string list \<Rightarrow> tarout \<Rightarrow> os \<Rightarrow> unit outcome \<times> tarout" where
  "tar_walk 0 root path info acc s = (Panic ''stack overflow'', acc)"
| "tar_walk (Suc d) root path info acc s =
     (if kind info \<noteq> KDir then tar_visit root path info acc s
      else case ioutil_ReadDir path s of
        (Ok es, _) \<Rightarrow>
          (case tar_visit root path info acc s of
             (Ok _, acc') \<Rightarrow> tar_walk_names d root path (map fst es) acc' s
           | (r, acc') \<Rightarrow> (r, acc'))
      | (Err e, _) \<Rightarrow> (Err e, acc)
      | (Panic p, _) \<Rightarrow> (Panic p, acc))"
| "tar_walk_names d root path [] acc s = (Ok (), acc)"
| "tar_walk_names d root path (n # ns) acc s =
     (let filename = path_Join [path, n] in
      case os_Lstat filename s of
        (Ok fileInfo, _) \<Rightarrow>
          (case tar_walk d root filename fileInfo acc s of
             (Ok _, acc') \<Rightarrow> tar_walk_names d root path ns acc' s
           | (r, acc') \<Rightarrow> (r, acc'))
      | (Err e, _) \<Rightarrow> (Err e, acc)
      | (Panic p, _) \<Rightarrow> (Panic p, acc))"

text \<open>
  \<^verbatim>\<open>CreateTar\<close> on the open file \<open>w\<close>. The deferred \<^verbatim>\<open>tw.Close()\<close> completes the archive in every
  case and its error is dropped; a failing write ends the walk at the first entry.
\<close>

definition CreateTar :: "nat \<Rightarrow> string \<Rightarrow> key \<Rightarrow> string \<Rightarrow> unit sys" where
  "CreateTar d wpath w sourceDir s =
     (let (r, (es, end)) = (case os_Lstat sourceDir s of
          (Ok info, _) \<Rightarrow> tar_walk d sourceDir sourceDir info ([], None) s
        | (Err e, _) \<Rightarrow> (Err e, ([], None))
        | (Panic p, _) \<Rightarrow> (Panic p, ([], None)))
      in case write_handle wpath w (Archive es end) s of
           (Ok _, s') \<Rightarrow> (r, s')
         | (Err e, s') \<Rightarrow> (if es = [] then (r, s') else (Err e, s'))
         | (Panic p, s') \<Rightarrow> (Panic p, s'))"

section \<open>Extracting an archive\<close>

fun decimal :: "nat \<Rightarrow> string" where
  "decimal n = (if n < 10 then [char_of (48 + n)] else decimal (n div 10) @ [char_of (48 + n mod 10)])"

declare decimal.simps [simp del]

definition extract_target :: "string \<Rightarrow> tar_header \<Rightarrow> string" where
  "extract_target destDir header = path_Join [destDir, path_Clean (hName header)]"

fun extract_entries :: "string \<Rightarrow> entry list \<Rightarrow> gerror option \<Rightarrow> (string \<times> tar_header) list \<Rightarrow>
    (string \<times> tar_header) list sys" where
  "extract_entries destDir [] end dirs =
     (case end of None \<Rightarrow> ret dirs | Some e \<Rightarrow> throw e)"
| "extract_entries destDir ((header, c) # es) end dirs =
     (let target = extract_target destDir header in
      if hTypeflag header = CHR ''5'' then
        seq (os_MkdirAll target (hMode header)) (\<lambda>_.
        extract_entries destDir es end (AList.update target header dirs))
      else if hTypeflag header = CHR ''0'' then
        seq (os_OpenFile False (path_Clean target) (hMode header)) (\<lambda>file.
        seq (copyClose (path_Clean target) file (ret c)) (\<lambda>_.
        seq (os_Chtimes target (Some (hModTime header)) (Some (hModTime header))) (\<lambda>_.
        extract_entries destDir es end dirs)))
      else throw (ErrMsg (''unsupported tar header type flag: '' @ decimal (of_char (hTypeflag header)))))"

fun restore_dirs :: "(string \<times> tar_header) list \<Rightarrow> unit sys" where
  "restore_dirs [] = ret ()"
| "restore_dirs ((target, header) # rest) =
     seq (os_Chtimes target (hAccessTime header) (Some (hModTime header))) (\<lambda>_. restore_dirs rest)"

text \<open>
  \<^verbatim>\<open>ExtractTar\<close>; \<open>ord\<close> is the order in which Go's \<^verbatim>\<open>range\<close> over the map of directory headers
  visits them, any permutation of them.
\<close>

definition ExtractTar :: "((string \<times> tar_header) list \<Rightarrow> (string \<times> tar_header) list) \<Rightarrow>
    content \<Rightarrow> string \<Rightarrow> unit sys" where
  "ExtractTar ord r destDir =
     seq (extract_entries destDir (fst (tar_entries r)) (snd (tar_entries r)) []) (\<lambda>dirs.
     restore_dirs (ord dirs))"

lemmas fs_tar_defs [go_defs] = tar_FileInfoHeader_def fileInfoHeader_def emit_def
  writeFileContents_def octal04_def tar_visit_def CreateTar_def extract_target_def ExtractTar_def
  mode_device_def mode_char_def mode_pipe_def mode_socket_def

end
