(* ===== verification/Commands.thy ===== *)
theory Commands
  imports FsTar JsonFile Sidecar
begin

text \<open>
  \<^verbatim>\<open>pkg/command\<close>: the four commands the peer invokes (detect, build, release, run), as the client
  binary dispatches them. A command gets its arguments, acts on the file system, may call the
  sidecar over gRPC (a parameter, which may act on the shared directory while it answers), and
  returns its exit code or an error and what it wrote to standard error. Log output is not followed.
  \<open>d\<close> bounds the depth of directory trees, \<open>rnds\<close> are the random strings of temporary directory
  names, \<open>fl\<close> is how a JSON number is printed after a trip through \<^verbatim>\<open>float64\<close>.
\<close>

definition index_panic :: string where
  "index_panic = ''index out of range''"

section \<open>common.go and detect.go\<close>

definition IsExternalCC :: "string \<Rightarrow> bool sys" where
  "IsExternalCC metadataDir s =
     (case ioutil_ReadFile (path_Clean (path_Join [metadataDir, ''metadata.json''])) s of
        (Err _, s') \<Rightarrow> (Ok False, s')
      | (Panic p, s') \<Rightarrow> (Panic p, s')
      | (Ok contents, s') \<Rightarrow>
          (case unmarshal_content [''type''] contents of
             Ok vs \<Rightarrow> (Ok (to_lower (vs ! 0) = ''external''), s')
           | Err e \<Rightarrow> (Err e, s')
           | Panic p \<Rightarrow> (Panic p, s')))"

definition supported_types :: "string list" where
  "supported_types = [''golang'', ''java'', ''node'', ''executable'', ''external'']"

definition Detect_Run :: "string list \<Rightarrow> os \<Rightarrow> int outcome \<times> string \<times> os" where
  "Detect_Run args s = (case args of
      _ # metadataDir # _ \<Rightarrow>
        (case ioutil_ReadFile (path_Join [metadataDir, ''metadata.json'']) s of
           (Err e, s') \<Rightarrow> (Err e, [], s')
         | (Panic p, s') \<Rightarrow> (Panic p, [], s')
         | (Ok mdbytes, s') \<Rightarrow>
             (case unmarshal_content [''type''] mdbytes of
                Err e \<Rightarrow> (Err e, [], s')
              | Panic p \<Rightarrow> (Panic p, [], s')
              | Ok vs \<Rightarrow>
                  (if to_lower (vs ! 0) \<in> set supported_types then (Ok 0, [], s')
                   else (Ok 1, ''chaincode type not supported: '' @ vs ! 0, s'))))
    | _ \<Rightarrow> (Panic index_panic, [], s))"

section \<open>build.go: helpers\<close>

definition createTar :: "nat \<Rightarrow> string \<Rightarrow> string \<Rightarrow> unit sys" where
  "createTar d targetArchive sourceDir =
     seq (wrap_err ''tar directory create failed: '' (os_MkdirAll (path_Dir targetArchive) 0x1ED)) (\<lambda>_.
     seq (wrap_err ''file create failed: '' (os_OpenFile False (path_Clean targetArchive) 0x1B6)) (\<lambda>archiveFile s.
       case wrap_err (''failed to create archive '' @ path_Clean targetArchive @ '': '')
              (CreateTar d (path_Clean targetArchive) archiveFile sourceDir) s of
         (r, s') \<Rightarrow> (r, snd (close_handle (path_Clean targetArchive) archiveFile s'))))"

definition dirExists :: "string \<Rightarrow> os \<Rightarrow> bool" where
  "dirExists path s = (case os_Stat path s of (Ok fi, _) \<Rightarrow> kind fi = KDir | _ \<Rightarrow> False)"

definition getPeerID :: "os \<Rightarrow> string" where
  "getPeerID s = remove_char (CHR '' '') (getenv s ''PEER_NAME'')"

definition parseAddress :: "string \<Rightarrow> (string \<times> string \<times> string) outcome" where
  "parseAddress addr =
     (case split_on (CHR '':'') addr of
        [hostURL, port] \<Rightarrow>
          (let domain = last (split_on (CHR ''.'') hostURL) in
           Ok (trim_suffix hostURL (CHR ''.'' # domain), domain, port))
      | _ \<Rightarrow> Err (ErrMsg ''address not in format <host-url>:<port>''))"

text \<open>The new address, or the old one for an unknown value of \<^verbatim>\<open>injectIdentifier\<close>.\<close>

definition inject_address :: "string \<Rightarrow> string \<Rightarrow> string \<Rightarrow> string \<times> string \<times> string \<Rightarrow> string option" where
  "inject_address injectIdentifier peerName address parts =
     (case parts of (hostname, domain, port) \<Rightarrow>
        if injectIdentifier = ''hostname'' then Some (peerName @ ''-'' @ address)
        else if injectIdentifier = ''domain''
        then Some (hostname @ ''.'' @ peerName @ ''-'' @ domain @ '':'' @ port)
        else None)"

definition inject_bytes :: "(string \<Rightarrow> string option) \<Rightarrow> string \<Rightarrow> string \<Rightarrow> string outcome" where
  "inject_bytes fl peerName connectionBytes =
     (case unmarshal_map fl connectionBytes of
        Err e \<Rightarrow> Err (ErrMsg (''failed to unmarshall connection.json: '' @ error_text e))
      | Panic p \<Rightarrow> Panic p
      | Ok connectionJSON \<Rightarrow>
          (case get_string connectionJSON ''injectIdentifier'' of
             None \<Rightarrow> Ok connectionBytes
           | Some injectIdentifier \<Rightarrow>
               (case get_string connectionJSON ''address'' of
                  None \<Rightarrow> Err (ErrMsg ''address unable to be parsed as a string'')
                | Some address \<Rightarrow>
                    (if peerName = [] then Err (ErrMsg ''failed to get peer name from PEER_NAME env var'')
                     else (case parseAddress address of
                       Err e \<Rightarrow> Err (ErrMsg (''invalid address provided in connection.json: '' @ error_text e))
                     | Panic p \<Rightarrow> Panic p
                     | Ok parts \<Rightarrow>
                         Ok (marshal_map fl
                           (case inject_address injectIdentifier peerName address parts of
                              Some newAddress \<Rightarrow> AList.update ''address'' (JStr newAddress) connectionJSON
                            | None \<Rightarrow> connectionJSON)))))))"

definition injectPeerIdentifier :: "(string \<Rightarrow> string option) \<Rightarrow> string \<Rightarrow> content sys" where
  "injectPeerIdentifier fl connectionFile =
     seq (wrap_err ''failed to read connection.json: '' (ioutil_ReadFile (path_Clean connectionFile)))
       (\<lambda>c s. case c of
          Raw connectionBytes \<Rightarrow>
            (case inject_bytes fl (getPeerID s) connectionBytes of
               Ok b \<Rightarrow> (Ok (Raw b), s) | Err e \<Rightarrow> (Err e, s) | Panic p \<Rightarrow> (Panic p, s))
        | Archive _ _ \<Rightarrow>
            (Err (ErrMsg (''failed to unmarshall connection.json: '' @ error_text syntax_error)), s))"

text \<open>An archive of \<^verbatim>\<open>META-INF\<close>, made only when the source has that directory.\<close>

definition tar_meta_inf :: "nat \<Rightarrow> string \<Rightarrow> string \<Rightarrow> unit sys" where
  "tar_meta_inf d target sourceDir s =
     (if dirExists (path_Join [sourceDir, ''META-INF'']) s
      then createTar d target (path_Join [sourceDir, ''META-INF'']) s else (Ok (), s))"

definition Build_HandleExternalCC :: "nat \<Rightarrow> (string \<Rightarrow> string option) \<Rightarrow> string \<Rightarrow> string \<Rightarrow> string \<Rightarrow> unit sys" where
  "Build_HandleExternalCC d fl sourceDir metadataDir outputDir s =
     (let connectionSrcFile = path_Join [sourceDir, ''/connection.json''];
          connectionDestFile = path_Join [outputDir, ''/connection.json''];
          rest =
            seq (wrap_err ''failed to update connection.json and write to output folder: ''
                  (UpdateFile connectionSrcFile connectionDestFile (injectPeerIdentifier fl))) (\<lambda>_.
            seq (wrap_err ''failed to copy build metadata folder: '' (CopyDir d metadataDir outputDir)) (\<lambda>_.
            tar_meta_inf d (path_Join [outputDir, ''chaincode-metadata.tar'']) sourceDir)) in
      case os_Stat connectionSrcFile s of
        (Err e, s') \<Rightarrow>
          (if IsNotExist e
           then (Err (ErrMsg (''connection.json not found in source folder: '' @ error_text e)), s')
           else rest s')
      | (_, s') \<Rightarrow> rest s')"

section \<open>build.go and run.go: talking to the sidecar\<close>

text \<open>
  The loop over the responses: standard output and standard error both go to the command's standard
  error, the end of the stream ends the loop, any other error and an empty message fail.
\<close>

fun recv_loop :: "response_message option list \<Rightarrow> gerror \<Rightarrow> nilerr \<times> string" where
  "recv_loop [] e = (if e = EOFError then None else Some e, [])"
| "recv_loop (m # ms) e =
     (case m of
        None \<Rightarrow> (Some (ErrMsg ''unexpected server response message <nil>''), [])
      | Some msg \<Rightarrow>
          (case recv_loop ms e of (r, out) \<Rightarrow>
             (r, (case msg of StandardOut t \<Rightarrow> t | StandardError t \<Rightarrow> t) @ out)))"

definition send_archives :: "nat \<Rightarrow> string \<Rightarrow> string \<Rightarrow> string \<Rightarrow> unit sys" where
  "send_archives d tempDir sourceDir metadataDir =
     seq (createTar d (path_Join [tempDir, ''chaincode-source.tar'']) sourceDir) (\<lambda>_.
     seq (tar_meta_inf d (path_Join [tempDir, ''chaincode-metadata.tar'']) sourceDir) (\<lambda>_.
     createTar d (path_Join [tempDir, ''package-metadata.tar'']) metadataDir))"

definition build_request :: "string \<Rightarrow> BuildRequest" where
  "build_request buildRoot = \<lparr>brSourcePath = path_Join [buildRoot, ''chaincode-source.tar''],
     brMetadataPath = path_Join [buildRoot, ''package-metadata.tar''],
     brOutputPath = path_Join [buildRoot, ''chaincode-output.tar'']\<rparr>"

text \<open>The part of \<^verbatim>\<open>Build.Run\<close> between making and removing the temporary directory.\<close>

definition build_in :: "nat \<Rightarrow> (BuildRequest, BuildResponse, os) grpc_conn \<Rightarrow> string \<Rightarrow> string \<Rightarrow> string \<Rightarrow> string \<Rightarrow> string \<Rightarrow>
    os \<Rightarrow> int outcome \<times> string \<times> os" where
  "build_in d conn sharedDir tempDir sourceDir metadataDir outputDir s =
     (case path_Rel sharedDir tempDir of
        Err e \<Rightarrow> (Err (ErrMsg (''failed to determine build root: '' @ error_text e)), [], s)
      | Panic p \<Rightarrow> (Panic p, [], s)
      | Ok buildRoot \<Rightarrow>
          (case send_archives d tempDir sourceDir metadataDir s of
             (Err e, s1) \<Rightarrow> (Err e, [], s1)
           | (Panic p, s1) \<Rightarrow> (Panic p, [], s1)
           | (Ok _, s1) \<Rightarrow>
               (case client_Build conn (build_request buildRoot) s1 of
                  (Inl e, s2) \<Rightarrow> (Err e, [], s2)
                | (Inr (ms, e), s2) \<Rightarrow>
                    (case recv_loop (map bpMessage ms) e of
                       (Some e', out) \<Rightarrow> (Err e', out, s2)
                     | (None, out) \<Rightarrow>
                         (case wrap_err ''failed to copy build result to peer: '' (CopyDir d tempDir outputDir) s2 of
                            (Ok _, s3) \<Rightarrow> (Ok 0, out, s3)
                          | (Err e', s3) \<Rightarrow> (Err e', out, s3)
                          | (Panic p, s3) \<Rightarrow> (Panic p, out, s3))))))"

text \<open>Running in a fresh temporary directory, removed on every way out.\<close>

definition in_temp_dir :: "string list \<Rightarrow> string \<Rightarrow> string \<Rightarrow> (string \<Rightarrow> os \<Rightarrow> int outcome \<times> string \<times> os) \<Rightarrow>
    os \<Rightarrow> int outcome \<times> string \<times> os" where
  "in_temp_dir rnds sharedDir pattern body s =
     (case ioutil_TempDir rnds sharedDir pattern s of
        (Err e, s1) \<Rightarrow> (Err (ErrMsg (''failed to create temporary directory: '' @ error_text e)), [], s1)
      | (Panic p, s1) \<Rightarrow> (Panic p, [], s1)
      | (Ok tempDir, s1) \<Rightarrow>
          (case body tempDir s1 of (r, out, s2) \<Rightarrow> (r, out, snd (os_RemoveAll tempDir s2))))"

definition Build_Run :: "nat \<Rightarrow> (string \<Rightarrow> string option) \<Rightarrow> string list \<Rightarrow> (BuildRequest, BuildResponse, os) grpc_conn \<Rightarrow>
    string \<Rightarrow> string list \<Rightarrow> os \<Rightarrow> int outcome \<times> string \<times> os" where
  "Build_Run d fl rnds conn sharedDir args s = (case args of
      sourceDir # metadataDir # outputDir # _ \<Rightarrow>
        (case IsExternalCC metadataDir s of
           (Err e, s1) \<Rightarrow> (Err e, [], s1)
         | (Panic p, s1) \<Rightarrow> (Panic p, [], s1)
         | (Ok isExternal, s1) \<Rightarrow>
             (if isExternal then
                (case Build_HandleExternalCC d fl sourceDir metadataDir outputDir s1 of
                   (Ok _, s2) \<Rightarrow> (Ok 0, [], s2)
                 | (Err e, s2) \<Rightarrow> (Err e, [], s2)
                 | (Panic p, s2) \<Rightarrow> (Panic p, [], s2))
              else
                in_temp_dir rnds sharedDir ''build''
                  (\<lambda>tempDir. build_in d conn sharedDir tempDir sourceDir metadataDir outputDir) s1))
    | _ \<Rightarrow> (Panic index_panic, [], s))"

definition run_request :: "string \<Rightarrow> RunRequest" where
  "run_request runRoot = \<lparr>rrChaincodePath = path_Join [runRoot, ''chaincode-output.tar''],
     rrMetadataPath = path_Join [runRoot, ''package-metadata.tar''],
     rrArtifactsPath = path_Join [runRoot, ''chaincode.json'']\<rparr>"

definition run_in :: "(RunRequest, RunResponse, os) grpc_conn \<Rightarrow> string \<Rightarrow> string \<Rightarrow> string \<Rightarrow> string \<Rightarrow>
    os \<Rightarrow> int outcome \<times> string \<times> os" where
  "run_in conn sharedDir tempDir buildOutputDir peerMetadataDir s =
     (case path_Rel sharedDir tempDir of
        Err e \<Rightarrow> (Err (ErrMsg (''failed to determine build root: '' @ error_text e)), [], s)
      | Panic p \<Rightarrow> (Panic p, [], s)
      | Ok runRoot \<Rightarrow>
          (case seq (CopyFile (path_Join [buildOutputDir, ''chaincode-output.tar'']) (path_Join [tempDir, ''chaincode-output.tar''])) (\<lambda>_.
                seq (CopyFile (path_Join [buildOutputDir, ''package-metadata.tar'']) (path_Join [tempDir, ''package-metadata.tar''])) (\<lambda>_.
                CopyFile (path_Join [peerMetadataDir, ''chaincode.json'']) (path_Join [tempDir, ''chaincode.json'']))) s of
             (Err e, s1) \<Rightarrow> (Err e, [], s1)
           | (Panic p, s1) \<Rightarrow> (Panic p, [], s1)
           | (Ok _, s1) \<Rightarrow>
               (case client_Run conn (run_request runRoot) s1 of
                  (Inl e, s2) \<Rightarrow> (Err e, [], s2)
                | (Inr (ms, e), s2) \<Rightarrow>
                    (case recv_loop (map rpMessage ms) e of
                       (Some e', out) \<Rightarrow> (Err e', out, s2)
                     | (None, out) \<Rightarrow> (Ok 0, out, s2)))))"

definition Run_Run :: "string list \<Rightarrow> (RunRequest, RunResponse, os) grpc_conn \<Rightarrow> string \<Rightarrow> string list \<Rightarrow> os \<Rightarrow>
    int outcome \<times> string \<times> os" where
  "Run_Run rnds conn sharedDir args s = (case args of
      buildOutputDir # peerMetadataDir # _ \<Rightarrow>
        (case IsExternalCC buildOutputDir s of
           (Err e, s1) \<Rightarrow> (Err e, [], s1)
         | (Panic p, s1) \<Rightarrow> (Panic p, [], s1)
         | (Ok isExternal, s1) \<Rightarrow>
             (if isExternal
              then (Err (ErrMsg ''Peer should not call run for external chaincode type''), [], s1)
              else in_temp_dir rnds sharedDir ''run''
                (\<lambda>tempDir. run_in conn sharedDir tempDir buildOutputDir peerMetadataDir) s1))
    | _ \<Rightarrow> (Panic index_panic, [], s))"

section \<open>release.go\<close>

definition Release_HandleExternalCC :: "string \<Rightarrow> string \<Rightarrow> unit sys" where
  "Release_HandleExternalCC builderOutputDir releaseDir s =
     (let destinationDir = path_Join [releaseDir, ''chaincode/server''];
          rest =
            seq (wrap_err ''failed to create target folder for connection.json: '' (os_MkdirAll destinationDir 0x1E8)) (\<lambda>_.
            seq (wrap_err ''failed to copy connection.json to target folder: ''
              (CopyFile (path_Join [builderOutputDir, ''connection.json'']) (path_Join [destinationDir, ''connection.json'']))) (\<lambda>_.
            wrap_err ''failed to copy metadata to target folder: ''
              (CopyFile (path_Join [builderOutputDir, ''metadata.json'']) (path_Join [destinationDir, ''metadata.json''])))) in
      case os_Stat (path_Join [builderOutputDir, ''/connection.json'']) s of
        (Err e, s') \<Rightarrow>
          (if IsNotExist e
           then (Err (ErrMsg (''connection.json not found in source folder: '' @ error_text e)), s')
           else rest s')
      | (_, s') \<Rightarrow> rest s')"

text \<open>The indexes: nothing to do without the archive.\<close>

definition release_metadata :: "((string \<times> tar_header) list \<Rightarrow> (string \<times> tar_header) list) \<Rightarrow> string \<Rightarrow> string \<Rightarrow> unit sys" where
  "release_metadata ord builderOutputDir releaseDir s =
     (let chaincodeMetadata = path_Clean (path_Join [builderOutputDir, ''chaincode-metadata.tar'']) in
      case os_Open chaincodeMetadata s of
        (Err e, s') \<Rightarrow> (if IsNotExist e then (Ok (), s') else (Err e, s'))
      | (Panic p, s') \<Rightarrow> (Panic p, s')
      | (Ok tarfile, s') \<Rightarrow> seq (read_handle chaincodeMetadata tarfile) (\<lambda>c. ExtractTar ord c releaseDir) s')"

definition Release_Run :: "((string \<times> tar_header) list \<Rightarrow> (string \<times> tar_header) list) \<Rightarrow> string list \<Rightarrow> os \<Rightarrow>
    int outcome \<times> string \<times> os" where
  "Release_Run ord args s = (case args of
      builderOutputDir # releaseDir # _ \<Rightarrow>
        (case seq (IsExternalCC builderOutputDir) (\<lambda>isExternal.
              seq (if isExternal then Release_HandleExternalCC builderOutputDir releaseDir else ret ()) (\<lambda>_.
              release_metadata ord builderOutputDir releaseDir)) s of
           (Ok _, s') \<Rightarrow> (Ok 0, [], s')
         | (Err e, s') \<Rightarrow> (Err e, [], s')
         | (Panic p, s') \<Rightarrow> (Panic p, [], s'))
    | _ \<Rightarrow> (Panic index_panic, [], s))"

lemmas command_defs [go_defs] = index_panic_def IsExternalCC_def supported_types_def
  Detect_Run_def createTar_def dirExists_def getPeerID_def parseAddress_def inject_address_def inject_bytes_def
  injectPeerIdentifier_def tar_meta_inf_def Build_HandleExternalCC_def send_archives_def build_request_def build_in_def
  in_temp_dir_def Build_Run_def run_request_def run_in_def Run_Run_def Release_HandleExternalCC_def
  release_metadata_def Release_Run_def

end
