(* ===== verification/PodHandler.thy ===== *)
theory PodHandler
  imports KubeTypes "HOL-Library.Sublist"
begin

text \<open>
  \<^verbatim>\<open>pkg/pod/handler.go\<close>: finding and deleting the pods of a peer whose chaincode has completed,
  with which the server cleans up when it starts.
\<close>

definition errors_Wrap :: "gerror \<Rightarrow> string \<Rightarrow> gerror" where
  "errors_Wrap e m = ErrMsg (m @ '': '' @ error_text e)"

text \<open>The handler is the pod client it was made with.\<close>

record 'c pod_handler =
  PodClient :: 'c

definition NewHandler :: "'c \<Rightarrow> 'c pod_handler" where
  "NewHandler podClient = \<lparr>PodClient = podClient\<rparr>"

text \<open>The loop over the pods: the first container status decides.\<close>

fun completed_pods :: "Pod list \<Rightarrow> Pod list" where
  "completed_pods [] = []"
| "completed_pods (pod # pods) =
     (case stContainerStatuses (podStatus pod) of
        [] \<Rightarrow> completed_pods pods
      | runContainerStatus # _ \<Rightarrow>
          (case csTerminated runContainerStatus of
             Some reason \<Rightarrow> (if reason = ''Completed'' then pod # completed_pods pods else completed_pods pods)
           | None \<Rightarrow> completed_pods pods))"

definition ListCompletedExecutionPodsForPeer :: "'k kube \<Rightarrow> string \<Rightarrow> 'k world \<Rightarrow> Pod list result \<times> 'k world" where
  "ListCompletedExecutionPodsForPeer kc peerID w =
     (let selector = ''peer-id='' @ peerID in
      case api (podList kc selector) (CPodList selector) w of
        (Inl e, w') \<Rightarrow> (Inl (errors_Wrap e ''failed to get pods''), w')
      | (Inr pods, w') \<Rightarrow> (Inr (completed_pods pods), w'))"

definition DeletePod :: "'k kube \<Rightarrow> string \<Rightarrow> 'k world \<Rightarrow> nilerr \<times> 'k world" where
  "DeletePod kc name w = (case api (podDelete kc name) (CPodDelete name) w of
      (Inl e, w') \<Rightarrow> (Some e, w') | (Inr _, w') \<Rightarrow> (None, w'))"

fun DeletePods :: "'k kube \<Rightarrow> Pod list \<Rightarrow> 'k world \<Rightarrow> nilerr \<times> 'k world" where
  "DeletePods kc [] w = (None, w)"
| "DeletePods kc (pod # pods) w =
     (case DeletePod kc (pod_name pod) w of
        (Some e, w') \<Rightarrow>
          (Some (errors_Wrap e (''failed to delete pod '' @ [CHR 0x27] @ pod_name pod @ [CHR 0x27])), w')
      | (None, w') \<Rightarrow> DeletePods kc pods w')"

text \<open>The clean-up of the server's start, which goes on whatever fails.\<close>

definition cleanup_completed :: "'k kube \<Rightarrow> string \<Rightarrow> 'k world \<Rightarrow> 'k world" where
  "cleanup_completed kc peerID w =
     (case ListCompletedExecutionPodsForPeer kc peerID w of
        (r, w') \<Rightarrow> snd (DeletePods kc (case r of Inl _ \<Rightarrow> [] | Inr pods \<Rightarrow> pods) w'))"

lemmas pod_handler_defs [go_defs] = errors_Wrap_def ListCompletedExecutionPodsForPeer_def DeletePod_def
  cleanup_completed_def

section \<open>Lemmas\<close>

definition is_completed :: "Pod \<Rightarrow> bool" where
  "is_completed pod \<longleftrightarrow> (\<exists>st sts. stContainerStatuses (podStatus pod) = st # sts \<and> csTerminated st = Some ''Completed'')"

lemma completed_pods_filter: "completed_pods pods = filter is_completed pods"
  by (induction pods) (auto simp: is_completed_def split: list.splits option.splits)

lemma DeletePod_calls:
  "\<exists>a. calls (snd (DeletePod kc n w)) = calls w @ [CPodDelete n a] \<and> (fst (DeletePod kc n w) = None \<longleftrightarrow> (\<exists>u. a = Inr u))"
  by (auto simp: DeletePod_def api_def split: prod.splits sum.splits)

text \<open>
  What a sequence of deletions that stops at its first failure does with a list of names: the names
  it reached and the answers it got, all of them successes but perhaps the last, which is a failure
  whenever a name was not reached.
\<close>

definition deleted_until_failure :: "string list \<Rightarrow> string list \<Rightarrow> unit result list \<Rightarrow> bool" where
  "deleted_until_failure names ns as \<longleftrightarrow> length as = length ns \<and> prefix ns names \<and>
     list_all (\<lambda>a. a = Inr ()) (butlast as) \<and> (ns = names \<or> (\<exists>e pre. as = pre @ [Inl e]))"

lemma deleted_until_failure_simps:
  "deleted_until_failure [] [] []"
  "deleted_until_failure (n # names) [n] [Inl e]"
  "deleted_until_failure (n # names) (n # ns) (Inr () # as) \<longleftrightarrow> deleted_until_failure names ns as"
  by (auto simp: deleted_until_failure_def Cons_eq_append_conv)

lemma DeletePods_calls:
  "\<exists>ns as. deleted_until_failure (map pod_name pods) ns as \<and>
     calls (snd (DeletePods kc pods w)) = calls w @ map2 CPodDelete ns as"
proof (induction pods arbitrary: w)
  case Nil
  then show ?case by (auto intro!: exI [of _ "[]"] simp: deleted_until_failure_simps)
next
  case (Cons pod pods)
  obtain a where a: "calls (snd (DeletePod kc (pod_name pod) w)) = calls w @ [CPodDelete (pod_name pod) a]"
      "fst (DeletePod kc (pod_name pod) w) = None \<longleftrightarrow> (\<exists>u. a = Inr u)"
    using DeletePod_calls by blast
  obtain f w1 where d: "DeletePod kc (pod_name pod) w = (f, w1)" by fastforce
  show ?case
  proof (cases f)
    case (Some e)
    then obtain e' where "a = Inl e'" using a(2) d by (cases a) auto
    then show ?thesis using a d Some
      by (intro exI [of _ "[pod_name pod]"] exI [of _ "[a]"]) (simp add: deleted_until_failure_simps)
  next
    case None
    then have ok: "a = Inr ()" using a(2) d by auto
    obtain ns as where "deleted_until_failure (map pod_name pods) ns as"
        "calls (snd (DeletePods kc pods w1)) = calls w1 @ map2 CPodDelete ns as"
      using Cons.IH [of w1] by blast
    then show ?thesis using a d None ok
      by (intro exI [of _ "pod_name pod # ns"] exI [of _ "a # as"]) (simp add: deleted_until_failure_simps)
  qed
qed

section \<open>The clean-up\<close>

definition demo_pod :: "string \<Rightarrow> string \<Rightarrow> Pod" where
  "demo_pod name reason =
     \<lparr>podMeta = \<lparr>omName = name, omUID = [], omLabels = [], omOwnerReferences = []\<rparr>,
      podSpec = \<lparr>psImagePullSecrets = [], psRestartPolicy = ''Never'', psVolumes = [],
        psInitContainers = [], psContainers = [], psAffinity = None\<rparr>,
      podStatus = \<lparr>stPhase = PodSucceeded, stInitContainerStatuses = [],
        stContainerStatuses = [\<lparr>csName = ''cc'', csRunning = False, csTerminated = Some reason\<rparr>]\<rparr>\<rparr>"

definition demo_kube :: "unit kube" where
  "demo_kube = \<lparr>secretCreate = (\<lambda>s k. (Inr s, k)), secretGet = (\<lambda>n k. (Inl (ErrMsg ''none''), k)),
     secretUpdate = (\<lambda>s k. (Inr s, k)), secretDelete = (\<lambda>n k. (Inr (), k)),
     podWatch = (\<lambda>sel k. (Inr (), k)), podCreate = (\<lambda>p k. (Inr p, k)), podDelete = (\<lambda>n k. (Inr (), k)),
     podList = (\<lambda>sel k. (Inr [demo_pod ''a'' ''Completed'', demo_pod ''b'' ''Error''], k)),
     podLogs = (\<lambda>p c f k. (Inr ([], None), k)), logClose = (\<lambda>n k. (Inr (), k)), nodeList = None\<rparr>"

definition demo_world :: "unit world" where
  "demo_world = \<lparr>cluster = (), calls = [], sent = []\<rparr>"

text \<open>Property C27: the clean-up at the start of the server lists the peer's pods with one call and then
  deletes, in the order of the list and up to the first failure, exactly the pods whose first
  container has terminated with the reason \<^verbatim>\<open>Completed\<close>: the names deleted are a prefix of theirs,
  every deletion but the last succeeded, and either all of them were deleted or the last deletion
  failed. When the list cannot be read, nothing is deleted.\<close>

theorem cleanup_deletes_completed:
  "\<exists>ans ns as. calls (cleanup_completed kc peerID w) = calls w @ CPodList (''peer-id='' @ peerID) ans # map2 CPodDelete ns as \<and>
     length as = length ns \<and>
     (case ans of
        Inl _ \<Rightarrow> ns = []
      | Inr pods \<Rightarrow> prefix ns (map pod_name (filter is_completed pods)) \<and>
          list_all (\<lambda>a. a = Inr ()) (butlast as) \<and>
          (ns = map pod_name (filter is_completed pods) \<or> (\<exists>e pre. as = pre @ [Inl e])))"
proof -
  let ?sel = "''peer-id='' @ peerID"
  obtain ans w1 where api: "api (podList kc ?sel) (CPodList ?sel) w = (ans, w1)" by fastforce
  then have w1: "calls w1 = calls w @ [CPodList ?sel ans]" using api_frame [OF api] by simp
  show ?thesis
  proof (cases ans)
    case (Inl e)
    then show ?thesis using api w1
      by (intro exI [of _ ans] exI [of _ "[]"])
        (simp add: cleanup_completed_def ListCompletedExecutionPodsForPeer_def Let_def)
  next
    case (Inr pods)
    obtain ns as where d: "deleted_until_failure (map pod_name (filter is_completed pods)) ns as"
        "calls (snd (DeletePods kc (filter is_completed pods) w1)) = calls w1 @ map2 CPodDelete ns as"
      using DeletePods_calls by blast
    show ?thesis using api w1 Inr d(2) d(1) [unfolded deleted_until_failure_def]
      by (intro exI [of _ ans] exI [of _ ns] exI [of _ as])
        (simp add: cleanup_completed_def ListCompletedExecutionPodsForPeer_def Let_def completed_pods_filter)
  qed
qed

text \<open>Three completed pods and one that failed, where the second deletion is refused: the third is not tried.\<close>

lemma cleanup_stops:
  "calls (cleanup_completed (demo_kube\<lparr>podDelete := (\<lambda>n k. (if n = ''c'' then Inl (ErrMsg ''refused'') else Inr (), k)),
      podList := (\<lambda>sel k. (Inr [demo_pod ''a'' ''Completed'', demo_pod ''b'' ''Error'', demo_pod ''c'' ''Completed'',
        demo_pod ''d'' ''Completed''], k))\<rparr>) ''p'' demo_world) =
    [CPodList ''peer-id=p'' (Inr [demo_pod ''a'' ''Completed'', demo_pod ''b'' ''Error'', demo_pod ''c'' ''Completed'',
       demo_pod ''d'' ''Completed'']), CPodDelete ''a'' (Inr ()), CPodDelete ''c'' (Inl (ErrMsg ''refused''))]"
  by code_simp

end
