(* ===== verification/Tls.thy ===== *)
theory Tls
  imports PodHandler Encoding Url OsModel
begin

text \<open>
  \<^verbatim>\<open>pkg/tls/tls.go\<close>, \<^verbatim>\<open>pkg/logger/logger.go\<close> and \<^verbatim>\<open>GenerateTLSCrypto\<close> of the server's main
  package: the key and the self-signed certificate of the file server. Key generation, signing and
  the random source are parameters; the certificate template, the PEM encoding and the files written
  are modelled. Times are nanoseconds.
\<close>

section \<open>PEM\<close>

text \<open>\<^verbatim>\<open>pem.EncodeToMemory\<close> of a block without headers: base64 in lines of 64.\<close>

fun pem_lines :: "nat \<Rightarrow> string \<Rightarrow> string" where
  "pem_lines 0 b = []"
| "pem_lines (Suc n) b = (if b = [] then [] else take 64 b @ [CHR 0x0A] @ pem_lines n (drop 64 b))"

definition pem_EncodeToMemory :: "string \<Rightarrow> string \<Rightarrow> string" where
  "pem_EncodeToMemory ty bytes =
     ''-----BEGIN '' @ ty @ ''-----'' @ [CHR 0x0A] @
     pem_lines (length (EncodeToString bytes)) (EncodeToString bytes) @
     ''-----END '' @ ty @ ''-----'' @ [CHR 0x0A]"

section \<open>Certificates\<close>

record Param =
  pHosts :: "string list"
  pNotAfter :: int

datatype KeyUsage = KeyEncipherment | DigitalSignature
datatype ExtKeyUsage = ServerAuth

record Certificate =
  SerialNumber :: nat
  Organization :: "string list"
  NotBefore :: int
  NotAfter :: int
  certKeyUsage :: "KeyUsage set"
  certExtKeyUsage :: "ExtKeyUsage list"
  BasicConstraintsValid :: bool
  IPAddresses :: "string list"
  DNSNames :: "string list"

text \<open>A private key as the program handles it, of the two kinds it knows or another.\<close>

datatype 'k priv = RSAKey 'k | ECDSAKey 'k | OtherKey

text \<open>
  The cryptographic library: generating a key, its DER form, a random number below a bound,
  \<^verbatim>\<open>net.ParseIP\<close>, signing a certificate (template, parent, public key, private key), and checking
  that a certificate and a key belong together.
\<close>

record 'k crypto =
  generateKey :: "'k result"
  marshalECPrivateKey :: "'k \<Rightarrow> string result"
  randInt :: "nat \<Rightarrow> nat result"
  parseIP :: "string \<Rightarrow> string option"
  publicPart :: "'k \<Rightarrow> string"
  createCertificate :: "Certificate \<Rightarrow> Certificate \<Rightarrow> string option \<Rightarrow> 'k priv \<Rightarrow> string result"
  x509KeyPair :: "string \<Rightarrow> string \<Rightarrow> string result"

record Config =
  MinVersion :: string
  Certificates :: "string list"

definition ConfigTLS :: "'k crypto \<Rightarrow> string \<Rightarrow> string \<Rightarrow> Config result" where
  "ConfigTLS cr certFile keyFile = (case x509KeyPair cr certFile keyFile of
      Inl e \<Rightarrow> Inl e
    | Inr sCert \<Rightarrow> Inr \<lparr>MinVersion = ''VersionTLS12'', Certificates = [sCert]\<rparr>)"

definition PrivateKey :: "'k crypto \<Rightarrow> ('k priv \<times> string) result" where
  "PrivateKey cr = (case generateKey cr of
      Inl e \<Rightarrow> Inl (errors_Wrap e ''failed to generate private key'')
    | Inr priv \<Rightarrow>
        (case marshalECPrivateKey cr priv of
           Inl e \<Rightarrow> Inl (errors_Wrap e ''failed to generate private key bytes'')
         | Inr bytes \<Rightarrow> Inr (ECDSAKey priv, pem_EncodeToMemory ''PRIVATE KEY'' bytes)))"

fun publicKey :: "'k crypto \<Rightarrow> 'k priv \<Rightarrow> string option" where
  "publicKey cr (RSAKey k) = Some (publicPart cr k)"
| "publicKey cr (ECDSAKey k) = Some (publicPart cr k)"
| "publicKey cr OtherKey = None"

text \<open>The loop of \<^verbatim>\<open>Cert\<close> over the hosts.\<close>

fun add_hosts :: "'k crypto \<Rightarrow> string list \<Rightarrow> Certificate \<Rightarrow> Certificate" where
  "add_hosts cr [] cert = cert"
| "add_hosts cr (h # hs) cert =
     add_hosts cr hs (case parseIP cr h of
        Some ip \<Rightarrow> cert\<lparr>IPAddresses := IPAddresses cert @ [ip]\<rparr>
      | None \<Rightarrow> cert\<lparr>DNSNames := DNSNames cert @ [h]\<rparr>)"

definition Cert :: "'k crypto \<Rightarrow> Certificate \<Rightarrow> Certificate \<Rightarrow> 'k priv \<Rightarrow> string list \<Rightarrow> string result" where
  "Cert cr cert parent privKey hosts =
     (case createCertificate cr (add_hosts cr hosts cert) parent (publicKey cr privKey) privKey of
        Inl e \<Rightarrow> Inl (errors_Wrap e ''failed to create certificate'')
      | Inr bytes \<Rightarrow> Inr (pem_EncodeToMemory ''CERTIFICATE'' bytes))"

definition cert_template :: "nat \<Rightarrow> int \<Rightarrow> int \<Rightarrow> Certificate" where
  "cert_template serialNumber t notAfter =
     \<lparr>SerialNumber = serialNumber, Organization = [''IBP''], NotBefore = t - 5 * 1000000000, NotAfter = notAfter,
      certKeyUsage = {KeyEncipherment, DigitalSignature}, certExtKeyUsage = [ServerAuth],
      BasicConstraintsValid = True, IPAddresses = [], DNSNames = []\<rparr>"

definition SelfSignedCert :: "'k crypto \<Rightarrow> int \<Rightarrow> Param \<Rightarrow> 'k priv \<Rightarrow> string result" where
  "SelfSignedCert cr t params privKey = (case randInt cr (2 ^ 128) of
      Inl e \<Rightarrow> Inl (errors_Wrap e ''failed to generate serial number'')
    | Inr serialNumber \<Rightarrow>
        (let template = cert_template serialNumber t (pNotAfter params) in
         Cert cr template template privKey (pHosts params)))"

section \<open>GenerateTLSCrypto\<close>

text \<open>\<^verbatim>\<open>u.Hostname()\<close>: the host without a port and without the brackets of an IPv6 address.\<close>

definition url_Hostname :: "url \<Rightarrow> string" where
  "url_Hostname u =
     (let h = uHost u;
          after = rev (takeWhile (\<lambda>c. c \<noteq> CHR '':'') (rev h));
          stripped = (if CHR '':'' \<in> set h \<and> validOptionalPort (CHR '':'' # after)
                      then take (length h - length after - 1) h else h) in
      if has_prefix stripped ''['' \<and> has_suffix stripped '']'' then butlast (tl stripped) else stripped)"

definition one_year :: int where
  "one_year = 8766 * 3600 * 1000000000"

definition GenerateTLSCrypto :: "'k crypto \<Rightarrow> string \<Rightarrow> string \<Rightarrow> (Config \<times> string \<times> string) sys" where
  "GenerateTLSCrypto cr fileServerBaseURL sharedDir s =
     (case url_Parse fileServerBaseURL of
        None \<Rightarrow> (Err (ErrMsg ''url.Parse''), s)
      | Some u \<Rightarrow>
          (case PrivateKey cr of
             Inl e \<Rightarrow> (Err e, s)
           | Inr (tlsKey, tlsKeyBytes) \<Rightarrow>
               (case SelfSignedCert cr (now s) \<lparr>pHosts = [url_Hostname u], pNotAfter = now s + one_year\<rparr> tlsKey of
                  Inl e \<Rightarrow> (Err e, s)
                | Inr tlsCertBytes \<Rightarrow>
                    (case ConfigTLS cr tlsCertBytes tlsKeyBytes of
                       Inl e \<Rightarrow> (Err e, s)
                     | Inr tlsConfig \<Rightarrow>
                         seq (os_MkdirAll (sharedDir @ ''/certs'') 0x1E8) (\<lambda>_.
                         seq (os_WriteFile (sharedDir @ ''/certs/cert.pem'') (Raw tlsCertBytes) 0x180) (\<lambda>_.
                         seq (os_WriteFile (sharedDir @ ''/certs/key.pem'') (Raw tlsKeyBytes) 0x180) (\<lambda>_.
                         ret (tlsConfig, tlsKeyBytes, tlsCertBytes)))) s))))"

text \<open>The certificate as an environment variable: the lines joined by a backslash and an \<^verbatim>\<open>n\<close>.\<close>

definition tls_cert_string :: "string \<Rightarrow> string" where
  "tls_cert_string pem = join_with [CHR 0x5C, CHR ''n''] (split_on (CHR 0x0A) pem)"

section \<open>Log levels\<close>

datatype Level = DebugLevel | InfoLevel | WarnLevel | ErrorLevel

definition GetLogLevel :: "string \<Rightarrow> Level" where
  "GetLogLevel level =
     (let l = to_lower level in
      if l = ''debug'' then DebugLevel
      else if l = ''warn'' then WarnLevel
      else if l = ''error'' then ErrorLevel
      else InfoLevel)"

text \<open>
  Package zap, as \<^verbatim>\<open>SetupLogging\<close> uses it: an atomic level, a logger that writes JSON lines to the
  locked standard output at such a level, and changing the level, on a library state \<open>'z\<close>. The result
  is the new value of the variable \<^verbatim>\<open>Logger\<close>.
\<close>

record ('atom, 'log, 'z) zap =
  NewAtomicLevel :: "'z \<Rightarrow> 'atom \<times> 'z"
  NewStdoutLogger :: "'atom \<Rightarrow> 'log"
  SetLevel :: "'atom \<Rightarrow> Level \<Rightarrow> 'z \<Rightarrow> 'z"

definition SetupLogging :: "('atom, 'log, 'z) zap \<Rightarrow> string \<Rightarrow> 'z \<Rightarrow> 'log \<times> 'z" where
  "SetupLogging zp level z =
     (case NewAtomicLevel zp z of (atom, z') \<Rightarrow>
        (NewStdoutLogger zp atom, SetLevel zp atom (GetLogLevel level) z'))"

lemmas tls_defs [go_defs] = pem_EncodeToMemory_def ConfigTLS_def PrivateKey_def Cert_def cert_template_def
  SelfSignedCert_def url_Hostname_def one_year_def GenerateTLSCrypto_def tls_cert_string_def GetLogLevel_def

end
