(* ===== verification/Mains.thy ===== *)
theory Mains
  imports Commands Tls ServerHandlers FileTransferProofs
begin

text \<open>
  The two programs. \<^verbatim>\<open>cmd/ibp-builder-client\<close> runs one of the commands by the name it is called
  under; \<^verbatim>\<open>cmd/ibp-builder\<close> reads its flags and environment, cleans up old pods, makes its TLS
  files and starts the gRPC server and the file server on the same shared directory. Dialling,
  listening and the Kubernetes client configuration are parameters.
\<close>

section \<open>The client\<close>

record client_env =
  ceDial :: "string \<Rightarrow> nilerr"
  ceBuildConn :: "(BuildRequest, BuildResponse, os) grpc_conn"
  ceRunConn :: "(RunRequest, RunResponse, os) grpc_conn"

text \<open>A run of the client: exit code, standard error, file system. A panic exits with 2.\<close>

definition finish_command :: "int outcome \<times> string \<times> os \<Rightarrow> int \<times> string \<times> os" where
  "finish_command r = (case r of
      (Ok rc, out, s) \<Rightarrow> (rc, out, s)
    | (Err e, out, s) \<Rightarrow> (3, out @ ''External builder failed: '' @ error_text e @ [CHR 0x0A], s)
    | (Panic p, out, s) \<Rightarrow> (2, out @ ''panic: '' @ p, s))"

definition client_main :: "nat \<Rightarrow> (string \<Rightarrow> string option) \<Rightarrow> string list \<Rightarrow>
    ((string \<times> tar_header) list \<Rightarrow> (string \<times> tar_header) list) \<Rightarrow> client_env \<Rightarrow>
    string \<Rightarrow> string list \<Rightarrow> os \<Rightarrow> int \<times> string \<times> os" where
  "client_main d fl rnds ord ce arg0 args s =
     (let sharedDir = getenv s ''IBP_BUILDER_SHARED_DIR'';
          builderEndpoint = getenv s ''IBP_BUILDER_ENDPOINT'' in
      case ceDial ce builderEndpoint of
        Some e \<Rightarrow> (10, ''Failed to create connection to '' @ builderEndpoint @ '': '' @ error_text e, s)
      | None \<Rightarrow>
          (let cmd = path_Base arg0 in
           if cmd = ''detect'' then finish_command (Detect_Run args s)
           else if cmd = ''build'' then finish_command (Build_Run d fl rnds (ceBuildConn ce) sharedDir args s)
           else if cmd = ''release'' then finish_command (Release_Run ord args s)
           else if cmd = ''run'' then finish_command (Run_Run rnds (ceRunConn ce) sharedDir args s)
           else (99, ''Unexpected command: '' @ cmd, s)))"

section \<open>The server: configuration\<close>

record flags =
  kubeconfigPath :: string
  kubeNamespace :: string
  clientTimeout :: int
  peerID :: string
  sharedVolumePath :: string
  fileServerListenAddress :: string
  fileServerBaseURL :: string
  sidecarListenAddress :: string

definition default_flags :: flags where
  "default_flags = \<lparr>kubeconfigPath = [], kubeNamespace = [], clientTimeout = 5 * 60 * 10 ^ 9, peerID = ''unknown-peer'', sharedVolumePath = ''.'',
     fileServerListenAddress = '':22222'', fileServerBaseURL = [], sidecarListenAddress = ''127.0.0.1:11111''\<rparr>"

definition k8sConfigPath :: "flags \<Rightarrow> os \<Rightarrow> string" where
  "k8sConfigPath f s =
     (if kubeconfigPath f \<noteq> [] then kubeconfigPath f
      else (case environ s ''KUBECONFIG'' of
        Some kubeconfig \<Rightarrow> kubeconfig
      | None \<Rightarrow>
          (let home = getenv s ''HOME''; config = path_Join [home, ''.kube'', ''config''] in
           if home \<noteq> [] \<and> is_ok (fst (os_Stat config s)) then config else [])))"

definition k8sNamespace :: "flags \<Rightarrow> os \<Rightarrow> string" where
  "k8sNamespace f s =
     (if kubeNamespace f \<noteq> [] then kubeNamespace f
      else (case fst (ioutil_ReadFile ''/var/run/secrets/kubernetes.io/serviceaccount/namespace'' s) of
        Ok (Raw ns) \<Rightarrow> ns
      | _ \<Rightarrow> ''default''))"

definition fsBaseURL :: "flags \<Rightarrow> string" where
  "fsBaseURL f = (if fileServerBaseURL f \<noteq> [] then fileServerBaseURL f
     else ''https://'' @ fileServerListenAddress f @ ''/'')"

definition parseListEnv :: "string \<Rightarrow> string list" where
  "parseListEnv list = split_on (CHR '' '') list"

definition charset :: string where
  "charset = ''abcdefghijklmnopqrstuvwxyzABCDEFGHIJKLMNOPQRSTUVWXYZ0123456789''"

text \<open>
  \<^verbatim>\<open>GenerateRandomString\<close>: one draw below the size of the character set per character; a failing
  draw yields a nil number, whose use panics.
\<close>

fun GenerateRandomString :: "nat option list \<Rightarrow> nat \<Rightarrow> string outcome" where
  "GenerateRandomString draws 0 = Ok []"
| "GenerateRandomString (Some num # draws) (Suc n) =
     (case GenerateRandomString draws n of Ok t \<Rightarrow> Ok (charset ! num # t) | r \<Rightarrow> r)"
| "GenerateRandomString _ (Suc n) = Panic ''nil pointer dereference''"

text \<open>\<^verbatim>\<open>getEnvVar\<close>: the program exits when the variable is empty.\<close>

definition getEnvVar :: "os \<Rightarrow> string \<Rightarrow> (int \<times> string) + string" where
  "getEnvVar s name = (if getenv s name = [] then Inl (1, ''no '' @ name @ '' specified'') else Inr (getenv s name))"

fun get_env_vars :: "os \<Rightarrow> string list \<Rightarrow> (int \<times> string) + string list" where
  "get_env_vars s [] = Inr []"
| "get_env_vars s (v # vs) = (case getEnvVar s v of
      Inl x \<Rightarrow> Inl x
    | Inr x \<Rightarrow> (case get_env_vars s vs of Inl y \<Rightarrow> Inl y | Inr xs \<Rightarrow> Inr (x # xs)))"

section \<open>The server: start-up\<close>

record ('k, 'c) boot =
  bKube :: "'k kube"
  bCrypto :: "'c crypto"
  bRestConfig :: "string \<Rightarrow> nilerr"
  bNewClientSet :: "int \<Rightarrow> nilerr"
  bListen :: "string \<Rightarrow> nilerr"

text \<open>How the start-up ends: with an exit code and a message, by a panic, or serving.\<close>

datatype startup = Exited int string | Panicked string | Serving Server Handler

definition restClientConfig :: "('k, 'c) boot \<Rightarrow> string \<Rightarrow> nilerr" where
  "restClientConfig bt configPath = bRestConfig bt configPath"

definition build_server :: "flags \<Rightarrow> string \<Rightarrow> string \<Rightarrow> string \<Rightarrow> string list \<Rightarrow> Server" where
  "build_server f username password tlsCertBytes vars =
     \<lparr>SharedPath = sharedVolumePath f, FSBaseURL = fsBaseURL f, FileTransferImage = vars ! 0,
      BuilderImage = vars ! 1, GoEnvImage = vars ! 2, JavaEnvImage = vars ! 3, NodeEnvImage = vars ! 4,
      ImagePullSecrets = parseListEnv (vars ! 5), PeerID = peerID f,
      Auth = Some \<lparr>Username = username, Password = password\<rparr>, TLSCertString = tls_cert_string tlsCertBytes\<rparr>"

definition server_env_vars :: "string list" where
  "server_env_vars = [''FILETRANSFERIMAGE'', ''BUILDERIMAGE'', ''GOENVIMAGE'', ''JAVAENVIMAGE'', ''NODEENVIMAGE'',
     ''IMAGEPULLSECRETS'']"

text \<open>From the TLS files on: configuration, the two listeners, and serving.\<close>

definition start_servers :: "('k, 'c) boot \<Rightarrow> flags \<Rightarrow> string \<Rightarrow> string \<Rightarrow> os \<Rightarrow> startup \<times> os" where
  "start_servers bt f username password s =
     (case GenerateTLSCrypto (bCrypto bt) (fileServerBaseURL f) (sharedVolumePath f) s of
        (Err e, s1) \<Rightarrow> (Exited 21 (''failed to generate tls crypto: '' @ error_text e), s1)
      | (Panic p, s1) \<Rightarrow> (Panicked p, s1)
      | (Ok (tlsConfig, _, tlsCertBytes), s1) \<Rightarrow>
          (case get_env_vars s1 server_env_vars of
             Inl (rc, m) \<Rightarrow> (Exited rc m, s1)
           | Inr vars \<Rightarrow>
               (case bListen bt (sidecarListenAddress f) of
                  Some e \<Rightarrow> (Exited 12 (''failed to listen on sidecar listen address: '' @ error_text e), s1)
                | None \<Rightarrow>
                    (case bListen bt (fileServerListenAddress f) of
                       Some e \<Rightarrow> (Exited 13 (''failed to listen on file server listen address: '' @ error_text e), s1)
                     | None \<Rightarrow>
                         (Serving (build_server f username password tlsCertBytes vars)
                            \<lparr>hRoot = sharedVolumePath f, hUsername = username, hPassword = password\<rparr>, s1)))))"

definition server_main :: "('k, 'c) boot \<Rightarrow> flags \<Rightarrow> nat option list \<Rightarrow> nat option list \<Rightarrow> os \<Rightarrow> 'k world \<Rightarrow>
    startup \<times> os \<times> 'k world" where
  "server_main bt f draws1 draws2 s w =
     (case (GenerateRandomString draws1 16, GenerateRandomString draws2 16) of
        (Ok username, Ok password) \<Rightarrow>
          (case restClientConfig bt (k8sConfigPath f s) of
             Some e \<Rightarrow> (Exited 10 (''unable to establish connection to kubernetes: '' @ error_text e), s, w)
           | None \<Rightarrow>
               (case bNewClientSet bt (clientTimeout f) of
                  Some e \<Rightarrow> (Exited 11 (''unable to create client set: '' @ error_text e), s, w)
                | None \<Rightarrow>
                    (case start_servers bt f username password s of
                       (r, s') \<Rightarrow> (r, s', cleanup_completed (bKube bt) (peerID f) w))))
      | _ \<Rightarrow> (Panicked ''nil pointer dereference'', s, w))"

lemmas main_defs [go_defs] = finish_command_def client_main_def default_flags_def k8sConfigPath_def k8sNamespace_def
  fsBaseURL_def parseListEnv_def charset_def getEnvVar_def restClientConfig_def build_server_def server_env_vars_def
  start_servers_def server_main_def

end
