(* ===== verification/FsCopySpec.thy ===== *)
theory FsCopySpec
  imports FsCopy
begin

text \<open>
  What a successful copy leaves behind, exactly: the file system after \<^verbatim>\<open>CopyFile\<close> and
  \<^verbatim>\<open>CopyDir\<close> as a function of the one before, for system calls that do not fail.
\<close>

definition no_faults :: "os \<Rightarrow> bool" where
  "no_faults s \<longleftrightarrow> (\<forall>op k. fault s op k = None)"

lemma no_faultsD [simp]: "no_faults s \<Longrightarrow> fault s op k = None"
  by (simp add: no_faults_def)

lemma no_faults_env: "same_env s s' \<Longrightarrow> no_faults s \<Longrightarrow> no_faults s'"
  by (simp add: no_faults_def same_env_def)

lemma no_faults_put [simp]: "no_faults (put k n s) = no_faults s"
  "no_faults (put_new k n s) = no_faults s"
  by (simp_all add: no_faults_def)

text \<open>
  The copy of inode \<open>n\<close> over what was at the destination: a new entry gets the source's permission
  bits less the umask, an existing one keeps its own; contents and times are the source's.
\<close>

definition copy_of :: "32 word \<Rightarrow> inode \<Rightarrow> inode option \<Rightarrow> inode" where
  "copy_of um n old = (case old of
      None \<Rightarrow>
        (if kind n = KDir
         then \<lparr>kind = KDir, perm = file_mode n AND dir_perm_mask AND NOT um, data = Raw [],
               atime = atime n, mtime = mtime n\<rparr>
         else \<lparr>kind = KRegular, perm = file_mode n AND file_perm_mask AND NOT um, data = data n,
               atime = atime n, mtime = mtime n\<rparr>)
    | Some m \<Rightarrow>
        (if kind n = KDir then m\<lparr>atime := atime n, mtime := mtime n\<rparr>
         else m\<lparr>data := data n, atime := atime n, mtime := mtime n\<rparr>))"

text \<open>The inode of the parent directory after an entry was stored at \<open>k\<close>.\<close>

definition stored :: "key \<Rightarrow> inode \<Rightarrow> os \<Rightarrow> os" where
  "stored k n s = (if file_at s k = None then put_new k n s else put k n s)"

lemma file_at_stored:
  "file_at (stored k n s) k' =
     (if k' = k then Some n
      else if k' = butlast k \<and> file_at s k = None
        then map_option (\<lambda>n. n\<lparr>mtime := now s\<rparr>) (file_at s k')
      else file_at s k')"
  by (auto simp: stored_def file_at_put_new)

lemma stored_env: "same_env s (stored k n s)"
  by (simp add: stored_def same_env_def)

lemma put_put [simp]: "file_at (put k n' (put k n s)) = file_at (put k n' s)"
  by (simp add: fun_eq_iff)

section \<open>One file\<close>

lemma CopyFile_exact:
  assumes wf: "fs_wf s" and nf: "no_faults s" and ne: "dest \<noteq> []"
    and S: "file_at s (resolve (cwd s) src) = Some n" "kind n \<noteq> KDir"
    and D: "is_dir_at s (butlast (resolve (cwd s) dest))"
    and SD: "resolve (cwd s) src \<noteq> resolve (cwd s) dest"
    and old: "\<not> is_dir_at s (resolve (cwd s) dest)"
  shows "\<exists>s'. CopyFile src dest s = (Ok (), s') \<and> same_env s s' \<and>
    file_at s' = file_at (stored (resolve (cwd s) dest)
      (copy_of (umask s) n (file_at s (resolve (cwd s) dest))) s)"
proof -
  let ?S = "resolve (cwd s) src" and ?D = "resolve (cwd s) dest"
  have np: "?S \<noteq> butlast ?D" using S D by (auto simp: is_dir_at_iff)
  show ?thesis
  proof (cases "file_at s ?D")
    case None
    have "CopyFile src dest s = (Ok (), put ?D (copy_of (umask s) n None)
        (put ?D ((new_file s (file_mode n))\<lparr>data := data n, mtime := now s\<rparr>)
        (put_new ?D (new_file s (file_mode n)) s)))"
      using None S D SD np nf ne
      by (simp add: CopyFile_def os_Open_def with_key_def seq_def lookup_key_def os_OpenFile_def
          copyClose_def read_handle_def write_handle_def close_handle_def chtimes_def os_Chtimes_def
          file_at_put_new new_file_def copy_of_def)
    then show ?thesis using None
      by (auto simp: same_env_def fun_eq_iff file_at_stored file_at_put_new)
  next
    case (Some m)
    have "kind m \<noteq> KDir" using old Some by (simp add: is_dir_at_iff)
    then have "CopyFile src dest s = (Ok (), put ?D (copy_of (umask s) n (Some m))
        (put ?D (m\<lparr>data := data n, mtime := now s\<rparr>)
        (put ?D (m\<lparr>data := Raw [], mtime := now s\<rparr>) s)))"
      using Some S SD nf ne
      by (simp add: CopyFile_def os_Open_def with_key_def seq_def lookup_key_def os_OpenFile_def
          copyClose_def read_handle_def write_handle_def close_handle_def chtimes_def os_Chtimes_def
          copy_of_def)
    then show ?thesis using Some
      by (auto simp: same_env_def fun_eq_iff file_at_stored)
  qed
qed

lemma MkdirAll_exact:
  assumes wf: "fs_wf s" and nf: "no_faults s" and ne: "a \<noteq> []" and nm: "is_name c"
    and D: "is_dir_at s (resolve (cwd s) a)"
    and old: "\<And>m. file_at s (resolve (cwd s) a @ [c]) = Some m \<Longrightarrow> kind m = KDir"
  shows "os_MkdirAll (path_Join [a, c]) mode s = (Ok (),
    if file_at s (resolve (cwd s) a @ [c]) = None
    then put_new (resolve (cwd s) a @ [c]) (new_dir s mode) s else s)"
proof -
  have p: "mkdirs p (rev (resolve (cwd s) a)) mode s = (Ok (), s)" for p
    by (rule mkdirs_existing) (use wf D in auto)
  show ?thesis using ne nm nf old D
    by (auto simp: os_MkdirAll_def with_key_def lookup_key_def seq_def p mkdir_last_def
        mkdir_key_def split: option.splits)
qed

lemma chtimes_exact:
  assumes "no_faults s" and "path \<noteq> []" and "file_at s (resolve (cwd s) path) = Some m"
  shows "chtimes path fi s =
    (Ok (), put (resolve (cwd s) path) (m\<lparr>atime := atime fi, mtime := mtime fi\<rparr>) s)"
  using assms by (simp add: chtimes_def os_Chtimes_def with_key_def seq_def lookup_key_def)

section \<open>Directory trees\<close>

text \<open>
  The file system after the entries named in \<open>N\<close> of directory \<open>S\<close> were copied into directory \<open>D\<close>:
  every file below \<open>S\<close> through such an entry has its copy at the same place below \<open>D\<close>, and nothing
  else changes.
\<close>

definition copied :: "os \<Rightarrow> key \<Rightarrow> key \<Rightarrow> string set \<Rightarrow> key \<Rightarrow> inode option" where
  "copied s S D N k =
     (if strict_prefix D k \<and> k ! length D \<in> N then
        (case file_at s (S @ drop (length D) k) of
           Some n \<Rightarrow> Some (copy_of (umask s) n (file_at s k))
         | None \<Rightarrow> file_at s k)
      else file_at s k)"

definition copy_post :: "key \<Rightarrow> key \<Rightarrow> string set \<Rightarrow> os \<Rightarrow> os \<Rightarrow> bool" where
  "copy_post S D N s s' \<longleftrightarrow> same_env s s' \<and> fs_wf s' \<and>
     (\<forall>k. k \<noteq> D \<longrightarrow> file_at s' k = copied s S D N k) \<and>
     (file_at s' D = file_at s D \<or> file_at s' D = map_option (\<lambda>n. n\<lparr>mtime := now s\<rparr>) (file_at s D))"

text \<open>
  What a copy needs: two directories neither of which contains the other, no file where a
  directory is to go or the other way round, and directories nested at most \<open>d\<close> deep.
\<close>

definition copy_ready :: "key \<Rightarrow> key \<Rightarrow> string set \<Rightarrow> nat \<Rightarrow> os \<Rightarrow> bool" where
  "copy_ready S D N d s \<longleftrightarrow> fs_wf s \<and> no_faults s \<and> is_dir_at s S \<and> is_dir_at s D \<and>
     \<not> prefix S D \<and> \<not> prefix D S \<and>
     (\<forall>c r n m. c \<in> N \<longrightarrow> file_at s (S @ c # r) = Some n \<longrightarrow> file_at s (D @ c # r) = Some m \<longrightarrow>
        (kind n = KDir) = (kind m = KDir)) \<and>
     (\<forall>r. is_dir_at s (S @ r) \<longrightarrow> length r \<le> d)"

lemma copy_ready_kinds:
  "copy_ready S D N d s \<Longrightarrow> c \<in> N \<Longrightarrow> file_at s (S @ c # r) = Some n \<Longrightarrow>
   file_at s (D @ c # r) = Some m \<Longrightarrow> (kind n = KDir) = (kind m = KDir)"
  unfolding copy_ready_def by blast

lemma copied_child [simp]:
  "copied s S D N (D @ c # r) =
     (if c \<in> N then (case file_at s (S @ c # r) of
         Some n \<Rightarrow> Some (copy_of (umask s) n (file_at s (D @ c # r)))
       | None \<Rightarrow> file_at s (D @ c # r))
      else file_at s (D @ c # r))"
  by (simp add: copied_def nth_append strict_prefix_def)

lemma copied_outside: "\<not> prefix D k \<Longrightarrow> copied s S D N k = file_at s k"
  by (simp add: copied_def strict_prefix_def)

lemma key_cases:
  obtains "k = D" | c r where "k = D @ c # r" | "\<not> prefix D k"
  by (metis append_Nil2 list.exhaust prefixE)

lemma parallel_append: "\<not> prefix S D \<Longrightarrow> \<not> prefix D S \<Longrightarrow> \<not> prefix D (S @ r)"
  by (metis prefix_append prefix_same_cases prefixI)

lemma copy_post_source:
  "copy_post S D N s s' \<Longrightarrow> \<not> prefix S D \<Longrightarrow> \<not> prefix D S \<Longrightarrow>
   file_at s' (S @ r) = file_at s (S @ r)"
  by (metis copied_outside copy_post_def parallel_append prefix_order.refl)

lemma copy_post_dir:
  assumes "copy_post S D N s s'" and "is_dir_at s k"
    and "\<And>c r n m. c \<in> N \<Longrightarrow> file_at s (S @ c # r) = Some n \<Longrightarrow> file_at s (D @ c # r) = Some m \<Longrightarrow>
        (kind n = KDir) = (kind m = KDir)"
  shows "is_dir_at s' k"
proof (cases rule: key_cases [of k D])
  case 1
  then show ?thesis using assms(1,2) by (auto simp: copy_post_def is_dir_at_iff)
next
  case (2 c r)
  then have "file_at s' k = copied s S D N k" using assms(1) by (simp add: copy_post_def)
  then show ?thesis using 2 assms(2,3)
    by (auto simp: is_dir_at_iff copy_of_def split: option.splits if_splits)
next
  case 3
  then have "file_at s' k = file_at s k"
    using assms(1) by (metis copied_outside copy_post_def prefix_order.refl)
  then show ?thesis using assms(2) by (simp add: is_dir_at_iff)
qed

lemma copy_post_trans:
  assumes "copy_post S D M s s1" and "copy_post S D N s1 s2" and dj: "M \<inter> N = {}"
    and par: "\<not> prefix S D" "\<not> prefix D S"
  shows "copy_post S D (M \<union> N) s s2"
proof -
  have env: "same_env s s1" "same_env s1 s2" and wf: "fs_wf s2"
    using assms by (auto simp: copy_post_def)
  have src: "file_at s1 (S @ r) = file_at s (S @ r)" for r
    using copy_post_source [OF assms(1) par] .
  have "file_at s2 k = copied s S D (M \<union> N) k" if "k \<noteq> D" for k
  proof (cases rule: key_cases [of k D])
    case (2 c r)
    have "file_at s2 k = copied s1 S D N k" and "file_at s1 k = copied s S D M k"
      using assms(1,2) that by (auto simp: copy_post_def)
    then show ?thesis using 2 src dj env
      by (auto simp: same_env_def split: option.splits)
  next
    case 3
    then show ?thesis using assms(1,2) that by (simp add: copy_post_def copied_outside)
  qed (use that in simp)
  moreover have "file_at s2 D = file_at s D \<or>
      file_at s2 D = map_option (\<lambda>n. n\<lparr>mtime := now s\<rparr>) (file_at s D)"
    using assms(1,2) env
    by (auto simp: copy_post_def same_env_def option.map_comp comp_def)
  ultimately show ?thesis using env wf by (auto simp: copy_post_def same_env_def)
qed

text \<open>One entry that is not a directory.\<close>

lemma copy_file_entry:
  assumes rd: "copy_ready S D N d s" and S: "S = resolve (cwd s) src" and D: "D = resolve (cwd s) dest"
    and ne: "src \<noteq> []" "dest \<noteq> []" and c: "c \<in> N" "is_name c"
    and fc: "file_at s (S @ [c]) = Some n" "kind n \<noteq> KDir"
  shows "\<exists>s'. CopyFile (path_Join [src, c]) (path_Join [dest, c]) s = (Ok (), s') \<and>
    copy_post S D {c} s s'"
proof -
  let ?k = "D @ [c]"
  have wf: "fs_wf s" and nf: "no_faults s" and dD: "is_dir_at s D"
    and par: "\<not> prefix S D" "\<not> prefix D S"
    using rd by (auto simp: copy_ready_def)
  have old: "\<not> is_dir_at s ?k"
    using rd c fc by (fastforce simp: copy_ready_def is_dir_at_iff)
  have kr: "resolve (cwd s) (path_Join [dest, c]) = ?k" "resolve (cwd s) (path_Join [src, c]) = S @ [c]"
    using S D ne c by auto
  have "S @ [c] \<noteq> ?k" using par by auto
  then obtain s' where s': "CopyFile (path_Join [src, c]) (path_Join [dest, c]) s = (Ok (), s')"
    and env: "same_env s s'"
    and fa: "file_at s' = file_at (stored ?k (copy_of (umask s) n (file_at s ?k)) s)"
    using CopyFile_exact [of s "path_Join [dest, c]" "path_Join [src, c]" n] wf nf ne fc dD old kr
    by auto
  have "confined (cwd s) {D} ?k (CopyFile (path_Join [src, c]) (path_Join [dest, c]))"
    using confined_CopyFile [of "cwd s" "{D}" "path_Join [dest, c]"] kr by simp
  from confinedD [OF this wf refl _ s'] have "fs_wf s'" using dD step_below_wf by blast
  moreover have "file_at s' k = copied s S D {c} k" if "k \<noteq> D" for k
  proof (cases rule: key_cases [of k D])
    case (2 c' r)
    have "file_at s (S @ c # x # xs) = None" for x xs
    proof (rule ccontr)
      assume "file_at s (S @ c # x # xs) \<noteq> None"
      then have "is_dir_at s (S @ [c])" using fs_wf_prefix_dir [OF wf, of "S @ [c]" "x # xs"] by simp
      then show False using fc by (simp add: is_dir_at_iff)
    qed
    then show ?thesis using 2 fc fa
      by (cases r) (auto simp: file_at_stored)
  next
    case 3
    then show ?thesis using that fa by (auto simp: copied_outside file_at_stored)
  qed (use that in simp)
  moreover have "file_at s' D = file_at s D \<or>
      file_at s' D = map_option (\<lambda>n. n\<lparr>mtime := now s\<rparr>) (file_at s D)"
    using fa by (auto simp: file_at_stored)
  ultimately show ?thesis using s' env by (auto simp: copy_post_def)
qed

text \<open>One entry that is a directory: made if missing, filled, then given the source's times.\<close>

lemma copy_dir_entry:
  assumes rd: "copy_ready S D N d s" and c: "c \<in> N" "is_name c"
    and fc: "file_at s (S @ [c]) = Some n" "kind n = KDir"
    and s1: "s1 = (if file_at s (D @ [c]) = None then put_new (D @ [c]) (new_dir s (file_mode n)) s else s)"
    and p: "copy_post (S @ [c]) (D @ [c]) UNIV s1 s2"
    and m: "file_at s2 (D @ [c]) = Some m"
    and s3: "s3 = put (D @ [c]) (m\<lparr>atime := atime n, mtime := mtime n\<rparr>) s2"
  shows "copy_post S D {c} s s3"
proof -
  let ?k = "D @ [c]"
  have env: "same_env s s1" "same_env s1 s2" using s1 p by (auto simp: copy_post_def same_env_def)
  have par: "\<not> prefix S D" "\<not> prefix D S" using rd by (auto simp: copy_ready_def)
  have old: "kind m' = KDir" if "file_at s ?k = Some m'" for m'
    using copy_ready_kinds [OF rd c(1), of "[]"] fc that by auto
  have f1: "file_at s1 k = file_at s k" if "k \<noteq> D" "k \<noteq> ?k" for k
    using that s1 by (auto simp: file_at_put_new)
  have f2: "file_at s2 k = copied s1 (S @ [c]) ?k UNIV k" if "k \<noteq> ?k" for k
    using p that by (simp add: copy_post_def)
  have km: "kind m = KDir"
    using p m s1 old by (auto simp: copy_post_def file_at_put_new new_dir_def split: if_splits)
  have fk: "file_at s3 ?k = Some (copy_of (umask s) n (file_at s ?k))"
    using p m s1 s3 fc env
    by (auto simp: copy_post_def copy_of_def file_at_put_new new_dir_def split: if_splits)
  have out: "file_at s3 k = file_at s1 k" if "\<not> prefix ?k k" for k
    using that f2 [of k] s3 by (auto simp: copied_outside)
  have "file_at s3 k = copied s S D {c} k" if "k \<noteq> D" for k
  proof (cases rule: key_cases [of k ?k])
    case 1
    then show ?thesis using fk fc by simp
  next
    case (2 c' r)
    have "S @ c # c' # r \<noteq> D" "S @ c # c' # r \<noteq> ?k" "D @ c # c' # r \<noteq> D"
      using par parallel_append [OF par, of "c # c' # r"] by auto
    then show ?thesis using 2 s3 f2 [of k] f1 env
      by (auto simp: same_env_def copied_child [of s1 "S @ [c]" "D @ [c]", simplified]
          split: option.splits)
  next
    case 3
    show ?thesis
    proof (cases rule: key_cases [of k D])
      case (2 c' r)
      then show ?thesis using 3 out [OF 3] f1 [OF that] by auto
    qed (use 3 out that f1 in \<open>auto simp: copied_outside\<close>)
  qed
  moreover have "file_at s3 D = file_at s D \<or>
      file_at s3 D = map_option (\<lambda>n. n\<lparr>mtime := now s\<rparr>) (file_at s D)"
    using out [of D] s1 by (auto simp: file_at_put_new)
  moreover have "fs_wf s3" using p m km unfolding s3 by (intro fs_wf_put) (auto simp: copy_post_def)
  ultimately show ?thesis using env s3 by (auto simp: copy_post_def same_env_def)
qed

lemma copy_ready_subdir:
  assumes rd: "copy_ready S D N d s" and c: "c \<in> N" "is_name c"
    and fc: "file_at s (S @ [c]) = Some n" "kind n = KDir"
    and s1: "s1 = (if file_at s (D @ [c]) = None then put_new (D @ [c]) (new_dir s (file_mode n)) s else s)"
  shows "copy_ready (S @ [c]) (D @ [c]) UNIV (d - 1) s1" and "0 < d"
proof -
  let ?k = "D @ [c]"
  have wf: "fs_wf s" and dD: "is_dir_at s D" and par: "\<not> prefix S D" "\<not> prefix D S"
    and dep: "\<And>r. is_dir_at s (S @ r) \<Longrightarrow> length r \<le> d" and dS: "is_dir_at s S"
    using rd by (auto simp: copy_ready_def)
  have nmk: "is_name w" if "w \<in> set ?k" for w
    using that c fs_wf_names [OF wf is_dir_at_exists [OF dD]] by auto
  have wf1: "fs_wf s1" using s1 wf dD nmk by (auto intro!: fs_wf_put_new)
  have old: "kind m = KDir" if "file_at s ?k = Some m" for m
    using copy_ready_kinds [OF rd c(1), of "[]"] fc that by auto
  have dk: "is_dir_at s1 ?k"
    using s1 old by (auto simp: new_dir_def is_dir_at_iff file_at_put_new)
  have src: "file_at s1 (S @ r) = file_at s (S @ r)" for r
    using parallel_append [OF par, of r] s1 by (auto simp: file_at_put_new)
  have dsrc: "is_dir_at s1 (S @ r) = is_dir_at s (S @ r)" for r using src by (simp add: is_dir_at_iff)
  have kd: "(kind a = KDir) = (kind b = KDir)"
    if "file_at s1 (S @ c # c' # r) = Some a" "file_at s1 (D @ c # c' # r) = Some b" for c' r a b
  proof -
    have "file_at s1 (D @ c # c' # r) = file_at s (D @ c # c' # r)"
      using s1 by (auto simp: file_at_put_new)
    then show ?thesis using copy_ready_kinds [OF rd c(1), of "c' # r" a b] that src [of "c # c' # r"] by simp
  qed
  have dc: "is_dir_at s1 (S @ [c])" using fc src [of "[c]"] by (simp add: is_dir_at_iff)
  have "length r \<le> d - 1" if "is_dir_at s1 ((S @ [c]) @ r)" for r
    using dep [of "c # r"] that dsrc [of "c # r"] by simp
  then show "copy_ready (S @ [c]) ?k UNIV (d - 1) s1"
    using wf1 dk dc kd par rd s1 parallel_append [OF par, of "[c]"] parallel_append [OF par(2,1), of "[c]"]
    by (auto simp: copy_ready_def no_faults_def dest: append_prefixD)
  show "0 < d" using dep [of "[c]"] dsrc [of "[c]"] dc by simp
qed

lemma copy_ready_next:
  assumes "copy_ready S D N d s" and p: "copy_post S D {c} s s'" and "c \<in> N" and "c \<notin> M" and "M \<subseteq> N"
  shows "copy_ready S D M d s'"
proof -
  have par: "\<not> prefix S D" "\<not> prefix D S" and nf: "no_faults s" and dD: "is_dir_at s D"
    and dS: "is_dir_at s S"
    and kd: "\<And>c r n m. c \<in> N \<Longrightarrow> file_at s (S @ c # r) = Some n \<Longrightarrow> file_at s (D @ c # r) = Some m \<Longrightarrow>
        (kind n = KDir) = (kind m = KDir)"
    and dep: "\<And>r. is_dir_at s (S @ r) \<Longrightarrow> length r \<le> d"
    using assms(1) unfolding copy_ready_def by blast+
  have src: "file_at s' (S @ r) = file_at s (S @ r)" for r using copy_post_source [OF p par] .
  have dsrc: "is_dir_at s' (S @ r) = is_dir_at s (S @ r)" for r using src by (simp add: is_dir_at_iff)
  have dst: "file_at s' (D @ c' # r) = file_at s (D @ c' # r)" if "c' \<noteq> c" for c' r
    using p that by (simp add: copy_post_def)
  have "is_dir_at s' D" using copy_post_dir [OF p dD] kd assms(3) by blast
  moreover have "is_dir_at s' S" using dsrc [of "[]"] dS by simp
  moreover have "no_faults s'" "fs_wf s'" using p nf by (auto simp: copy_post_def no_faults_env)
  moreover have "(kind n = KDir) = (kind m = KDir)"
    if "c' \<in> M" "file_at s' (S @ c' # r) = Some n" "file_at s' (D @ c' # r) = Some m" for c' r n m
  proof -
    have "c' \<noteq> c" "c' \<in> N" using that(1) assms(4,5) by auto
    then show ?thesis using kd [of c' r n m] that src [of "c' # r"] dst [of c' r] by simp
  qed
  ultimately show ?thesis using par dep dsrc by (simp add: copy_ready_def)
qed

lemma copy_post_Nil:
  assumes "fs_wf s"
  shows "copy_post S D {} s s"
  using assms by (simp add: copy_post_def same_env_def copied_def)

lemma copy_post_cwd: "copy_post S D N s s' \<Longrightarrow> cwd s' = cwd s"
  by (simp add: copy_post_def same_env_def)

text \<open>One entry, given that the recursion copies the subdirectories.\<close>

lemma copy_one_entry:
  assumes sub: "\<And>src dest s. copy_ready (resolve (cwd s) src) (resolve (cwd s) dest) UNIV (d - 1) s \<Longrightarrow>
      0 < d \<Longrightarrow> src \<noteq> [] \<Longrightarrow> dest \<noteq> [] \<Longrightarrow>
      \<exists>s'. CopyDir d src dest s = (Ok (), s') \<and>
        copy_post (resolve (cwd s) src) (resolve (cwd s) dest) UNIV s s'"
    and ne: "src \<noteq> []" "dest \<noteq> []" and rd: "copy_ready S D N d s"
    and SD: "S = resolve (cwd s) src" "D = resolve (cwd s) dest"
    and cN: "c \<in> N" and fc: "file_at s (S @ [c]) = Some n"
  shows "\<exists>s1. copy_post S D {c} s s1 \<and> copy_entries d src dest ((c, n) # es) s = copy_entries d src dest es s1"
proof (cases "kind n = KDir")
  have wf: "fs_wf s" and nf: "no_faults s" and dD: "is_dir_at s D" using rd by (auto simp: copy_ready_def)
  have nm: "is_name c" using fs_wf_name [OF wf fc] .
  have kr: "resolve (cwd s) (path_Join [dest, c]) = D @ [c]" "resolve (cwd s) (path_Join [src, c]) = S @ [c]"
    using SD ne nm by auto
  {
    case False
    from copy_file_entry [OF rd SD ne cN nm fc False] False
    show ?thesis by (auto simp: Let_def seq_def)
  next
    case True
    define s1 where "s1 = (if file_at s (D @ [c]) = None
      then put_new (D @ [c]) (new_dir s (file_mode n)) s else s)"
    note rd1 = copy_ready_subdir [OF rd cN nm fc True s1_def]
    have cw: "cwd s1 = cwd s" by (simp add: s1_def)
    have old: "\<And>m. file_at s (D @ [c]) = Some m \<Longrightarrow> kind m = KDir"
      using rd cN fc True unfolding copy_ready_def by blast
    have mk: "os_MkdirAll (path_Join [dest, c]) (file_mode n) s = (Ok (), s1)"
      using MkdirAll_exact [OF wf nf ne(2) nm] dD old SD(2) by (simp add: s1_def)
    obtain s2 where s2: "CopyDir d (path_Join [src, c]) (path_Join [dest, c]) s1 = (Ok (), s2)"
      and p2: "copy_post (S @ [c]) (D @ [c]) UNIV s1 s2"
      using sub [of s1 "path_Join [src, c]" "path_Join [dest, c]"] rd1 kr cw ne by auto
    have "is_dir_at s2 (D @ [c])"
      using copy_post_dir [OF p2, of "D @ [c]"] rd1(1) unfolding copy_ready_def by blast
    then obtain m where m: "file_at s2 (D @ [c]) = Some m" by (auto simp: is_dir_at_iff)
    have nf2: "no_faults s2" and cw2: "cwd s2 = cwd s"
      using p2 rd1(1) cw by (auto simp: copy_ready_def copy_post_def no_faults_def same_env_def)
    have ch: "chtimes (path_Join [dest, c]) n s2 =
        (Ok (), put (D @ [c]) (m\<lparr>atime := atime n, mtime := mtime n\<rparr>) s2)"
      using chtimes_exact [OF nf2, of "path_Join [dest, c]" m n] m kr cw2 ne by simp
    from copy_dir_entry [OF rd cN nm fc True s1_def p2 m refl]
    show ?thesis using True mk s2 ch by (auto simp: Let_def seq_def)
  }
qed

text \<open>All entries.\<close>

lemma copy_entries_correct:
  assumes sub: "\<And>src dest s. copy_ready (resolve (cwd s) src) (resolve (cwd s) dest) UNIV (d - 1) s \<Longrightarrow>
      0 < d \<Longrightarrow> src \<noteq> [] \<Longrightarrow> dest \<noteq> [] \<Longrightarrow>
      \<exists>s'. CopyDir d src dest s = (Ok (), s') \<and>
        copy_post (resolve (cwd s) src) (resolve (cwd s) dest) UNIV s s'"
    and ne: "src \<noteq> []" "dest \<noteq> []"
  shows "copy_ready S D (fst ` set es) d s \<Longrightarrow> S = resolve (cwd s) src \<Longrightarrow> D = resolve (cwd s) dest \<Longrightarrow>
     distinct (map fst es) \<Longrightarrow> (\<And>c n. (c, n) \<in> set es \<Longrightarrow> file_at s (S @ [c]) = Some n) \<Longrightarrow>
     \<exists>s'. copy_entries d src dest es s = (Ok (), s') \<and> copy_post S D (fst ` set es) s s'"
proof (induction es arbitrary: s)
  case Nil
  then show ?case by (simp add: copy_ready_def copy_post_Nil)
next
  case (Cons e es)
  obtain c n where e: "e = (c, n)" by (cases e)
  have fc: "file_at s (S @ [c]) = Some n" using Cons.prems(5) [of c n] e by simp
  have par: "\<not> prefix S D" "\<not> prefix D S" using Cons.prems(1) by (auto simp: copy_ready_def)
  have cN: "c \<in> fst ` set (e # es)" using e by simp
  obtain s1 where p1: "copy_post S D {c} s s1"
    and eq: "copy_entries d src dest (e # es) s = copy_entries d src dest es s1"
    using copy_one_entry [OF sub ne Cons.prems(1-3) cN fc] e by blast
  have cw: "cwd s1 = cwd s" using copy_post_cwd [OF p1] .
  have cn: "c \<notin> fst ` set es" using Cons.prems(4) e by auto
  have rd: "copy_ready S D (fst ` set es) d s1"
    by (rule copy_ready_next [OF Cons.prems(1) p1 cN cn]) auto
  have fs: "file_at s1 (S @ [c']) = Some n'" if "(c', n') \<in> set es" for c' n'
    using Cons.prems(5) [of c' n'] that copy_post_source [OF p1 par, of "[c']"] by simp
  obtain s' where "copy_entries d src dest es s1 = (Ok (), s')" and "copy_post S D (fst ` set es) s1 s'"
    using Cons.IH [OF rd _ _ _ fs] Cons.prems(2,3,4) cw by auto
  then show ?case
    using eq e copy_post_trans [OF p1 _ _ par, of "fst ` set es" s'] cn by auto
qed

text \<open>A name without an entry has nothing below it, so copying all entries copies everything.\<close>

lemma copied_all_entries:
  assumes "fs_wf s"
  shows "copied s S D (set (children s S)) k = copied s S D UNIV k"
proof (cases rule: key_cases [of k D])
  case (2 c r)
  have "file_at s (S @ c # r) = None" if "c \<notin> set (children s S)"
  proof (rule ccontr)
    assume "file_at s (S @ c # r) \<noteq> None"
    then have "file_at s (S @ [c]) \<noteq> None"
      using fs_wf_prefix_dir [OF assms, of "S @ [c]" r] is_dir_at_exists by (cases r) auto
    with that show False by (simp add: set_children)
  qed
  with 2 show ?thesis by auto
qed (auto simp: copied_def)

lemma CopyDir_step:
  assumes sub: "\<And>src dest s. copy_ready (resolve (cwd s) src) (resolve (cwd s) dest) UNIV (d - 1) s \<Longrightarrow>
      0 < d \<Longrightarrow> src \<noteq> [] \<Longrightarrow> dest \<noteq> [] \<Longrightarrow>
      \<exists>s'. CopyDir d src dest s = (Ok (), s') \<and>
        copy_post (resolve (cwd s) src) (resolve (cwd s) dest) UNIV s s'"
    and rd: "copy_ready (resolve (cwd s) src) (resolve (cwd s) dest) UNIV d s"
    and ne: "src \<noteq> []" "dest \<noteq> []"
  shows "\<exists>s'. CopyDir (Suc d) src dest s = (Ok (), s') \<and>
     copy_post (resolve (cwd s) src) (resolve (cwd s) dest) UNIV s s'"
proof -
  let ?S = "resolve (cwd s) src" and ?D = "resolve (cwd s) dest"
  define es where "es = map (\<lambda>c. (c, the (file_at s (?S @ [c])))) (children s ?S)"
  have wf: "fs_wf s" and nf: "no_faults s" and dS: "is_dir_at s ?S"
    using rd by (auto simp: copy_ready_def)
  have rdir: "ioutil_ReadDir src s = (Ok es, s)"
    using nf ne dS by (simp add: ioutil_ReadDir_Ok es_def)
  have fst_es: "map fst es = children s ?S" by (simp add: es_def comp_def)
  have names: "fst ` set es = set (children s ?S)" using fst_es by (metis list.set_map)
  have rdN: "copy_ready ?S ?D (fst ` set es) d s" using rd by (auto simp: copy_ready_def)
  have fc: "file_at s (?S @ [c]) = Some n" if "(c, n) \<in> set es" for c n
    using that by (auto simp: es_def set_children)
  obtain s' where s': "copy_entries d src dest es s = (Ok (), s')"
    and p: "copy_post ?S ?D (fst ` set es) s s'"
    using copy_entries_correct [OF sub ne rdN refl refl _ fc] distinct_children [OF wf] fst_es
    by auto
  have "copy_post ?S ?D UNIV s s'"
    using p unfolding copy_post_def names copied_all_entries [OF wf] by simp
  then show ?thesis using s' rdir by (auto simp: seq_def)
qed

lemma CopyDir_exact:
  "copy_ready (resolve (cwd s) src) (resolve (cwd s) dest) UNIV d s \<Longrightarrow> src \<noteq> [] \<Longrightarrow> dest \<noteq> [] \<Longrightarrow>
   \<exists>s'. CopyDir (Suc d) src dest s = (Ok (), s') \<and>
     copy_post (resolve (cwd s) src) (resolve (cwd s) dest) UNIV s s'"
proof (induction d arbitrary: src dest s)
  case 0
  then show ?case by (intro CopyDir_step) auto
next
  case (Suc d)
  then show ?case by (intro CopyDir_step [where d = "Suc d"]) auto
qed

end
