(* ===== verification/FsProps.thy ===== *)
theory FsProps
  imports FsCopySpec FsTar
begin

text \<open>
  Properties of package \<^verbatim>\<open>fs\<close>: what copying a tree and extracting an archive write, where, and
  that a relative path computed for a file below a directory leads back to it.
\<close>

section \<open>Extracting stays below the destination\<close>

lemma mkdirs_deep:
  "fs_wf s \<Longrightarrow> is_dir_at s K \<Longrightarrow> rev rk = K @ rest \<Longrightarrow> (\<And>w. w \<in> set rk \<Longrightarrow> is_name w) \<Longrightarrow>
   mkdirs path rk mode s = (r, s') \<Longrightarrow> step_below K s s'"
proof (induction rk arbitrary: path rest r s')
  case Nil
  then show ?case by (auto intro: step_below_refl)
next
  case (Cons n rk)
  show ?case
  proof (cases "rest = []")
    case True
    then show ?thesis using mkdirs_existing [of s "n # rk" path mode] Cons.prems by (auto intro: step_below_refl)
  next
    case False
    then obtain rest' where rest': "rest = rest' @ [n]" "rev rk = K @ rest'"
      using Cons.prems(3) by (cases rest rule: rev_cases) auto
    have step: "step_below K s s1" if "mkdirs p rk mode s = (q, s1)" for p q s1
      using Cons.IH [OF Cons.prems(1,2) rest'(2) _ that] Cons.prems(4) by simp
    have "step_below K s s'" if "seq (mkdirs (path_Dir path) rk mode) (\<lambda>_. mkdir_last path (rev (n # rk)) mode) s = (r, s')"
    proof (rule step_below_seq [OF _ _ that])
      show "step_below K s s1" if "mkdirs (path_Dir path) rk mode s = (q, s1)" for q s1
        using step [OF that] .
      show "step_below K s1 s2"
        if "step_below K s s1" "mkdir_last path (rev (n # rk)) mode s1 = (q, s2)" for s1 q s2
      proof -
        have "w \<in> set (rev (n # rk)) \<Longrightarrow> is_name w" for w using Cons.prems(4) by auto
        from mkdir_last_below [OF step_below_wf [OF that(1)] that(2) this]
        have "step_below (K @ (rest' @ [n])) s1 s2" using rest' by simp
        then show ?thesis by (rule step_below_mono)
      qed
    qed
    then show ?thesis using Cons.prems(1,5)
      by (auto simp: lookup_key_def step_below_refl split: option.splits if_splits)
  qed
qed

lemma confined_MkdirAll_deep:
  assumes "K \<in> ds" "prefix K (resolve c path)"
  shows "confined c ds K (os_MkdirAll path mode)"
proof (rule confinedI)
  fix s r s'
  assume wf: "fs_wf s" and c: "cwd s = c" and ds: "\<And>d. d \<in> ds \<Longrightarrow> is_dir_at s d"
    and m: "os_MkdirAll path mode s = (r, s')"
  obtain rest where rest: "resolve c path = K @ rest" using assms(2) by (auto simp: prefix_def)
  have names: "w \<in> set (rev (resolve c path)) \<Longrightarrow> is_name w" for w using fs_wf_resolve [OF wf] c by auto
  show "step_below K s s'"
  proof (cases "path = []")
    case True
    then show ?thesis using m wf by (auto simp: os_MkdirAll_def with_key_def intro: step_below_refl)
  next
    case False
    then have "mkdirs path (rev (resolve c path)) mode s = (r, s')"
      using m c by (simp add: os_MkdirAll_def with_key_def)
    from mkdirs_deep [OF wf ds [OF assms(1)] _ names this] rest show ?thesis by simp
  qed
qed

lemma confined_below: "prefix K k \<Longrightarrow> confined c ds k m \<Longrightarrow> confined c ds K m"
  by (auto simp: prefix_def intro: confined_mono)

definition safe_name :: "tar_header \<Rightarrow> bool" where
  "safe_name h \<longleftrightarrow> ''..'' \<notin> set (slash_split (path_Clean (hName h)))"

lemma extract_target_below:
  "dest \<noteq> [] \<Longrightarrow> safe_name h \<Longrightarrow> prefix (resolve c dest) (resolve c (extract_target dest h))"
  unfolding extract_target_def safe_name_def by (rule resolve_Join_below)

lemma confined_extract_entries:
  "dest \<noteq> [] \<Longrightarrow> (\<And>h b. (h, b) \<in> set es \<Longrightarrow> safe_name h) \<Longrightarrow>
   confined c {resolve c dest} (resolve c dest) (extract_entries dest es end dirs)"
proof (induction es arbitrary: dirs)
  case Nil
  show ?case by (cases "end") (auto intro: confined_rules)
next
  case (Cons e es)
  obtain h b where e: "e = (h, b)" by (cases e)
  let ?t = "extract_target dest h" and ?K = "resolve c dest"
  have below: "prefix ?K (resolve c ?t)" using extract_target_below [OF Cons.prems(1), of h] Cons.prems(2) [of h b] e by simp
  have rest: "confined c {?K} ?K (extract_entries dest es end ds)" for ds using Cons by auto
  have open': "confined c {?K} ?K (seq (os_OpenFile False (path_Clean ?t) (hMode h)) (\<lambda>fl.
      copyClose (path_Clean ?t) fl (ret b)))"
    by (rule confined_below [OF below], rule confined_OpenFile_seq) (auto intro: confined_rules)
  have time: "confined c {?K} ?K (os_Chtimes ?t at mt)" for at mt
    by (rule confined_below [OF below]) (rule confined_writes)
  have assoc: "seq m (\<lambda>a. seq (f a) g) = seq (seq m f) g" for m :: "'x sys" and f :: "'x \<Rightarrow> 'y sys" and g :: "'y \<Rightarrow> 'z sys"
    by (auto simp: seq_def fun_eq_iff split: prod.splits outcome.splits)
  show ?case unfolding e using below rest open' time
    by (auto simp: Let_def assoc intro!: confined_seq confined_MkdirAll_deep confined_rules simp del: seq_def)
qed

text \<open>The directories remembered for later are targets of entries.\<close>

lemma extract_entries_dirs:
  "extract_entries dest es end dirs s = (Ok ds, s') \<Longrightarrow>
   fst ` set ds \<subseteq> fst ` set dirs \<union> (extract_target dest \<circ> fst) ` set es"
proof (induction es arbitrary: dirs s)
  case Nil
  then show ?case by (cases "end") auto
next
  case (Cons e es)
  obtain h b where e: "e = (h, b)" by (cases e)
  have keys: "fst ` set (AList.update k v al) = insert k (fst ` set al)" for k :: string and v :: tar_header and al
    by (simp add: dom_update)
  from Cons.prems obtain dirs1 s1 where run: "extract_entries dest es end dirs1 s1 = (Ok ds, s')"
      and d1: "dirs1 = dirs \<or> dirs1 = AList.update (extract_target dest h) h dirs"
    unfolding e by (auto simp: Let_def elim!: seq_OkE split: if_splits)
  have "fst ` set dirs1 \<subseteq> insert (extract_target dest h) (fst ` set dirs)"
    using d1 keys [of "extract_target dest h" h dirs] by (elim disjE) (simp_all add: subset_insertI)
  moreover have gen: "A \<subseteq> B \<union> X \<Longrightarrow> B \<subseteq> insert t D \<Longrightarrow> A \<subseteq> D \<union> insert t X" for A B D X :: "string set" and t
    by blast
  ultimately have "fst ` set ds \<subseteq> fst ` set dirs \<union>
      insert (extract_target dest h) ((extract_target dest \<circ> fst) ` set es)"
    using gen [OF Cons.IH [OF run]] by simp
  then show ?case by (simp add: e)
qed

lemma confined_restore_dirs:
  "(\<And>t h. (t, h) \<in> set ds \<Longrightarrow> prefix K (resolve c t)) \<Longrightarrow> confined c D K (restore_dirs ds)"
proof (induction ds)
  case (Cons d ds)
  obtain t h where d: "d = (t, h)" by (cases d)
  have "confined c D K (os_Chtimes t a m)" for a m
    by (rule confined_below [OF _ confined_writes(3)]) (use Cons.prems d in auto)
  then show ?case using Cons d by (auto intro!: confined_seq)
qed (auto intro: confined_rules)

lemma confined_ExtractTar:
  assumes "dest \<noteq> []" "\<And>h b. (h, b) \<in> set (fst (tar_entries r)) \<Longrightarrow> safe_name h" "\<And>ds. set (ord ds) = set ds"
  shows "confined c {resolve c dest} (resolve c dest) (ExtractTar ord r dest)"
  unfolding ExtractTar_def
proof (rule confined_seq_val [OF confined_extract_entries [OF assms(1,2)]])
  fix ds s s'
  assume ds: "extract_entries dest (fst (tar_entries r)) (snd (tar_entries r)) [] s = (Ok ds, s')"
    and dir: "\<And>d. d \<in> {resolve c dest} \<Longrightarrow> is_dir_at s' d"
  have "prefix (resolve c dest) (resolve c t)" if "(t, h) \<in> set (ord ds)" for t h
  proof -
    have "t \<in> fst ` set ds" using that assms(3) by force
    then obtain h' b where "t = extract_target dest h'" "(h', b) \<in> set (fst (tar_entries r))"
      using extract_entries_dirs [OF ds] by auto
    then show ?thesis using extract_target_below [OF assms(1)] assms(2) by blast
  qed
  then have "confined c {resolve c dest} (resolve c dest) (restore_dirs (ord ds))"
    by (rule confined_restore_dirs)
  then show "\<exists>ds'. (\<forall>d \<in> ds'. is_dir_at s' d) \<and> confined c ds' (resolve c dest) (restore_dirs (ord ds))"
    using dir by blast
qed auto

text \<open>An archive, with the order in which its directories are visited, is safe when no name leads upwards.\<close>

definition safe_archive :: "((string \<times> tar_header) list \<Rightarrow> (string \<times> tar_header) list) \<times> content \<Rightarrow> bool" where
  "safe_archive a \<longleftrightarrow> (\<forall>ds. set (fst a ds) = set ds) \<and> (\<forall>h b. (h, b) \<in> set (fst (tar_entries (snd a))) \<longrightarrow> safe_name h)"

interpretation extract_tar: subtree_writer "\<lambda>(ord, r). ExtractTar ord r" safe_archive
proof unfold_locales
  fix x :: "((string \<times> tar_header) list \<Rightarrow> (string \<times> tar_header) list) \<times> content" and dest :: string and c
  assume ok: "safe_archive x" and "dest \<noteq> []"
  obtain ord r where x: "x = (ord, r)" by (cases x)
  have "confined c {resolve c dest} (resolve c dest) (ExtractTar ord r dest)"
    by (rule confined_ExtractTar) (use ok x \<open>dest \<noteq> []\<close> in \<open>auto simp: safe_archive_def\<close>)
  then show "confined c {resolve c dest} (resolve c dest) ((case x of (ord, r) \<Rightarrow> ExtractTar ord r) dest)"
    by (simp add: x)
qed

section \<open>Relative paths\<close>

lemma strip_common_append: "strip_common bs (bs @ ws) = ([], ws)"
  by (induction bs) simp_all

text \<open>The relative path of a file below a directory is the elements between them.\<close>

lemma path_Rel_below:
  assumes "path_segs t = path_segs b @ ws" "is_rooted t = is_rooted b" "ws \<noteq> []"
  shows "path_Rel b t = Ok (join_with ''/'' ws)"
proof -
  have ne: "path_Clean t \<noteq> path_Clean b"
    using assms path_segs_Clean by (metis append_self_conv)
  have dot: "path_Clean t \<noteq> ''.''"
  proof
    assume "path_Clean t = ''.''"
    then have "path_segs t = path_segs ''.''" using path_segs_Clean by metis
    then show False using assms(1,3) by (simp add: path_segs_def)
  qed
  show ?thesis
    using assms ne dot by (simp add: path_Rel_def Let_def strip_common_append)
qed

lemma path_segs_below:
  assumes "a \<noteq> []" "is_name n"
  shows "path_segs (a @ ''/'' @ n) = path_segs a @ [n]"
  using assms
  by (simp add: path_segs_def is_rooted_append split_on_append_sep clean_segs_append is_name_def)

lemma path_Rel_child:
  assumes "a \<noteq> []" "is_name n"
  shows "path_Rel a (a @ ''/'' @ n) = Ok n"
  using path_Rel_below [OF path_segs_below [OF assms]] assms by (simp add: is_rooted_append)

section \<open>A concrete file system\<close>

definition tree_dir :: inode where
  "tree_dir = \<lparr>kind = KDir, perm = 0x1ED, data = Raw [], atime = 1, mtime = 1\<rparr>"

definition tree_file :: inode where
  "tree_file = \<lparr>kind = KRegular, perm = 0x1A4, data = Raw ''x'', atime = 2, mtime = 3\<rparr>"

definition tree_os :: os where
  "tree_os = \<lparr>cwd = [], files = [([], tree_dir), ([''a''], tree_dir), ([''a'', ''f''], tree_file), ([''b''], tree_dir)],
     umask = 0x12, now = 9, fault = (\<lambda>_ _. None), environ = (\<lambda>_. None)\<rparr>"

lemma tree_wf: "fs_wf tree_os"
proof -
  have "file_at tree_os (k @ [n]) \<noteq> None \<Longrightarrow> is_dir_at tree_os k \<and> is_name n" for k n
    by (auto simp: file_at_def tree_os_def is_dir_at_def tree_dir_def is_name_def append_eq_Cons_conv split: if_splits)
  then show ?thesis by (auto simp: fs_wf_def) (auto simp: tree_os_def is_dir_at_def file_at_def tree_dir_def)
qed

lemma tree_resolve: "resolve (cwd tree_os) ''/a'' = [''a'']" "resolve (cwd tree_os) ''/b'' = [''b'']"
  by code_simp+

lemma tree_ready: "copy_ready [''a''] [''b''] UNIV 0 tree_os"
proof -
  have "length r = 0" if "is_dir_at tree_os (''a'' # r)" for r
    using that by (auto simp: is_dir_at_def file_at_def tree_os_def tree_file_def split: if_splits)
  moreover have "file_at tree_os (''b'' # c # r) = None" for c r
    by (simp add: file_at_def tree_os_def)
  moreover have "no_faults tree_os" by (simp add: no_faults_def tree_os_def)
  moreover have "is_dir_at tree_os [''a'']" "is_dir_at tree_os [''b'']" by code_simp+
  ultimately show ?thesis using tree_wf by (auto simp: copy_ready_def)
qed

section \<open>Properties\<close>

text \<open>Property C13: copying a directory copies the tree. For two existing directories neither of which
  contains the other, with no file where a directory has to go (or the reverse), no failing system
  call and directories nested no deeper than the stack allows, \<^verbatim>\<open>CopyDir\<close> succeeds; every file and
  directory below the source is then at the same place below the destination with the contents and
  times of the source (and, where it is new, its permissions less the umask); the source and
  everything outside the destination are unchanged, and files of the destination that have no
  counterpart in the source are kept.\<close>

theorem CopyDir_copies_tree:
  assumes "copy_ready (resolve (cwd s) src) (resolve (cwd s) dest) UNIV d s" and "src \<noteq> []" and "dest \<noteq> []"
  shows "\<exists>s'. CopyDir (Suc d) src dest s = (Ok (), s') \<and> fs_wf s' \<and>
    (\<forall>r n. r \<noteq> [] \<longrightarrow> file_at s (resolve (cwd s) src @ r) = Some n \<longrightarrow>
       file_at s' (resolve (cwd s) dest @ r) = Some (copy_of (umask s) n (file_at s (resolve (cwd s) dest @ r)))) \<and>
    (\<forall>k. \<not> prefix (resolve (cwd s) dest) k \<longrightarrow> file_at s' k = file_at s k) \<and>
    (\<forall>r. r \<noteq> [] \<longrightarrow> file_at s (resolve (cwd s) src @ r) = None \<longrightarrow>
       file_at s' (resolve (cwd s) dest @ r) = file_at s (resolve (cwd s) dest @ r))"
proof -
  let ?S = "resolve (cwd s) src" and ?D = "resolve (cwd s) dest"
  obtain s' where run: "CopyDir (Suc d) src dest s = (Ok (), s')" and post: "copy_post ?S ?D UNIV s s'"
    using CopyDir_exact [OF assms] by blast
  have at: "file_at s' k = copied s ?S ?D UNIV k" if "k \<noteq> ?D" for k using post that by (simp add: copy_post_def)
  have below: "file_at s' (?D @ r) = (case file_at s (?S @ r) of Some n \<Rightarrow> Some (copy_of (umask s) n (file_at s (?D @ r)))
      | None \<Rightarrow> file_at s (?D @ r))" if "r \<noteq> []" for r
    using at [of "?D @ r"] that by (cases r) auto
  have "file_at s' k = file_at s k" if "\<not> prefix ?D k" for k
    using at [of k] that by (auto simp: copied_outside)
  then show ?thesis using run below post by (intro exI [of _ s']) (auto simp: copy_post_def)
qed

theorem CopyDir_copies_tree_witness:
  "\<exists>s'. CopyDir 1 ''/a'' ''/b'' tree_os = (Ok (), s') \<and> file_at s' [''b'', ''f''] = Some (copy_of 0x12 tree_file None)"
proof -
  have f: "file_at tree_os [''a'', ''f''] = Some tree_file" "file_at tree_os [''b'', ''f''] = None" "umask tree_os = 0x12"
    by (simp_all add: file_at_def tree_os_def)
  obtain s' where "CopyDir (Suc 0) ''/a'' ''/b'' tree_os = (Ok (), s')"
    "file_at s' ([''b''] @ [''f'']) = Some (copy_of (umask tree_os) tree_file (file_at tree_os ([''b''] @ [''f''])))"
    using CopyDir_copies_tree [of tree_os "''/a''" "''/b''" 0] tree_ready f unfolding tree_resolve by fastforce
  then show ?thesis using f by auto
qed

text \<open>\<^verbatim>\<open>CopyDir\<close> into an existing directory never writes elsewhere, on any outcome: with
  failing system calls, name clashes or the destination inside the source, files outside the
  destination keep everything, and at most the directory holding the destination gets a new
  modification time.\<close>

lemma CopyDir_writes_below_dest:
  assumes "CopyDir d src dest s = (r, s')" and "fs_wf s" and "is_dir_at s (resolve (cwd s) dest)"
    and "src \<noteq> []" and "dest \<noteq> []" and "\<not> prefix (resolve (cwd s) dest) k" and "k \<noteq> butlast (resolve (cwd s) dest)"
  shows "file_at s' k = file_at s k"
  using copy_dir.keeps_outside [of "(d, src)" dest s r s' k] assms by simp

text \<open>Property C24: extracting an archive whose entry names have no parent element after cleaning
  writes below the destination directory only, whatever the archive contains and however the
  extraction ends. (An entry name with a leading \<^verbatim>\<open>..\<close> is not refused, see \<open>ExtractTar_escapes\<close>.)\<close>

theorem ExtractTar_writes_below_dest:
  assumes "ExtractTar ord r dest s = (res, s')" and "fs_wf s" and "is_dir_at s (resolve (cwd s) dest)" and "dest \<noteq> []"
    and "\<And>h b. (h, b) \<in> set (fst (tar_entries r)) \<Longrightarrow> safe_name h" and "\<And>ds. set (ord ds) = set ds"
    and "\<not> prefix (resolve (cwd s) dest) k" and "k \<noteq> butlast (resolve (cwd s) dest)"
  shows "file_at s' k = file_at s k"
proof -
  have "safe_archive (ord, r)" using assms(5,6) by (auto simp: safe_archive_def)
  then show ?thesis using extract_tar.keeps_outside [of "(ord, r)" dest s res s' k] assms by simp
qed

definition tree_archive :: "string \<Rightarrow> content" where
  "tree_archive name = Archive [(\<lparr>hName = name, hTypeflag = CHR ''0'', hMode = 0x1A4, hModTime = 7, hAccessTime = None\<rparr>,
     Raw ''evil'')] None"

theorem ExtractTar_writes_below_dest_witness:
  "file_at (snd (ExtractTar id (tree_archive ''d'') ''/b'' tree_os)) [''a'', ''f''] = file_at tree_os [''a'', ''f'']"
proof -
  have "safe_name \<lparr>hName = ''d'', hTypeflag = CHR ''0'', hMode = 0x1A4, hModTime = 7, hAccessTime = None\<rparr>"
    unfolding safe_name_def by code_simp
  then show ?thesis
    using ExtractTar_writes_below_dest [of id "tree_archive ''d''" "''/b''" tree_os
        "fst (ExtractTar id (tree_archive ''d'') ''/b'' tree_os)" "snd (ExtractTar id (tree_archive ''d'') ''/b'' tree_os)"
        "[''a'', ''f'']"] tree_ready tree_wf
    by (simp add: tree_resolve copy_ready_def) (simp add: tree_archive_def)
qed

text \<open>\<^verbatim>\<open>ExtractTar\<close> does not check entry names: an archive whose entry is named
  \<^verbatim>\<open>../a/f\<close>, extracted into \<^verbatim>\<open>/b\<close>, overwrites the file \<^verbatim>\<open>/a/f\<close> outside the destination.\<close>

lemma ExtractTar_escapes:
  "map_option data (file_at (snd (ExtractTar id (tree_archive ''../a/f'') ''/b'' tree_os)) [''a'', ''f'']) = Some (Raw ''evil'')"
  by code_simp

end
