(* ===== verification/CommandProps.thy ===== *)
theory CommandProps
  imports Mains FsProps
begin

text \<open>
  Properties of the client commands, the two programs and the way they fit together: the paths the
  client sends lead the server to the files the client wrote, the URLs the server gives its pods
  lead the file server to the same files, and the credentials agree.
\<close>

section \<open>URLs\<close>

lemma hexval_upperhex: "d < 16 \<Longrightarrow> hexval (upperhex d) = Some d"
  by (auto simp: hexval_def upperhex_def ub_def Let_def of_char_of)

lemma escaped_char: "char_of (ub c div 16 * 16 + ub c mod 16) = c"
  by (simp add: ub_def)

lemma unescape_escape: "unescape EncPath (url_escape EncPath s) = Some s"
proof (induction s)
  case (Cons c s)
  have "ub c < 256" by (simp add: ub_def)
  then have hex: "hexval (upperhex (ub c div 16)) = Some (ub c div 16)" "hexval (upperhex (ub c mod 16)) = Some (ub c mod 16)"
    by (auto intro!: hexval_upperhex)
  have pct: "shouldEscape EncPath (CHR ''%'')" by code_simp
  show ?case
  proof (cases "shouldEscape EncPath c")
    case True
    then show ?thesis using Cons hex escaped_char [of c] by (simp add: url_escape_def Let_def)
  next
    case False
    then have "c \<noteq> CHR ''%''" using pct by metis
    then show ?thesis using Cons False by (simp add: url_escape_def)
  qed
qed (simp add: url_escape_def)

interpretation url_path: codec "url_escape EncPath" "unescape EncPath" "\<lambda>_. True"
  by unfold_locales (rule unescape_escape)

lemma unescape_EscapedPath: "unescape EncPath (EscapedPath u) = Some (uPath u)"
  by (auto simp: EscapedPath_def url_path.dec_enc)

lemma resolve_location_join:
  assumes "hRoot h \<noteq> []" "''..'' \<notin> set (slash_split p)" "qPath req = path_Join [''/'', p]"
  shows "resolve c (location h req) = resolve c (path_Join [hRoot h, p])"
proof -
  have segs: "path_segs (''/'' @ ''/'' @ p) = filter (\<lambda>w. w \<noteq> [] \<and> w \<noteq> ''.'') (slash_split p)"
    using assms(2) by (simp add: path_segs_def is_rooted_def clean_segs_no_dotdot)
  have "location h req = path_Join [hRoot h, path_Clean (''/'' @ ''/'' @ p)]"
    using assms(3) by (simp add: location_def path_Join_def)
  then have "resolve c (location h req) = clean_segs True (rev (resolve c (hRoot h))) (slash_split (path_Clean (''/'' @ ''/'' @ p)))"
    by (simp only: resolve_Join [OF assms(1)])
  also have "\<dots> = clean_segs True (rev (resolve c (hRoot h))) (filter (\<lambda>w. w \<noteq> [] \<and> w \<noteq> ''.'') (slash_split p))"
    unfolding clean_segs_Clean segs ..
  also have "\<dots> = resolve c (path_Join [hRoot h, p])"
    using assms(1,2) by (simp add: resolve_Join clean_segs_no_dotdot)
  finally show ?thesis .
qed

text \<open>Property C18: the URLs in the pod definitions lead to the right files. For a base URL whose path is
  \<^verbatim>\<open>/\<close> (as in the default one) and a request path without parent elements, the URL that
  \<^verbatim>\<open>urlJoin\<close> gives to the pod carries a path that the file server decodes back to the joined path,
  and the location the file server computes for it is the file that the path names below the shared
  directory.\<close>

theorem urls_reach_shared_files:
  assumes "url_Parse (FSBaseURL b) = Some u" and "uPath u = ''/''" and "''..'' \<notin> set (slash_split p)"
    and "hRoot h = SharedPath b" and "SharedPath b \<noteq> []"
  shows "\<exists>v. urlJoin (FSBaseURL b) p = Ok (url_String v) \<and> uHost v = uHost u \<and>
    unescape EncPath (EscapedPath v) = Some (uPath v) \<and>
    (\<forall>req c. qPath req = uPath v \<longrightarrow> resolve c (location h req) = resolve c (path_Join [SharedPath b, p]))"
proof -
  let ?v = "u\<lparr>uPath := path_Join [uPath u, p]\<rparr>"
  have "urlJoin (FSBaseURL b) p = Ok (url_String ?v)" using assms(1) by (simp add: urlJoin_def)
  moreover have "qPath req = uPath ?v \<longrightarrow> resolve c (location h req) = resolve c (path_Join [SharedPath b, p])" for req c
    using resolve_location_join [of h p req c] assms(2-5) by simp
  ultimately show ?thesis using unescape_EscapedPath by (intro exI [of _ ?v]) simp
qed

definition demo_server :: Server where
  "demo_server = \<lparr>SharedPath = ''/shared'', FSBaseURL = fsBaseURL default_flags, FileTransferImage = ''ft'',
     BuilderImage = ''bi'', GoEnvImage = ''go'', JavaEnvImage = ''java'', NodeEnvImage = ''node'',
     ImagePullSecrets = [], PeerID = ''p'', Auth = Some \<lparr>Username = ''u'', Password = ''p''\<rparr>, TLSCertString = []\<rparr>"

theorem urls_reach_shared_files_witness:
  "\<exists>v. urlJoin (FSBaseURL demo_server) ''b1/out.tar'' = Ok (url_String v) \<and>
    (\<forall>req c. qPath req = uPath v \<longrightarrow> resolve c (location demo_handler req) = resolve c (path_Join [''/shared'', ''b1/out.tar'']))"
proof -
  have p: "map_option uPath (url_Parse (FSBaseURL demo_server)) = Some ''/''" "''..'' \<notin> set (slash_split ''b1/out.tar'')"
    by code_simp+
  then obtain u where "url_Parse (FSBaseURL demo_server) = Some u" "uPath u = ''/''" by auto
  from urls_reach_shared_files [OF this p(2), of demo_handler] show ?thesis
    by (auto simp: demo_server_def demo_handler_def)
qed

section \<open>Request paths\<close>

lemma path_Join_names: "is_name n \<Longrightarrow> is_name f \<Longrightarrow> path_Join [n, f] = n @ ''/'' @ f"
proof -
  assume n: "is_name n" "is_name f"
  have r: "\<not> is_rooted (n @ CHR ''/'' # f)" using n(1) by (cases n) (auto simp: is_name_def is_rooted_def)
  have "path_segs (n @ CHR ''/'' # f) = [n, f]"
    using n r by (simp add: path_segs_def split_on_append_sep is_name_def)
  then show ?thesis using n r by (simp add: path_Join_def path_Clean_def unsegs_def is_name_def)
qed

lemma temp_dir_try_form:
  "temp_dir_try k dir pat rnds s = (Ok t, s') \<Longrightarrow>
   \<exists>r \<in> set rnds. t = (if has_suffix dir ''/'' then dir else dir @ ''/'') @ pat @ r"
  by (induction k dir pat rnds s rule: temp_dir_try.induct)
    (auto simp: Let_def split: prod.splits outcome.splits if_splits)

lemma TempDir_form:
  assumes "ioutil_TempDir rnds dir pat s = (Ok t, s')" "dir \<noteq> []" "\<not> has_suffix dir ''/''"
  shows "\<exists>r \<in> set rnds. t = dir @ ''/'' @ pat @ r"
  using temp_dir_try_form [of 9999 dir pat rnds s t s'] assms by (auto simp: ioutil_TempDir_def)

lemma name_with_prefix: "is_name pat \<Longrightarrow> pat \<noteq> [] \<Longrightarrow> hd pat \<noteq> CHR ''.'' \<Longrightarrow> CHR ''/'' \<notin> set r \<Longrightarrow> is_name (pat @ r)"
  by (cases pat) (auto simp: is_name_def)

text \<open>
  The temporary directory of a command: a new name in the shared directory, which is also its path
  relative to that directory; the request path of a file in it and the path the server makes of it.
\<close>

lemma temp_root:
  assumes "ioutil_TempDir rnds dir pat s = (Ok tempDir, s1)" and "pat = ''build'' \<or> pat = ''run''"
    and "dir \<noteq> []" and "\<not> has_suffix dir ''/''" and "list_all (\<lambda>r. CHR ''/'' \<notin> set r) rnds"
  obtains n where "is_name n" "tempDir \<noteq> []" "path_Rel dir tempDir = Ok n" "\<And>c. resolve c tempDir = resolve c dir @ [n]"
proof -
  obtain r where r: "r \<in> set rnds" "tempDir = dir @ ''/'' @ pat @ r"
    using TempDir_form [OF assms(1,3,4)] by blast
  have n: "is_name (pat @ r)"
    using assms(2,5) r(1) by (intro name_with_prefix) (auto simp: is_name_def list_all_iff)
  show thesis
  proof (rule that [OF n])
    show "path_Rel dir tempDir = Ok (pat @ r)" using path_Rel_child [OF assms(3) n] r(2) by simp
    show "resolve c tempDir = resolve c dir @ [pat @ r]" for c
      using resolve_Join_name [OF assms(3) n, of c] assms(3) r(2) by (simp add: path_Join_def)
  qed (use r(2) assms(3) in simp)
qed

lemma request_path:
  assumes "is_name n" and "is_name f" and "dir \<noteq> []" and "tempDir \<noteq> []" and "\<And>c. resolve c tempDir = resolve c dir @ [n]"
  shows "''..'' \<notin> set (slash_split (path_Join [n, f]))"
    and "resolve c (path_Join [dir, path_Join [n, f]]) = resolve c tempDir @ [f]"
proof -
  have nf: "path_Join [n, f] = n @ ''/'' @ f" by (rule path_Join_names [OF assms(1,2)])
  have split: "slash_split (n @ ''/'' @ f) = [n, f]"
    using assms(1,2) by (simp only: append_Cons append_Nil split_on_append_sep) (simp add: is_name_def)
  show "''..'' \<notin> set (slash_split (path_Join [n, f]))" using assms(1,2) unfolding nf split by (auto simp: is_name_def)
  show "resolve c (path_Join [dir, path_Join [n, f]]) = resolve c tempDir @ [f]"
    using assms(1,2) unfolding nf resolve_Join [OF assms(3)] split assms(5) by (simp add: is_name_def)
qed

section \<open>Temporary directories\<close>

lemma file_at_remove_below: "prefix k k' \<Longrightarrow> file_at (remove_below k s) k' = None"
proof -
  assume p: "prefix k k'"
  have "map_of (filter (\<lambda>(k'', _). \<not> prefix k k'') fs) k' = None" for fs :: "(key \<times> inode) list"
    using p by (induction fs) auto
  then have "file_at (s\<lparr>files := filter (\<lambda>(k', _). \<not> prefix k k') (files s)\<rparr>) k' = None"
    by (simp add: file_at_def)
  then show ?thesis unfolding remove_below_def file_at_touch by auto
qed

text \<open>Property C23: the temporary directory of a build or run command is removed on every way out. Once
  it was made, whatever the body did and however it ended (success, error or panic), nothing is left
  at or below it unless the removal itself is refused, and the command's result is the body's.\<close>

theorem temp_dir_removed:
  assumes "ioutil_TempDir rnds sharedDir pat s = (Ok tempDir, s1)" and "body tempDir s1 = (r, out, s2)"
    and "fault s2 OpRemove (resolve (cwd s2) tempDir) = None" and "sharedDir \<noteq> []"
  shows "\<exists>s'. in_temp_dir rnds sharedDir pat body s = (r, out, s') \<and>
    (\<forall>k. prefix (resolve (cwd s2) tempDir) k \<longrightarrow> fs_wf s2 \<longrightarrow> file_at s' k = None)"
proof -
  let ?k = "resolve (cwd s2) tempDir"
  have ne: "tempDir \<noteq> []"
    using temp_dir_try_form [of 9999 sharedDir pat rnds s tempDir s1] assms(1,4)
    by (auto simp: ioutil_TempDir_def has_suffix_def split: if_splits)
  let ?s' = "if file_at s2 ?k = None then s2 else remove_below ?k s2"
  have run: "in_temp_dir rnds sharedDir pat body s = (r, out, ?s')"
    using assms ne by (simp add: in_temp_dir_def os_RemoveAll_def Let_def)
  have "file_at ?s' k = None" if below: "prefix ?k k" and wf: "fs_wf s2" for k
  proof (cases "file_at s2 ?k = None")
    case True
    obtain e where e: "k = ?k @ e" using below by (auto simp: prefix_def)
    have "file_at s2 k = None"
    proof (cases "e = []")
      case False
      then have "\<not> is_dir_at s2 ?k \<Longrightarrow> file_at s2 (?k @ e) = None"
        using fs_wf_prefix_dir [OF wf, of ?k e] by blast
      then show ?thesis using True e by (simp add: is_dir_at_def)
    qed (use True e in simp)
    then show ?thesis using True by simp
  next
    case False
    then show ?thesis using file_at_remove_below [OF below] by auto
  qed
  then show ?thesis using run by blast
qed

theorem temp_dir_removed_witness:
  "\<exists>s'. in_temp_dir [''42''] ''/shared'' ''build'' (\<lambda>t s. (Panic ''p'', [], s)) demo_os = (Panic ''p'', [], s') \<and>
    file_at s' [''shared'', ''build42''] = None"
proof -
  have t: "fst (ioutil_TempDir [''42''] ''/shared'' ''build'' demo_os) = Ok ''/shared/build42''"
    "resolve [] ''/shared/build42'' = [''shared'', ''build42'']" by code_simp+
  obtain s1 where s1: "ioutil_TempDir [''42''] ''/shared'' ''build'' demo_os = (Ok ''/shared/build42'', s1)"
    using t(1) by (cases "ioutil_TempDir [''42''] ''/shared'' ''build'' demo_os") auto
  have mk: "mkdir_key ''/shared/build42'' [''shared'', ''build42''] 0x1C0 demo_os = (Ok (), s1)"
    using s1 t(2) by (auto simp: ioutil_TempDir_def Let_def demo_os_def has_suffix_def split: prod.splits outcome.splits if_splits)
  have st: "step_below [''shared'', ''build42''] demo_os s1"
    by (rule mkdir_key_below [OF demo_wf mk]) (auto simp: is_name_def)
  then have env: "fs_wf s1" "cwd s1 = []" "fault s1 OpRemove k = None" for k
    using step_below_wf [OF st] step_below_env [OF st] by (auto simp: demo_os_def)
  from temp_dir_removed [OF s1, of "\<lambda>t s. (Panic ''p'', [], s)" "Panic ''p''" "[]" s1] env t(2)
  show ?thesis by auto
qed

section \<open>Chaincode types\<close>

text \<open>Property C28: the client and the server agree on what can be built. \<^verbatim>\<open>detect\<close> accepts a package
  exactly when its type, in any case, is \<^verbatim>\<open>external\<close> or one for which the server has a build
  container and a run container; for any other type it exits with 1 and a message.\<close>

theorem detect_agrees_with_server:
  assumes "ioutil_ReadFile (path_Join [metadataDir, ''metadata.json'']) s = (Ok (Raw text), s')"
    and "unmarshal_fields [''type''] text = Ok [t]"
  shows "Detect_Run [sourceDir, metadataDir] s =
      (if to_lower t = ''external'' \<or> is_ok (buildContainerDefinition b \<lparr>mdPath = p, mdType = t\<rparr>)
       then (Ok 0, [], s') else (Ok 1, ''chaincode type not supported: '' @ t, s')) \<and>
    is_ok (buildContainerDefinition b \<lparr>mdPath = p, mdType = t\<rparr>) = is_ok (runContainerDefinition genv b t rmd)"
  using assms
  by (auto simp: Detect_Run_def unmarshal_content_def supported_types_def buildContainerDefinition_def
      runContainerDefinition_def Let_def)

definition detect_os :: os where
  "detect_os = \<lparr>cwd = [], files = [([], demo_dir), ([''m''], demo_dir),
     ([''m'', ''metadata.json''], \<lparr>kind = KRegular, perm = 0x1A4,
        data = Raw (''{'' @ [dquote] @ ''type'' @ [dquote] @ '':'' @ [dquote] @ ''Rust'' @ [dquote] @ ''}''), atime = 2, mtime = 2\<rparr>)],
     umask = 0x12, now = 5, fault = (\<lambda>_ _. None), environ = (\<lambda>_. None)\<rparr>"

theorem detect_agrees_with_server_witness:
  "\<exists>s'. Detect_Run [''/s'', ''/m''] detect_os = (Ok 1, ''chaincode type not supported: Rust'', s')"
proof -
  let ?text = "''{'' @ [dquote] @ ''type'' @ [dquote] @ '':'' @ [dquote] @ ''Rust'' @ [dquote] @ ''}''"
  have c: "fst (ioutil_ReadFile (path_Join [''/m'', ''metadata.json'']) detect_os) = Ok (Raw ?text)"
    "unmarshal_fields [''type''] ?text = Ok [''Rust'']"
    "to_lower ''Rust'' \<noteq> ''external''"
    "\<not> is_ok (buildContainerDefinition demo_server \<lparr>mdPath = [], mdType = ''Rust''\<rparr>)"
    by code_simp+
  obtain s' where "ioutil_ReadFile (path_Join [''/m'', ''metadata.json'']) detect_os = (Ok (Raw ?text), s')"
    using c(1) by (cases "ioutil_ReadFile (path_Join [''/m'', ''metadata.json'']) detect_os") auto
  from detect_agrees_with_server [OF this c(2), of "''/s''" demo_server "[]"] c(3,4) show ?thesis by simp
qed

section \<open>Addresses\<close>

text \<open>Injecting the peer name into the address of an external chaincode. For an address
  \<^verbatim>\<open>host.domain:port\<close>, where the domain is the last label, the two modes give
  \<^verbatim>\<open>peer-host.domain:port\<close> and \<^verbatim>\<open>host.peer-domain:port\<close>, and any other mode leaves the address
  alone.\<close>

lemma inject_address_modes:
  assumes "CHR '':'' \<notin> set host" and "CHR '':'' \<notin> set domain" and "CHR '':'' \<notin> set port" and "CHR ''.'' \<notin> set domain"
  shows "parseAddress (host @ ''.'' @ domain @ '':'' @ port) = Ok (host, domain, port) \<and>
    inject_address mode peer (host @ ''.'' @ domain @ '':'' @ port) (host, domain, port) =
      (if mode = ''hostname'' then Some (peer @ ''-'' @ host @ ''.'' @ domain @ '':'' @ port)
       else if mode = ''domain'' then Some (host @ ''.'' @ peer @ ''-'' @ domain @ '':'' @ port) else None)"
proof -
  let ?hd = "host @ CHR ''.'' # domain"
  have "split_on (CHR '':'') (?hd @ CHR '':'' # port) = [?hd, port]"
    using assms(1-3) by (simp only: split_on_append_sep) simp
  moreover have "split_on (CHR ''.'') ?hd = split_on (CHR ''.'') host @ [domain]"
    using assms(4) by (simp add: split_on_append_sep)
  moreover have "trim_suffix ?hd (CHR ''.'' # domain) = host" by (rule trim_suffix_append)
  ultimately show ?thesis by (simp add: parseAddress_def inject_address_def)
qed

text \<open>Property C29: a \<^verbatim>\<open>connection.json\<close> that does not ask for injection is passed on byte for byte; one
  that asks for it without a text address, without a peer name or with a malformed address is
  refused, each with its own error; otherwise the output is the same object with only the address
  changed.\<close>

theorem inject_bytes_cases:
  assumes "unmarshal_map fl bytes = Ok m"
  shows "case get_string m ''injectIdentifier'' of
      None \<Rightarrow> inject_bytes fl peer bytes = Ok bytes
    | Some mode \<Rightarrow>
        (case get_string m ''address'' of
           None \<Rightarrow> inject_bytes fl peer bytes = Err (ErrMsg ''address unable to be parsed as a string'')
         | Some a \<Rightarrow>
             (if peer = [] then inject_bytes fl peer bytes = Err (ErrMsg ''failed to get peer name from PEER_NAME env var'')
              else if length (split_on (CHR '':'') a) \<noteq> 2 then
                inject_bytes fl peer bytes =
                  Err (ErrMsg ''invalid address provided in connection.json: address not in format <host-url>:<port>'')
              else \<exists>m'. inject_bytes fl peer bytes = Ok (marshal_map fl m') \<and>
                (\<forall>k. k \<noteq> ''address'' \<longrightarrow> map_of m' k = map_of m k) \<and>
                (mode \<notin> {''hostname'', ''domain''} \<longrightarrow> m' = m) \<and>
                (mode = ''hostname'' \<longrightarrow> get_string m' ''address'' = Some (peer @ ''-'' @ a))))"
proof (cases "get_string m ''injectIdentifier''")
  case None
  then show ?thesis using assms by (simp add: inject_bytes_def)
next
  case mode: (Some mode)
  show ?thesis
  proof (cases "get_string m ''address''")
    case None
    then show ?thesis using assms mode by (simp add: inject_bytes_def)
  next
    case addr: (Some a)
    consider "peer = []" | "peer \<noteq> []" "length (split_on (CHR '':'') a) \<noteq> 2"
      | h q where "peer \<noteq> []" "split_on (CHR '':'') a = [h, q]"
      by (cases "split_on (CHR '':'') a"; cases "tl (split_on (CHR '':'') a)"; cases "tl (tl (split_on (CHR '':'') a))") auto
    then show ?thesis
    proof cases
      case 1
      then show ?thesis using assms mode addr by (simp add: inject_bytes_def)
    next
      case 2
      then have "parseAddress a = Err (ErrMsg ''address not in format <host-url>:<port>'')"
        by (auto simp: parseAddress_def split: list.splits)
      then show ?thesis using 2 assms mode addr by (simp add: inject_bytes_def)
    next
      case 3
      then obtain parts where "parseAddress a = Ok parts" by (simp add: parseAddress_def Let_def)
      then show ?thesis using 3 assms mode addr
        by (cases parts) (auto simp: inject_bytes_def inject_address_def update_conv' get_string_def)
    qed
  qed
qed

theorem inject_bytes_cases_witness:
  "unmarshal_map (\<lambda>_. None) ''{\"address\":\"cc:7052\"}'' = Ok [(''address'', JStr ''cc:7052'')] \<and>
   inject_bytes (\<lambda>_. None) ''peer1'' ''{\"address\":\"cc:7052\"}'' = Ok ''{\"address\":\"cc:7052\"}''"
proof -
  have m: "unmarshal_map (\<lambda>_. None) ''{\"address\":\"cc:7052\"}'' = Ok [(''address'', JStr ''cc:7052'')]"
    by code_simp
  then show ?thesis using inject_bytes_cases [OF m, of "''peer1''"] by (simp add: get_string_def)
qed

end
