(* ===== verification/LogStreams.thy ===== *)
theory LogStreams
  imports Sidecar
begin

text \<open>
  \<^verbatim>\<open>serializedBuildStream\<close> and \<^verbatim>\<open>serializedRunStream\<close> of \<^verbatim>\<open>server.go\<close>: the loggers through which
  the goroutines of a pod execution write to one gRPC stream. A stream must not be used by two
  senders at once, so \<^verbatim>\<open>Send\<close> holds a mutex around the call of the embedded stream. Here the
  goroutines run step by step in any order, and the embedded stream is a parameter; the theorems
  show that it is called by one goroutine at a time, so that a message is one atomic step for the
  rest of the development.
\<close>

section \<open>Sending under the mutex\<close>

text \<open>Where a goroutine is in \<^verbatim>\<open>Send\<close>: outside, holding the mutex, inside the embedded call, or past it.\<close>

datatype 'p send_pc = Outside | Locked 'p | Sending 'p | Sent nilerr

text \<open>
  The mutex with its holder, the state of the embedded stream, the calls it has completed with the
  goroutine that made each, and the goroutines with the messages they have still to log.
\<close>

record ('p, 'st) serialized =
  ssMutex :: "nat option"
  ssInner :: 'st
  ssCalls :: "(nat \<times> 'p) list"
  ssThreads :: "('p send_pc \<times> string list) list"

text \<open>
  The next step of goroutine \<open>t\<close>, which calls \<^verbatim>\<open>Log\<close> for its messages one after the other:
  \<^verbatim>\<open>Lock\<close>, the call and the return of the embedded \<^verbatim>\<open>Send\<close>, and the deferred \<^verbatim>\<open>Unlock\<close>. The
  result of \<^verbatim>\<open>Send\<close> is dropped by \<^verbatim>\<open>Log\<close>.
\<close>

definition send_step :: "(string \<Rightarrow> 'p) \<Rightarrow> ('p \<Rightarrow> 'st \<Rightarrow> nilerr \<times> 'st) \<Rightarrow> nat \<Rightarrow>
    ('p, 'st) serialized \<Rightarrow> ('p, 'st) serialized option" where
  "send_step mk inner t st =
     (if t < length (ssThreads st) then
        (case ssThreads st ! t of
           (Outside, []) \<Rightarrow> None
         | (Outside, m # ms) \<Rightarrow>
             (if ssMutex st = None
              then Some (st\<lparr>ssMutex := Some t, ssThreads := (ssThreads st)[t := (Locked (mk m), ms)]\<rparr>)
              else None)
         | (Locked p, ms) \<Rightarrow> Some (st\<lparr>ssThreads := (ssThreads st)[t := (Sending p, ms)]\<rparr>)
         | (Sending p, ms) \<Rightarrow>
             (case inner p (ssInner st) of (r, i) \<Rightarrow>
                Some (st\<lparr>ssInner := i, ssCalls := ssCalls st @ [(t, p)],
                         ssThreads := (ssThreads st)[t := (Sent r, ms)]\<rparr>))
         | (Sent r, ms) \<Rightarrow> Some (st\<lparr>ssMutex := None, ssThreads := (ssThreads st)[t := (Outside, ms)]\<rparr>))
      else None)"

fun send_run :: "(string \<Rightarrow> 'p) \<Rightarrow> ('p \<Rightarrow> 'st \<Rightarrow> nilerr \<times> 'st) \<Rightarrow> nat list \<Rightarrow>
    ('p, 'st) serialized \<Rightarrow> ('p, 'st) serialized option" where
  "send_run mk inner [] st = Some st"
| "send_run mk inner (t # ts) st =
     (case send_step mk inner t st of None \<Rightarrow> None | Some st' \<Rightarrow> send_run mk inner ts st')"

definition send_start :: "'st \<Rightarrow> string list list \<Rightarrow> ('p, 'st) serialized" where
  "send_start i msgs = \<lparr>ssMutex = None, ssInner = i, ssCalls = [], ssThreads = map (Pair Outside) msgs\<rparr>"

section \<open>The two streams\<close>

definition build_Log :: "string \<Rightarrow> BuildResponse" where
  "build_Log msg = \<lparr>bpMessage = Some (StandardError msg)\<rparr>"

definition run_Log :: "string \<Rightarrow> RunResponse" where
  "run_Log msg = \<lparr>rpMessage = Some (StandardError msg)\<rparr>"

definition serializedBuildStream_Send :: "(BuildResponse \<Rightarrow> 'st \<Rightarrow> nilerr \<times> 'st) \<Rightarrow> nat \<Rightarrow>
    (BuildResponse, 'st) serialized \<Rightarrow> (BuildResponse, 'st) serialized option" where
  "serializedBuildStream_Send = send_step build_Log"

definition serializedRunStream_Send :: "(RunResponse \<Rightarrow> 'st \<Rightarrow> nilerr \<times> 'st) \<Rightarrow> nat \<Rightarrow>
    (RunResponse, 'st) serialized \<Rightarrow> (RunResponse, 'st) serialized option" where
  "serializedRunStream_Send = send_step run_Log"

lemmas stream_defs [go_defs] = send_step_def send_start_def build_Log_def run_Log_def
  serializedBuildStream_Send_def serializedRunStream_Send_def

section \<open>The invariant\<close>

inductive send_reach :: "(string \<Rightarrow> 'p) \<Rightarrow> ('p \<Rightarrow> 'st \<Rightarrow> nilerr \<times> 'st) \<Rightarrow> 'st \<Rightarrow> string list list \<Rightarrow>
    ('p, 'st) serialized \<Rightarrow> bool" for mk inner i msgs where
  send_reach_start: "send_reach mk inner i msgs (send_start i msgs)"
| send_reach_step: "send_reach mk inner i msgs st \<Longrightarrow> send_step mk inner t st = Some st' \<Longrightarrow>
    send_reach mk inner i msgs st'"

lemma send_reach_run:
  "send_reach mk inner i msgs st \<Longrightarrow> send_run mk inner ts st = Some st' \<Longrightarrow> send_reach mk inner i msgs st'"
  by (induction ts arbitrary: st) (auto intro: send_reach_step split: option.splits)

fun pending :: "'p send_pc \<Rightarrow> 'p list" where
  "pending (Locked p) = [p]"
| "pending (Sending p) = [p]"
| "pending _ = []"

definition calls_of :: "nat \<Rightarrow> (nat \<times> 'p) list \<Rightarrow> 'p list" where
  "calls_of t cs = map snd (filter (\<lambda>c. fst c = t) cs)"

lemma calls_of_simps [simp]:
  "calls_of t [] = []" "calls_of t (cs @ [(u, p)]) = calls_of t cs @ (if u = t then [p] else [])"
  by (simp_all add: calls_of_def)

definition send_inv :: "(string \<Rightarrow> 'p) \<Rightarrow> ('p \<Rightarrow> 'st \<Rightarrow> nilerr \<times> 'st) \<Rightarrow> 'st \<Rightarrow> string list list \<Rightarrow>
    ('p, 'st) serialized \<Rightarrow> bool" where
  "send_inv mk inner i msgs st \<longleftrightarrow>
     length (ssThreads st) = length msgs \<and>
     (\<forall>t. ssMutex st = Some t \<longleftrightarrow> t < length msgs \<and> fst (ssThreads st ! t) \<noteq> Outside) \<and>
     (\<forall>t < length msgs. calls_of t (ssCalls st) @ pending (fst (ssThreads st ! t)) @
        map mk (snd (ssThreads st ! t)) = map mk (msgs ! t)) \<and>
     ssInner st = fold (\<lambda>c. snd \<circ> inner (snd c)) (ssCalls st) i \<and>
     (\<forall>c \<in> set (ssCalls st). fst c < length msgs)"

lemma send_inv_start: "send_inv mk inner i msgs (send_start i msgs)"
  by (simp add: send_inv_def send_start_def)

lemma one_sender:
  assumes "send_inv mk inner i msgs st" and "t < length msgs" "fst (ssThreads st ! t) \<noteq> Outside"
    and "u < length msgs" "fst (ssThreads st ! u) \<noteq> Outside"
  shows "t = u"
  using assms by (auto simp: send_inv_def) (metis option.inject)

lemma send_inv_step:
  assumes inv: "send_inv mk inner i msgs st" and step: "send_step mk inner t st = Some st'"
  shows "send_inv mk inner i msgs st'"
proof -
  have t: "t < length msgs" "length (ssThreads st) = length msgs"
    using inv step by (auto simp: send_inv_def send_step_def split: if_splits)
  obtain pc ms where th: "ssThreads st ! t = (pc, ms)" by fastforce
  have acc: "calls_of t (ssCalls st) @ pending pc @ map mk ms = map mk (msgs ! t)"
    using inv t th by (auto simp: send_inv_def dest!: spec [of _ t])
  show ?thesis
  proof (cases pc)
    case Outside
    then show ?thesis
      using acc inv step t th
      by (auto simp: send_inv_def send_step_def nth_list_update split: list.splits if_splits)
  next
    case (Locked p)
    then show ?thesis
      using acc inv step t th by (auto simp: send_inv_def send_step_def nth_list_update split: if_splits)
  next
    case (Sending p)
    then show ?thesis
      using acc inv step t th by (auto simp: send_inv_def send_step_def nth_list_update split: prod.splits if_splits)
  next
    case (Sent r)
    then have out: "fst (ssThreads st ! u) = Outside" if "u < length msgs" "u \<noteq> t" for u
      using one_sender [OF inv, of t u] that t th by auto
    have "calls_of u (ssCalls st) @ pending (fst (ssThreads st ! u)) @ map mk (snd (ssThreads st ! u)) = map mk (msgs ! u)"
      if "u < length msgs" for u using inv that by (simp add: send_inv_def)
    then have "calls_of u (ssCalls st) @ map mk (snd (ssThreads st ! u)) = map mk (msgs ! u)"
      if "u < length msgs" "u \<noteq> t" for u using out [OF that] that by (metis append_Nil pending.simps(3))
    then show ?thesis
      using Sent out acc inv step t th by (auto simp: send_inv_def send_step_def nth_list_update split: if_splits)
  qed
qed

lemma send_reach_inv: "send_reach mk inner i msgs st \<Longrightarrow> send_inv mk inner i msgs st"
  by (induction rule: send_reach.induct) (auto intro: send_inv_start send_inv_step)

lemma send_run_inv:
  "send_run mk inner ts (send_start i msgs) = Some st \<Longrightarrow> send_inv mk inner i msgs st"
  by (blast intro: send_reach_inv send_reach_run send_reach_start)

section \<open>Progress\<close>

fun steps_left :: "'p send_pc \<times> string list \<Rightarrow> nat" where
  "steps_left (pc, ms) = (case pc of Outside \<Rightarrow> 0 | Locked _ \<Rightarrow> 3 | Sending _ \<Rightarrow> 2 | Sent _ \<Rightarrow> 1) + 4 * length ms"

definition all_left :: "('p, 'st) serialized \<Rightarrow> nat" where
  "all_left st = sum_list (map steps_left (ssThreads st))"

lemma all_left_zero: "all_left st = 0 \<longleftrightarrow> list_all (\<lambda>th. th = (Outside, [])) (ssThreads st)"
proof -
  have "steps_left th = 0 \<longleftrightarrow> th = (Outside, [])" for th :: "'a send_pc \<times> string list"
    by (cases th; cases "fst th") auto
  then show ?thesis by (auto simp: all_left_def list_all_iff)
qed

lemma sum_list_less:
  "t < length xs \<Longrightarrow> (f :: 'a \<Rightarrow> nat) (xs ! t) = Suc (f y) \<Longrightarrow>
   Suc (sum_list (map f (xs[t := y]))) = sum_list (map f xs)"
  by (induction xs arbitrary: t) (auto simp: nth_Cons split: nat.splits)

lemma send_step_left: "send_step mk inner t st = Some st' \<Longrightarrow> all_left st' + 1 = all_left st"
  by (auto simp: send_step_def all_left_def split: if_splits prod.splits send_pc.splits list.splits
      intro!: sum_list_less)

lemma send_step_possible:
  assumes inv: "send_inv mk inner i msgs st" and left: "all_left st \<noteq> 0"
  shows "\<exists>t st'. send_step mk inner t st = Some st'"
proof (cases "ssMutex st")
  case None
  from left obtain th where "th \<in> set (ssThreads st)" "th \<noteq> (Outside, [])"
    by (auto simp: all_left_zero list_all_iff)
  then obtain t where t: "t < length (ssThreads st)" "ssThreads st ! t \<noteq> (Outside, [])"
    by (auto simp: in_set_conv_nth)
  then have "fst (ssThreads st ! t) = Outside" using inv None by (auto simp: send_inv_def)
  then obtain m ms where "ssThreads st ! t = (Outside, m # ms)"
    using t(2) by (cases "ssThreads st ! t"; cases "snd (ssThreads st ! t)") auto
  then show ?thesis using None t(1) by (auto simp: send_step_def intro!: exI [of _ t])
next
  case (Some t)
  then have "t < length (ssThreads st)" "fst (ssThreads st ! t) \<noteq> Outside"
    using inv by (auto simp: send_inv_def)
  then show ?thesis
    by (auto simp: send_step_def split: prod.splits send_pc.splits intro!: exI [of _ t])
qed

lemma send_completes:
  "send_inv mk inner i msgs st \<Longrightarrow>
   \<exists>ts st'. length ts = all_left st \<and> send_run mk inner ts st = Some st' \<and> all_left st' = 0"
proof (induction "all_left st" arbitrary: st)
  case 0
  then show ?case by (auto intro!: exI [of _ "[]"])
next
  case (Suc n)
  then obtain t st1 where s: "send_step mk inner t st = Some st1" using send_step_possible by (metis nat.distinct(1))
  then have "n = all_left st1" using Suc.hyps(2) send_step_left by fastforce
  from Suc.hyps(1) [OF this send_inv_step [OF Suc.prems s]] obtain ts st'
    where "length ts = n" "send_run mk inner ts st1 = Some st'" "all_left st' = 0"
    using \<open>n = all_left st1\<close> by auto
  then show ?case using s Suc.hyps(2) by (auto intro!: exI [of _ "t # ts"])
qed

lemma send_run_append:
  "send_run mk inner (ts @ us) st = (case send_run mk inner ts st of None \<Rightarrow> None | Some st' \<Rightarrow> send_run mk inner us st')"
  by (induction ts arbitrary: st) (auto split: option.splits)

lemma send_run_left: "send_run mk inner ts st = Some st' \<Longrightarrow> length ts + all_left st' = all_left st"
  by (induction ts arbitrary: st) (auto split: option.splits dest!: send_step_left)

lemma all_left_start: "all_left (send_start i msgs) = 4 * length (concat msgs)"
  by (induction msgs) (auto simp: all_left_def send_start_def)

lemma send_done:
  assumes "send_inv mk inner i msgs st" and "all_left st = 0" and "t < length msgs"
  shows "calls_of t (ssCalls st) = map mk (msgs ! t)"
proof -
  have "ssThreads st ! t = (Outside, [])"
    using assms by (auto simp: send_inv_def all_left_zero list_all_iff)
  then show ?thesis using assms by (auto simp: send_inv_def)
qed

section \<open>The interface the execution relies on\<close>

text \<open>
  The interface \<^verbatim>\<open>logger\<close> of \<^verbatim>\<open>server.go\<close>, as its users see it: a logged text becomes a response
  whose message is that text on standard error.
\<close>

locale logger =
  fixes mk :: "string \<Rightarrow> 'p" and message :: "'p \<Rightarrow> response_message option"
  assumes message_mk: "message (mk m) = Some (StandardError m)"
begin

lemma mk_inj: "map mk xs = map mk ys \<Longrightarrow> xs = ys"
proof (erule map_injective, rule injI)
  fix x y assume "mk x = mk y"
  then have "message (mk x) = message (mk y)" by simp
  then show "x = y" by (simp add: message_mk)
qed

text \<open>The order in which the texts of the goroutines reached the stream.\<close>

lemma send_order:
  assumes run: "send_run mk inner ts (send_start i msgs) = Some st" and don: "all_left st = 0"
  obtains ord where "ssCalls st = map (apsnd mk) ord" "\<And>t. t < length msgs \<Longrightarrow> calls_of t ord = msgs ! t"
    "map (message \<circ> snd) (ssCalls st) = map (\<lambda>c. Some (StandardError (snd c))) ord"
proof -
  note inv = send_run_inv [OF run]
  have "\<exists>m. p = mk m" if "(t, p) \<in> set (ssCalls st)" for t p
  proof -
    have "p \<in> set (calls_of t (ssCalls st))" using that by (force simp: calls_of_def)
    moreover have "t < length msgs" using inv that by (auto simp: send_inv_def)
    ultimately show ?thesis using send_done [OF inv don] by auto
  qed
  then have "\<forall>c \<in> set (ssCalls st). \<exists>c'. c = apsnd mk c'" by (auto simp: apsnd_def map_prod_def split: prod.splits)
  then obtain ord where ord: "ssCalls st = map (apsnd mk) ord" by (metis ex_map_conv)
  have "calls_of t (map (apsnd mk) ord) = map mk (calls_of t ord)" for t
    by (induction ord) (auto simp: calls_of_def)
  then have "calls_of t ord = msgs ! t" if "t < length msgs" for t
    using send_done [OF inv don that] ord by (auto intro: mk_inj)
  moreover have "map (message \<circ> snd) (ssCalls st) = map (\<lambda>c. Some (StandardError (snd c))) ord"
    by (simp add: ord message_mk)
  ultimately show thesis using that ord by blast
qed

end

interpretation build_stream: logger build_Log bpMessage
  by unfold_locales (simp add: build_Log_def)

interpretation run_stream: logger run_Log rpMessage
  by unfold_locales (simp add: run_Log_def)

section \<open>Properties\<close>

text \<open>Property C30: the mutex makes concurrent logging sequential. However the goroutines interleave, at most
  one of them is between \<^verbatim>\<open>Lock\<close> and \<^verbatim>\<open>Unlock\<close>, so the embedded stream is never called by two
  at once; its state is that of one sequence of calls, and the part of that sequence that a
  goroutine contributed is its messages so far, in its own order.\<close>

theorem Send_serialized:
  assumes "send_run mk inner ts (send_start i msgs) = Some st"
  shows "(\<forall>t u. t < length msgs \<longrightarrow> u < length msgs \<longrightarrow> fst (ssThreads st ! t) \<noteq> Outside \<longrightarrow>
       fst (ssThreads st ! u) \<noteq> Outside \<longrightarrow> t = u) \<and>
    ssInner st = fold (\<lambda>c. snd \<circ> inner (snd c)) (ssCalls st) i \<and>
    (\<forall>t < length msgs. prefix (calls_of t (ssCalls st)) (map mk (msgs ! t)))"
proof -
  note inv = send_run_inv [OF assms]
  have "prefix (calls_of t (ssCalls st)) (map mk (msgs ! t))" if "t < length msgs" for t
    using inv that unfolding send_inv_def by (metis prefixI)
  then show ?thesis using one_sender [OF inv] inv by (auto simp: send_inv_def)
qed

definition two_loggers :: "string list list" where
  "two_loggers = [[''a'', ''b''], [''c'']]"

theorem Send_serialized_witness:
  "\<exists>st. send_run build_Log (\<lambda>p n. (None, Suc n)) [0, 0, 0, 0, 1, 1] (send_start 0 two_loggers) = Some st \<and>
     fst (ssThreads st ! 1) = Sending (build_Log ''c'') \<and> fst (ssThreads st ! 0) = Outside \<and> ssInner st = (1 :: nat)"
proof -
  obtain st where st: "send_run build_Log (\<lambda>p n. (None, Suc n)) [0, 0, 0, 0, 1, 1] (send_start (0 :: nat) two_loggers) = Some st"
      "fst (ssThreads st ! 1) = Sending (build_Log ''c'')" "ssCalls st = [(0, build_Log ''a'')]" "length two_loggers = 2"
    by (simp add: stream_defs two_loggers_def)
  note ser = Send_serialized [OF st(1)]
  have "fst (ssThreads st ! 0) = Outside"
    using conjunct1 [OF ser, rule_format, of 0 1] st(2,4) by auto
  moreover have "ssInner st = 1" using conjunct1 [OF conjunct2 [OF ser]] st(3) by simp
  ultimately show ?thesis using st(1,2) by blast
qed

text \<open>Property C31: logging never blocks for good. After any steps the goroutines have taken, the rest can be
  finished, in as many steps as the unsent messages need (four for a whole message), and then every
  message of every goroutine has been passed to the stream.\<close>

theorem Send_completes:
  assumes "send_run mk inner ts (send_start i msgs) = Some st"
  shows "\<exists>us st'. send_run mk inner (ts @ us) (send_start i msgs) = Some st' \<and>
    length (ts @ us) = 4 * length (concat msgs) \<and> (\<forall>t < length msgs. calls_of t (ssCalls st') = map mk (msgs ! t))"
proof -
  obtain us st' where us: "length us = all_left st" "send_run mk inner us st = Some st'" "all_left st' = 0"
    using send_completes [OF send_run_inv [OF assms]] by blast
  have "length ts + all_left st = 4 * length (concat msgs)"
    using send_run_left [OF assms] by (simp add: all_left_start)
  moreover have run: "send_run mk inner (ts @ us) (send_start i msgs) = Some st'"
    using assms us by (simp add: send_run_append)
  ultimately show ?thesis using us(1) send_done [OF send_run_inv [OF run] us(3)]
    by (intro exI [of _ us] exI [of _ st']) simp
qed

theorem Send_completes_witness:
  "\<exists>us st'. send_run run_Log (\<lambda>p n. (None, Suc n)) ([1, 1] @ us) (send_start (0 :: nat) two_loggers) = Some st' \<and>
     length ([1, 1] @ us) = 12 \<and> calls_of 0 (ssCalls st') = [run_Log ''a'', run_Log ''b'']"
proof -
  obtain st where "send_run run_Log (\<lambda>p n. (None, Suc n)) [1, 1] (send_start (0 :: nat) two_loggers) = Some st"
    by (simp add: stream_defs two_loggers_def)
  from Send_completes [OF this] show ?thesis by (force simp: two_loggers_def)
qed

end
