(* ===== verification/PodProps.thy ===== *)
theory PodProps
  imports ServerHandlers
begin

text \<open>
  Properties of the pods the server defines, whatever the chaincode type and the request: they are
  well formed for the cluster, their names come from well-formed UUIDs, and no request path can end
  the quoting in the shell commands they run.
\<close>

section \<open>UUIDs\<close>

lemma hexdigit_range:
  assumes "unat d < 16"
  shows "hexdigit d \<in> set ''0123456789abcdef''"
proof -
  have "list_all (\<lambda>n. char_of (if n < 10 then 48 + n else 87 + n) \<in> set ''0123456789abcdef'') [0 ..< 16]"
    by code_simp
  then show ?thesis using assms by (simp add: list_all_iff hexdigit_def word_less_nat_alt)
qed

lemma hex_bytes_range: "set (hex_bytes bs) \<subseteq> set ''0123456789abcdef''"
proof -
  have "set (hex_byte b) \<subseteq> set ''0123456789abcdef''" for b
    unfolding hex_byte_def using hexdigit_range [OF unat_nibble(1)] hexdigit_range [OF unat_nibble(2)] by simp
  then show ?thesis unfolding hex_bytes_def by fastforce
qed

lemma version_nibble: "drop_bit 4 ((b AND NOT 0xF0) OR 0x40) = (4 :: 8 word)"
proof -
  have "NOT 0xF0 = (0x0F :: 8 word)" by simp
  then show ?thesis by (simp only: drop_bit_or drop_bit_and) simp
qed

lemma variant_digit: "hexdigit (drop_bit 4 ((b AND NOT 0xC0) OR 0x80)) \<in> set ''89ab''"
proof -
  have "NOT 0xC0 = (0x3F :: 8 word)" by simp
  then have e: "drop_bit 4 ((b AND NOT 0xC0) OR 0x80) = (drop_bit 4 b AND 3) OR (8 :: 8 word)"
    by (simp only: drop_bit_or drop_bit_and) simp
  have "unat (drop_bit 4 b AND 3) \<le> unat (3 :: 8 word)"
    by (rule word_and_le1 [THEN word_le_nat_alt [THEN iffD1]])
  then have "unat (drop_bit 4 b AND 3) \<in> {0, 1, 2, 3}" by auto
  then have "drop_bit 4 b AND 3 \<in> {0, 1, 2, 3}" by (auto simp: word_unat_eq_iff)
  moreover have "char_of (56 :: nat) = CHR ''8''" "char_of (57 :: nat) = CHR ''9''"
    "char_of (97 :: nat) = CHR ''a''" "char_of (98 :: nat) = CHR ''b''" by code_simp+
  ultimately show ?thesis unfolding e by (elim insertE emptyE) (simp_all add: hexdigit_def)
qed

text \<open>The bits of a random byte that reach the UUID.\<close>

definition kept_bits :: "nat \<Rightarrow> 8 word" where
  "kept_bits i = (if i = 6 then 0x0F else if i = 8 then 0x3F else 0xFF)"

lemma masked_bits:
  "((x AND NOT 0xF0) OR 0x40) AND 0x0F = x AND (0x0F :: 8 word)"
  "((x AND NOT 0xC0) OR 0x80) AND 0x3F = x AND (0x3F :: 8 word)"
proof -
  have n: "NOT 0xF0 = (0x0F :: 8 word)" "NOT 0xC0 = (0x3F :: 8 word)" by simp_all
  show "((x AND NOT 0xF0) OR 0x40) AND 0x0F = x AND (0x0F :: 8 word)"
    unfolding n by (simp only: bit.conj_disj_distrib2 and.assoc) simp
  show "((x AND NOT 0xC0) OR 0x80) AND 0x3F = x AND (0x3F :: 8 word)"
    unfolding n by (simp only: bit.conj_disj_distrib2 and.assoc) simp
qed

lemma uuid_bytes_nth:
  assumes "length bs = 16" and "i < 16"
  shows "uuid_bytes bs ! i AND kept_bits i = bs ! i AND kept_bits i"
  using assms masked_bits by (auto simp: uuid_bytes_def kept_bits_def nth_list_update)

lemma uuid_groups:
  assumes "length bs = 16"
  obtains g1 g2 g3 g4 g5 where "uuid_text (uuid_bytes bs) = g1 @ ''-'' @ g2 @ ''-'' @ g3 @ ''-'' @ g4 @ ''-'' @ g5"
    "map length [g1, g2, g3, g4, g5] = [8, 4, 4, 4, 12]"
    "set (g1 @ g2 @ g3 @ g4 @ g5) \<subseteq> set ''0123456789abcdef''" "hd g3 = CHR ''4''" "hd g4 \<in> set ''89ab''"
proof -
  let ?u = "uuid_bytes bs"
  have u: "?u ! 6 = (bs ! 6 AND NOT 0xF0) OR 0x40" "?u ! 8 = (bs ! 8 AND NOT 0xC0) OR 0x80" "length ?u = 16"
    using assms by (simp_all add: uuid_bytes_def Let_def)
  have "hd (hex_bytes (take 2 (drop n ?u))) = hexdigit (drop_bit 4 (?u ! n))" if "n < 15" for n
    using that u(3) by (simp add: hex_bytes_def hex_byte_def take_Suc hd_drop_conv_nth numeral_2_eq_2)
  then have "hd (hex_bytes (take 2 (drop 6 ?u))) = hexdigit 4"
    "hd (hex_bytes (take 2 (drop 8 ?u))) \<in> set ''89ab''"
    using u version_nibble variant_digit by auto
  moreover have "hexdigit 4 = CHR ''4''" by code_simp
  moreover have "set (hex_bytes (take 4 ?u) @ hex_bytes (take 2 (drop 4 ?u)) @ hex_bytes (take 2 (drop 6 ?u)) @
      hex_bytes (take 2 (drop 8 ?u)) @ hex_bytes (drop 10 ?u)) \<subseteq> set ''0123456789abcdef''"
    using hex_bytes_range by simp
  ultimately show thesis by (intro that [OF uuid_text_def]) (use assms in simp_all)
qed

text \<open>A UUID made from sixteen random bytes has the form of RFC 4122: hexadecimal digits in groups
  of 8, 4, 4, 4 and 12 with dashes between, the version digit 4 and a variant digit from 8 to b; and
  two UUIDs are the same only when the random bytes agree in all but the six bits that are fixed, so
  122 random bits remain.\<close>

lemma UUID_format:
  assumes "length bs = 16" and "length bs' = 16"
  shows "\<exists>u g1 g2 g3 g4 g5. UUID (Some bs) = Ok u \<and>
      u = g1 @ ''-'' @ g2 @ ''-'' @ g3 @ ''-'' @ g4 @ ''-'' @ g5 \<and>
      map length [g1, g2, g3, g4, g5] = [8, 4, 4, 4, 12] \<and>
      set (g1 @ g2 @ g3 @ g4 @ g5) \<subseteq> set ''0123456789abcdef'' \<and> hd g3 = CHR ''4'' \<and> hd g4 \<in> set ''89ab'' \<and>
      (UUID (Some bs') = Ok u \<longrightarrow> (\<forall>i < 16. bs' ! i AND kept_bits i = bs ! i AND kept_bits i))"
proof -
  have "bs' ! i AND kept_bits i = bs ! i AND kept_bits i"
    if "UUID (Some bs') = UUID (Some bs)" "i < 16" for i
  proof -
    have "uuid_bytes bs' = uuid_bytes bs"
      using that assms by (intro uuid_text_inj) (simp_all add: UUID_def)
    then show ?thesis using uuid_bytes_nth that assms by metis
  qed
  moreover have "UUID (Some bs) = Ok (uuid_text (uuid_bytes bs))" by (simp add: UUID_def)
  ultimately show ?thesis using uuid_groups [OF assms(1)] by metis
qed

section \<open>Pods\<close>

text \<open>
  What the API server demands of a pod beyond its types: containers and volumes with distinct names,
  mounts of declared volumes only.
\<close>

definition pod_containers :: "Pod \<Rightarrow> Container list" where
  "pod_containers pod = psInitContainers (podSpec pod) @ psContainers (podSpec pod)"

definition pod_accepted :: "Pod \<Rightarrow> bool" where
  "pod_accepted pod \<longleftrightarrow> distinct (map cName (pod_containers pod)) \<and> distinct (map volName (psVolumes (podSpec pod))) \<and>
     (\<forall>c \<in> set (pod_containers pod). \<forall>m \<in> set (cVolumeMounts c). vmName m \<in> volName ` set (psVolumes (podSpec pod)))"

definition runs_as :: "nat \<Rightarrow> Container \<Rightarrow> bool" where
  "runs_as uid c \<longleftrightarrow> map_option scRunAsUser (cSecurityContext c) = Some (Some (int uid))"

context chaincode_platform
begin

lemma build_pod_ok: "pod_accepted (build_pod b a (buildC path img) su ou uuid n u)"
  using build_pod_volumes [of _ b a path img su ou uuid n u] build_pod_container_names [of b a path img su ou uuid n u]
  by (auto simp: pod_accepted_def pod_containers_def) (simp add: build_pod_def)

lemma run_pod_ok: "pod_accepted (run_pod b a z (runC genv rmd img) rmd cu uuid n u)"
  using run_pod_volumes [of _ b a z genv rmd img cu uuid n u] run_pod_container_names [of b a z genv rmd img cu uuid n u]
  by (auto simp: pod_accepted_def pod_containers_def) (simp add: run_pod_def)

end

lemmas platform_pods = golang.build_pod_ok java.build_pod_ok node.build_pod_ok executable.build_pod_ok
  golang.run_pod_ok java.run_pod_ok node.run_pod_ok executable.run_pod_ok

lemmas platform_users = golang.build_user java.build_user node.build_user executable.build_user
  golang.run_user java.run_user node.run_user executable.run_user

text \<open>Property C37: whatever the metadata and the request say, a build pod the server defines is accepted by the
  cluster: the containers have distinct names and mount only the volume the pod declares. The
  container that compiles the chaincode, whichever the language, and the one that uploads the result
  run as the unprivileged user 7051.\<close>

theorem build_pods_accepted:
  assumes "buildContainerDefinition b md = Ok c" and "buildPodDefinition b rnd c src out n u = Ok pod"
  shows "pod_accepted pod \<and> runs_as 7051 c \<and> c \<in> set (psInitContainers (podSpec pod)) \<and>
    (\<forall>c' \<in> set (psContainers (podSpec pod)). runs_as 7051 c')"
proof -
  obtain a su ou uuid where pod: "pod = build_pod b a c su ou uuid n u"
    using assms(2) by (cases rule: buildPodDefinition_cases [of b src out rnd c n u]) auto
  have "pod_accepted pod" "runs_as 7051 c"
    using assms(1) platform_pods platform_users
    by (auto simp: pod buildContainerDefinition_def runs_as_def Let_def split: if_splits)
  then show ?thesis by (simp add: pod build_pod_def upload_output_container_def runs_as_def run_as_def)
qed

definition plain_server :: Server where
  "plain_server = \<lparr>SharedPath = ''/shared'', FSBaseURL = ''https://files:22222/'', FileTransferImage = ''ft'',
     BuilderImage = ''bi'', GoEnvImage = ''go'', JavaEnvImage = ''java'', NodeEnvImage = ''node'', ImagePullSecrets = [''pull''],
     PeerID = ''peer0'', Auth = Some \<lparr>Username = ''u'', Password = ''p''\<rparr>, TLSCertString = ''cert''\<rparr>"

lemma plain_url: "urlJoin (FSBaseURL plain_server) ''b/x.tar'' = Ok ''https://files:22222/b/x.tar''"
  by code_simp

theorem build_pods_accepted_witness:
  "\<exists>c pod. buildContainerDefinition plain_server \<lparr>mdPath = ''cc'', mdType = ''GoLang''\<rparr> = Ok c \<and>
     buildPodDefinition plain_server (Some (replicate 16 0)) c ''b/x.tar'' ''b/x.tar'' ''peer'' ''uid'' = Ok pod \<and> pod_accepted pod"
proof -
  have c: "buildContainerDefinition plain_server \<lparr>mdPath = ''cc'', mdType = ''GoLang''\<rparr> = Ok (golangBuildContainer ''cc'' ''bi'')"
  proof -
    have "to_lower ''GoLang'' = ''golang''" by code_simp
    then show ?thesis by (simp add: buildContainerDefinition_def plain_server_def)
  qed
  obtain pod where p: "buildPodDefinition plain_server (Some (replicate 16 0)) (golangBuildContainer ''cc'' ''bi'')
      ''b/x.tar'' ''b/x.tar'' ''peer'' ''uid'' = Ok pod"
    using plain_url by (auto simp: buildPodDefinition_def UUID_def plain_server_def)
  from build_pods_accepted [OF c p] show ?thesis using c p by blast
qed

text \<open>Property C38: a run pod the server defines is accepted by the cluster too, its chaincode container runs as
  the unprivileged user 7051, and its chaincode label is at most 63 bytes long, has no colon and is
  the chaincode identifier up to colons and the cut.\<close>

theorem run_pods_accepted:
  assumes "runContainerDefinition genv b ccType rmd = Ok c"
    and "runPodDefinition kc b c rmd path uuid n u w = (Ok pod, w')"
  shows "pod_accepted pod \<and> psContainers (podSpec pod) = [c] \<and> runs_as 7051 c \<and>
    (\<exists>l. (''chaincode-id'', l) \<in> set (omLabels (podMeta pod)) \<and> length l \<le> 63 \<and> CHR '':'' \<notin> set l \<and>
      prefix l (replace_char (CHR '':'') (CHR ''-'') (ChaincodeID rmd)) \<and>
      (length (ChaincodeID rmd) \<le> 63 \<longrightarrow> length l = length (ChaincodeID rmd)))"
proof -
  obtain a z cu where pod: "pod = run_pod b a z c rmd cu uuid n u"
    using assms(2) by (cases rule: runPodDefinition_cases [of b path kc c rmd uuid n u w]) auto
  have "pod_accepted pod" "runs_as 7051 c"
    using assms(1) platform_pods platform_users
    by (auto simp: pod runContainerDefinition_def runs_as_def Let_def split: if_splits)
  moreover have "length (chaincode_label i) \<le> 63" "CHR '':'' \<notin> set (chaincode_label i)"
    "prefix (chaincode_label i) (replace_char (CHR '':'') (CHR ''-'') i)"
    "length i \<le> 63 \<Longrightarrow> length (chaincode_label i) = length i" for i
    by (auto simp: chaincode_label_def replace_char_def Let_def dest!: in_set_takeD intro: take_is_prefix)
  ultimately show ?thesis
    by (auto simp: pod run_pod_def intro!: exI [of _ "chaincode_label (ChaincodeID rmd)"])
qed

definition long_run :: runMetadata where
  "long_run = \<lparr>ChaincodeID = ''basic:'' @ replicate 64 CHR ''f'', ClientCert = [], ClientKey = [], RootCert = [],
     PeerAddress = ''peer:7052''\<rparr>"

lemma plain_run_pod:
  obtains c pod where "runContainerDefinition (\<lambda>_. []) plain_server ''node'' long_run = Ok c"
    "runPodDefinition sample_kube plain_server c long_run ''b/x.tar'' ''1'' ''peer'' ''uid'' sample_world =
      (Ok pod, sample_world)"
proof -
  have "runContainerDefinition (\<lambda>_. []) plain_server ''node'' long_run = Ok (nodeRunContainer (\<lambda>_. []) long_run ''node'')"
    by code_simp
  moreover obtain pod where "runPodDefinition sample_kube plain_server (nodeRunContainer (\<lambda>_. []) long_run ''node'')
      long_run ''b/x.tar'' ''1'' ''peer'' ''uid'' sample_world = (Ok pod, sample_world)"
    using plain_url by (auto simp: runPodDefinition_def hasZoneLabels_def plain_server_def sample_kube_def)
  ultimately show thesis by (rule that)
qed

theorem run_pods_accepted_witness:
  "\<exists>c pod. runContainerDefinition (\<lambda>_. []) plain_server ''node'' long_run = Ok c \<and>
     runPodDefinition sample_kube plain_server c long_run ''b/x.tar'' ''1'' ''peer'' ''uid'' sample_world =
       (Ok pod, sample_world) \<and> pod_accepted pod"
proof -
  obtain c pod where c: "runContainerDefinition (\<lambda>_. []) plain_server ''node'' long_run = Ok c"
    and p: "runPodDefinition sample_kube plain_server c long_run ''b/x.tar'' ''1'' ''peer'' ''uid''
      sample_world = (Ok pod, sample_world)" by (rule plain_run_pod)
  from run_pods_accepted [OF c p] show ?thesis using c p by blast
qed

section \<open>Shell commands\<close>

definition quote :: char where "quote = CHR 0x27"

lemma upperhex_no_quote: "d < 16 \<Longrightarrow> upperhex d \<noteq> quote"
  by (auto simp: upperhex_def quote_def dest!: arg_cong [of _ _ "of_char :: char \<Rightarrow> nat"] simp: of_char_of)

lemma escape_no_quote:
  assumes "m \<in> {EncPath, EncUser, EncFragment} \<or> quote \<notin> set p"
  shows "quote \<notin> set (url_escape m p)"
proof -
  have "quote \<notin> set (if shouldEscape m c then [CHR ''%'', upperhex (ub c div 16), upperhex (ub c mod 16)] else [c])"
    if "c \<in> set p" for c
  proof (cases "shouldEscape m c")
    case True
    have "ub c < 256" by (simp add: ub_def)
    then show ?thesis using True upperhex_no_quote [of "ub c div 16"] upperhex_no_quote [of "ub c mod 16"]
      by (auto simp: less_mult_imp_div_less quote_def)
  next
    case False
    then have "c \<noteq> quote" using assms that by (auto simp: quote_def shouldEscape_def is_alnum_def ub_def)
    then show ?thesis using False by auto
  qed
  then show ?thesis unfolding url_escape_def by (simp only: set_concat set_map) blast
qed

text \<open>The parts of a base URL that are printed as they are have no quote.\<close>

definition quote_free :: "url \<Rightarrow> bool" where
  "quote_free u \<longleftrightarrow> quote \<notin> set (uScheme u @ uOpaque u @ uHost u @ uRawPath u @ uRawQuery u @ uRawFragment u)"

lemma url_String_no_quote: "quote_free u \<Longrightarrow> quote \<notin> set (url_String u)"
proof -
  assume u: "quote_free u"
  have a: "quote \<notin> set (authority_text u)"
    using u escape_no_quote [of EncHost "uHost u"] escape_no_quote [of EncUser]
    by (auto simp: quote_free_def authority_text_def userinfo_text_def split: option.splits) (auto simp: quote_def)
  have p: "quote \<notin> set (EscapedPath u)" "quote \<notin> set (EscapedFragment u)"
    using u escape_no_quote [of EncPath] escape_no_quote [of EncFragment]
    by (auto simp: quote_free_def EscapedPath_def EscapedFragment_def) (auto simp: quote_def)
  show ?thesis using u a p by (auto simp: quote_free_def url_String_def Let_def) (auto simp: quote_def)
qed

lemma urlJoin_no_quote:
  assumes "url_Parse base = Some v" and "quote_free v" and "urlJoin base p = Ok u"
  shows "count_list u quote = 0"
  using assms url_String_no_quote [of "v\<lparr>uPath := path_Join [uPath v, p]\<rparr>"]
  by (auto simp: urlJoin_def quote_free_def count_list_0_iff)

text \<open>Property C36: no path in a request can end the quoting in the shell commands of the pods. When the base URL
  of the file server has no quote character, the commands that download the source, upload the
  output and download the output contain exactly the two quotes that enclose the URL.\<close>

theorem request_paths_stay_quoted:
  assumes "url_Parse (FSBaseURL b) = Some v" and "quote_free v"
    and "buildPodDefinition b rnd bc src out n u = Ok pod"
    and "runPodDefinition kc b rc rmd path uuid n u w = (Ok pod', w')"
  shows "map (\<lambda>c. count_list (concat (cArgs c)) quote)
    [psInitContainers (podSpec pod) ! 1, psContainers (podSpec pod) ! 0, psInitContainers (podSpec pod') ! 0] = [2, 2, 2]"
proof -
  obtain a su ou id where pod: "pod = build_pod b a bc su ou id n u"
      "urlJoin (FSBaseURL b) src = Ok su" "urlJoin (FSBaseURL b) out = Ok ou"
    using assms(3) by (cases rule: buildPodDefinition_cases [of b src out rnd bc n u]) auto
  obtain a' z cu where pod': "pod' = run_pod b a' z rc rmd cu uuid n u" "urlJoin (FSBaseURL b) path = Ok cu"
    using assms(4) by (cases rule: runPodDefinition_cases [of b path kc rc rmd uuid n u w]) auto
  have q: "char_of (39 :: nat) = CHR 0x27" by code_simp
  have "count_list (concat (cArgs (download_source_container b a su))) quote = 2"
    "count_list (concat (cArgs (upload_output_container b a ou))) quote = 2"
    "count_list (concat (cArgs (download_output_container b a' cu))) quote = 2"
    using urlJoin_no_quote [OF assms(1,2) pod(2)] urlJoin_no_quote [OF assms(1,2) pod(3)]
      urlJoin_no_quote [OF assms(1,2) pod'(2)]
    by (simp_all add: download_source_container_def upload_output_container_def download_output_container_def quoted_def
        quote_def q)
  then show ?thesis by (simp add: pod pod' build_pod_def run_pod_def)
qed

theorem request_paths_stay_quoted_witness:
  "\<exists>pod. buildPodDefinition plain_server (Some (replicate 16 0)) (golangBuildContainer ''cc'' ''bi'') ''b/x.tar'' ''b/x.tar'' ''peer'' ''uid'' =
       Ok pod \<and> count_list (concat (cArgs (psInitContainers (podSpec pod) ! 1))) quote = 2"
proof -
  obtain v where v: "url_Parse (FSBaseURL plain_server) = Some v" "quote_free v"
  proof -
    have "map_option quote_free (url_Parse (FSBaseURL plain_server)) = Some True" by code_simp
    then show thesis using that by auto
  qed
  obtain pod where p: "buildPodDefinition plain_server (Some (replicate 16 0)) (golangBuildContainer ''cc'' ''bi'')
      ''b/x.tar'' ''b/x.tar'' ''peer'' ''uid'' = Ok pod"
    using plain_url by (auto simp: buildPodDefinition_def UUID_def plain_server_def)
  obtain c pod' where q: "runPodDefinition sample_kube plain_server c long_run ''b/x.tar'' ''1'' ''peer'' ''uid''
      sample_world = (Ok pod', sample_world)" using plain_run_pod by blast
  from request_paths_stay_quoted [OF v p q] show ?thesis using p by simp
qed

end
