(* ===== verification/FsCopyOther.thy ===== *)
theory FsCopyOther
  imports FsCopy
begin

text \<open>
  Package \<^verbatim>\<open>fs\<close>, file \<^verbatim>\<open>copy.go\<close>: the variant of \<^verbatim>\<open>copy_linux.go\<close> built on other systems. It
  reads the access time from another field of \<^verbatim>\<open>syscall.Stat_t\<close> and prints a message when closing
  the source of a copy fails; the message goes to standard output, which these operations return
  beside their result.
\<close>

type_synonym 'a outs = "os \<Rightarrow> 'a outcome \<times> string \<times> os"

definition quiet :: "'a sys \<Rightarrow> 'a outs" where
  "quiet m s = (case m s of (r, s') \<Rightarrow> (r, [], s'))"

definition seqo :: "'a outs \<Rightarrow> ('a \<Rightarrow> 'b outs) \<Rightarrow> 'b outs" where
  "seqo m f s = (case m s of
      (Ok a, out, s') \<Rightarrow> (case f a s' of (r, out', s'') \<Rightarrow> (r, out @ out', s''))
    | (Err e, out, s') \<Rightarrow> (Err e, out, s')
    | (Panic p, out, s') \<Rightarrow> (Panic p, out, s'))"

section \<open>Copying\<close>

text \<open>\<^verbatim>\<open>sys.Atimespec\<close> of a file, and \<^verbatim>\<open>time.Unix\<close> of its seconds and nanoseconds.\<close>

record Timespec =
  Sec :: int
  Nsec :: int

definition Atimespec :: "inode \<Rightarrow> Timespec" where
  "Atimespec fi = \<lparr>Sec = atime fi div 1000000000, Nsec = atime fi mod 1000000000\<rparr>"

definition time_Unix :: "int \<Rightarrow> int \<Rightarrow> int" where
  "time_Unix sec nsec = sec * 1000000000 + nsec"

definition other_chtimes :: "string \<Rightarrow> inode \<Rightarrow> unit sys" where
  "other_chtimes target fi =
     os_Chtimes target (Some (time_Unix (Sec (Atimespec fi)) (Nsec (Atimespec fi)))) (Some (mtime fi))"

definition other_copyClose :: "string \<Rightarrow> key \<Rightarrow> content sys \<Rightarrow> unit sys" where
  "other_copyClose path w reader s =
     (case seq reader (write_handle path w) s of
        (Ok _, s') \<Rightarrow> close_handle path w s'
      | (r, s') \<Rightarrow> (r, snd (close_handle path w s')))"

definition closing_message :: "gerror \<Rightarrow> string" where
  "closing_message e = ''Error closing file: '' @ error_text e"

text \<open>The deferred close of the source, which does not change the result.\<close>

definition closing :: "string \<Rightarrow> key \<Rightarrow> 'a outs \<Rightarrow> 'a outs" where
  "closing path source body s =
     (case body s of (r, out, s') \<Rightarrow>
        (case close_handle path source s' of
           (Err e, s'') \<Rightarrow> (r, out @ closing_message e, s'')
         | (_, s'') \<Rightarrow> (r, out, s'')))"

definition other_CopyFile :: "string \<Rightarrow> string \<Rightarrow> unit outs" where
  "other_CopyFile src dest =
     seqo (quiet (os_Open (path_Clean src))) (\<lambda>source.
     closing (path_Clean src) source
       (seqo (quiet (lookup_key OpStat ''stat'' (path_Clean src) source)) (\<lambda>fi.
        seqo (quiet (os_OpenFile False (path_Clean dest) (file_mode fi))) (\<lambda>target.
        seqo (quiet (other_copyClose (path_Clean dest) target (read_handle (path_Clean src) source))) (\<lambda>_.
        quiet (other_chtimes dest fi))))))"

fun other_CopyDir :: "nat \<Rightarrow> string \<Rightarrow> string \<Rightarrow> unit outs"
  and other_copy_entries :: "nat \<Rightarrow> string \<Rightarrow> string \<Rightarrow> (string \<times> inode) list \<Rightarrow> unit outs" where
  "other_CopyDir 0 src dest = (\<lambda>s. (Panic ''stack overflow'', [], s))"
| "other_CopyDir (Suc d) src dest = seqo (quiet (ioutil_ReadDir src)) (other_copy_entries d src dest)"
| "other_copy_entries d src dest [] = quiet (ret ())"
| "other_copy_entries d src dest ((name, de) # rest) =
     (let sourcePath = path_Join [src, name]; destPath = path_Join [dest, name] in
      if kind de = KDir then
        seqo (quiet (os_MkdirAll destPath (file_mode de))) (\<lambda>_.
        seqo (other_CopyDir d sourcePath destPath) (\<lambda>_.
        seqo (quiet (other_chtimes destPath de)) (\<lambda>_.
        other_copy_entries d src dest rest)))
      else
        seqo (other_CopyFile sourcePath destPath) (\<lambda>_.
        other_copy_entries d src dest rest))"

lemmas fs_other_defs [go_defs] = quiet_def seqo_def Atimespec_def time_Unix_def other_chtimes_def
  other_copyClose_def closing_message_def closing_def other_CopyFile_def

section \<open>Agreement with the Linux variant\<close>

text \<open>An operation that does what another does, and prints messages about failing closes only.\<close>

definition agrees :: "'a outs \<Rightarrow> 'a sys \<Rightarrow> bool" where
  "agrees m m' \<longleftrightarrow> (\<forall>s. \<exists>es. \<exists>r s'. m' s = (r, s') \<and> m s = (r, concat (map closing_message es), s'))"

named_theorems agrees_rules

lemma agreesD: "agrees m m' \<Longrightarrow> m' s = (r, s') \<Longrightarrow> \<exists>es. m s = (r, concat (map closing_message es), s')"
  unfolding agrees_def by (metis prod.inject)

lemma agrees_quiet [agrees_rules]: "agrees (quiet m) m"
  by (auto simp: agrees_def quiet_def split: prod.splits intro!: exI [of _ "[]"])

lemma agrees_ret [agrees_rules]: "agrees (quiet (ret a)) (Pair (Ok a))"
  by (auto simp: agrees_def quiet_def intro!: exI [of _ "[]"])

lemma agrees_panic [agrees_rules]: "agrees (\<lambda>s. (r, [], s)) (Pair r)"
  by (auto simp: agrees_def intro!: exI [of _ "[]"])

lemma agrees_seqo [agrees_rules]:
  assumes m: "agrees m m'" and f: "\<And>a. agrees (f a) (f' a)"
  shows "agrees (seqo m f) (seq m' f')"
  unfolding agrees_def
proof
  fix s
  obtain r s' where m': "m' s = (r, s')" by fastforce
  with agreesD [OF m] obtain es where es: "m s = (r, concat (map closing_message es), s')" by blast
  show "\<exists>es r s'. seq m' f' s = (r, s') \<and> seqo m f s = (r, concat (map closing_message es), s')"
  proof (cases r)
    case (Ok a)
    obtain r2 s2 where f': "f' a s' = (r2, s2)" by fastforce
    with agreesD [OF f] obtain fs where "f a s' = (r2, concat (map closing_message fs), s2)" by blast
    then show ?thesis using Ok m' es f'
      by (intro exI [of _ "es @ fs"]) (simp add: seq_def seqo_def)
  qed (use m' es in \<open>auto simp: seq_def seqo_def\<close>)
qed

lemma agrees_closing [agrees_rules]:
  assumes "agrees m m'"
  shows "agrees (closing path k m) m'"
  unfolding agrees_def
proof
  fix s
  obtain r s' where m': "m' s = (r, s')" by fastforce
  with agreesD [OF assms] obtain es where es: "m s = (r, concat (map closing_message es), s')" by blast
  obtain c s'' where c: "close_handle path k s' = (c, s'')" by fastforce
  then have "s'' = s'" by (rule close_handle_state)
  then show "\<exists>es r s'. m' s = (r, s') \<and> closing path k m s = (r, concat (map closing_message es), s')"
    using m' es c
    by (cases c) (auto simp: closing_def intro: exI [of _ es] exI [of _ "es @ [e]" for e])
qed

lemma other_chtimes_eq: "other_chtimes = chtimes"
  by (simp add: fun_eq_iff other_chtimes_def chtimes_def time_Unix_def Atimespec_def)

lemma other_copyClose_eq: "other_copyClose = copyClose"
  by (simp add: fun_eq_iff other_copyClose_def copyClose_def)

lemma agrees_CopyFile [agrees_rules]: "agrees (other_CopyFile src dest) (CopyFile src dest)"
  unfolding other_CopyFile_def CopyFile_def other_chtimes_eq other_copyClose_eq
  by (intro agrees_rules)

lemma agrees_CopyDir:
  "agrees (other_CopyDir d src dest) (CopyDir d src dest)"
  "agrees (other_copy_entries d src dest es) (copy_entries d src dest es)"
  by (induction d src dest and d src dest es rule: CopyDir_copy_entries.induct)
     (auto simp: Let_def other_chtimes_eq intro!: agrees_rules)

text \<open>Property C39: the two variants of the copy operations are the same function of the file system: on every
  input, errors included, copying on another system has the result of copying on Linux and leaves
  the same files; it may print messages, and only about sources that failed to close.\<close>

theorem copy_variants_agree:
  "\<exists>es es' r s' r' s''. CopyDir d src dest s = (r, s') \<and>
     other_CopyDir d src dest s = (r, concat (map closing_message es), s') \<and>
     CopyFile src dest s = (r', s'') \<and>
     other_CopyFile src dest s = (r', concat (map closing_message es'), s'')"
proof -
  obtain r s' r' s'' where c: "CopyDir d src dest s = (r, s')" "CopyFile src dest s = (r', s'')" by fastforce
  show ?thesis using agreesD [OF agrees_CopyDir(1) c(1)] agreesD [OF agrees_CopyFile c(2)] c by blast
qed

end
