(* ===== verification/MainProps.thy ===== *)
theory MainProps
  imports CommandProps LogStreams PodProps FsCopyOther
begin

text \<open>
  Properties of the two programs as a whole: what has to hold before the server serves, that the
  pods it defines can use its file server, what that server hands out, and the exit codes of both
  programs.
\<close>

section \<open>Credentials\<close>

lemma GenerateRandomString_Ok:
  "n \<le> length draws \<Longrightarrow> (\<And>d. d \<in> set (take n draws) \<Longrightarrow> \<exists>k < 62. d = Some k) \<Longrightarrow>
   GenerateRandomString draws n = Ok (map (\<lambda>d. charset ! the d) (take n draws))"
proof (induction n arbitrary: draws)
  case (Suc n)
  then obtain d ds where ds: "draws = d # ds" by (cases draws) auto
  then obtain k where "d = Some k" using Suc.prems(2) [of d] by auto
  then show ?case using Suc.IH [of ds] Suc.prems ds by auto
qed simp

lemma charset_facts: "length charset = 62" "distinct charset" "list_all is_alnum charset"
  by code_simp+

text \<open>The random user names and passwords. With draws in the range the random source promises, the
  result has the length asked for and consists of letters and digits only, so it needs no quoting in
  a shell command or a header; and different draws give different strings, so no randomness is lost.\<close>

lemma GenerateRandomString_text:
  assumes "length draws = n" and "\<And>d. d \<in> set draws \<Longrightarrow> \<exists>k < 62. d = Some k"
    and "length draws' = n" and "\<And>d. d \<in> set draws' \<Longrightarrow> \<exists>k < 62. d = Some k"
  shows "\<exists>t. GenerateRandomString draws n = Ok t \<and> length t = n \<and> list_all is_alnum t \<and>
    (GenerateRandomString draws' n = Ok t \<longrightarrow> draws' = draws)"
proof -
  let ?f = "\<lambda>d. charset ! the d"
  have t: "GenerateRandomString draws n = Ok (map ?f draws)" "GenerateRandomString draws' n = Ok (map ?f draws')"
    using GenerateRandomString_Ok [of n draws] GenerateRandomString_Ok [of n draws'] assms by auto
  have "inj_on ?f (set draws \<union> set draws')"
  proof (rule inj_onI)
    fix d e assume "d \<in> set draws \<union> set draws'" "e \<in> set draws \<union> set draws'" and eq: "?f d = ?f e"
    then obtain k l where "d = Some k" "k < 62" "e = Some l" "l < 62" using assms(2,4) by blast
    then show "d = e" using eq charset_facts by (simp add: nth_eq_iff_index_eq)
  qed
  then have "map ?f draws' = map ?f draws \<Longrightarrow> draws' = draws" by (simp add: inj_on_map_eq_map Un_commute)
  moreover have "is_alnum (?f d)" if "d \<in> set draws" for d
    using assms(2) [OF that] charset_facts by (auto simp: list_all_length)
  ultimately show ?thesis using t assms(1) by (auto simp: list_all_iff)
qed

section \<open>Serving\<close>

lemma b64_alphabet_length: "length b64_alphabet = 64"
  by code_simp

lemma b64_chars: "(\<And>x. x \<in> set xs \<Longrightarrow> x < 256) \<Longrightarrow> set (b64_encode xs) \<subseteq> set b64_alphabet \<union> {CHR ''=''}"
proof (induction xs rule: b64_encode.induct)
  case (2 a)
  then show ?case using b64_groups [of a 0 0] by (auto simp: b64_char_def b64_alphabet_length)
next
  case (3 a b)
  then show ?case using b64_groups [of a b 0] by (auto simp: b64_char_def b64_alphabet_length)
next
  case (4 a b c r)
  then show ?case using b64_groups [of a b c] by (auto simp: b64_char_def b64_alphabet_length)
qed simp

lemma cut_colon_append: "CHR '':'' \<notin> set u \<Longrightarrow> cut_colon (u @ CHR '':'' # p) = Some (u, p)"
  by (induction u) auto

text \<open>What \<^verbatim>\<open>curl -u\<close> sends is what \<^verbatim>\<open>BasicAuth\<close> reads.\<close>

definition basic_header :: "string \<Rightarrow> string \<Rightarrow> string" where
  "basic_header u p = ''Basic '' @ EncodeToString (u @ '':'' @ p)"

lemma BasicAuth_header:
  assumes "qAuthorization req = basic_header u p" and "CHR '':'' \<notin> set u"
  shows "request_BasicAuth req = Some (u, p)"
proof -
  let ?e = "EncodeToString (u @ '':'' @ p)"
  have "set ?e \<subseteq> set b64_alphabet \<union> {CHR ''=''}" unfolding EncodeToString_def by (rule b64_chars) auto
  moreover have "CHR 0x0A \<notin> set b64_alphabet" "CHR 0x0D \<notin> set b64_alphabet" by code_simp+
  ultimately have "filter (\<lambda>c. c \<noteq> CHR 0x0A \<and> c \<noteq> CHR 0x0D) ?e = ?e"
    by (intro filter_True) auto
  moreover have "to_lower ''Basic '' = ''basic ''" by code_simp
  ultimately show ?thesis
    using assms(1) cut_colon_append [OF assms(2)] by (simp add: request_BasicAuth_def basic_header_def base64.dec_enc)
qed

text \<open>The files the start-up writes.\<close>

lemma mkdirs_env: "mkdirs path rk mode s = (r, s') \<Longrightarrow> same_env s s'"
proof (induction rk arbitrary: path r s')
  case (Cons n rk)
  have last: "mkdir_last p k mode t = (q, t') \<Longrightarrow> same_env t t'" for p k t q t'
    by (auto simp: mkdir_last_def mkdir_key_def same_env_def split: option.splits if_splits prod.splits outcome.splits)
  show ?case
  proof (cases "mkdirs (path_Dir path) rk mode s")
    case (Pair q t)
    then have "same_env s t" using Cons.IH by blast
    then show ?thesis using Cons.prems Pair last
      by (auto simp: seq_def same_env_def split: prod.splits outcome.splits if_splits)
  qed
qed (simp add: same_env_def)

lemma os_WriteFile_Ok:
  assumes "os_WriteFile path c mode s = (Ok u, s')"
  shows "same_env s s' \<and> (\<exists>n. file_at s' (resolve (cwd s) path) = Some n \<and> data n = c \<and> kind n \<noteq> KDir)"
  using assms
  by (auto simp: os_WriteFile_def seq_def os_OpenFile_def with_key_def write_handle_def close_handle_def same_env_def
      file_at_put_new new_file_def split: option.splits if_splits prod.splits outcome.splits)

lemma GenerateTLSCrypto_Ok:
  assumes "GenerateTLSCrypto cr url dir s = (Ok (cfg, key, cert), s')"
  shows "same_env s s' \<and> (\<exists>k. PrivateKey cr = Inr (k, key)) \<and>
    (\<exists>n. file_at s' (resolve (cwd s) (dir @ ''/certs/key.pem'')) = Some n \<and> data n = Raw key \<and> kind n \<noteq> KDir)"
proof -
  obtain k s1 s2 where k: "PrivateKey cr = Inr (k, key)" and
    "os_MkdirAll (dir @ ''/certs'') 0x1E8 s = (Ok (), s1)"
    "os_WriteFile (dir @ ''/certs/cert.pem'') (Raw cert) 0x180 s1 = (Ok (), s2)"
    "os_WriteFile (dir @ ''/certs/key.pem'') (Raw key) 0x180 s2 = (Ok (), s')"
    using assms by (auto simp: GenerateTLSCrypto_def split: option.splits sum.splits prod.splits elim!: seq_OkE)
  then have "same_env s s1" "same_env s1 s2" "same_env s2 s'"
    "\<exists>n. file_at s' (resolve (cwd s2) (dir @ ''/certs/key.pem'')) = Some n \<and> data n = Raw key \<and> kind n \<noteq> KDir"
    using mkdirs_env os_WriteFile_Ok by (auto simp: os_MkdirAll_def with_key_def split: if_splits)
  then show ?thesis using k by (auto simp: same_env_def)
qed

lemma get_env_vars_cong: "environ s' = environ s \<Longrightarrow> get_env_vars s' vs = get_env_vars s vs"
  by (induction vs) (simp_all add: getEnvVar_def getenv_def)

lemma server_main_Serving:
  assumes "server_main bt f draws1 draws2 s w = (Serving b h, s', w')"
  obtains username password cfg key cert vars where
    "GenerateRandomString draws1 16 = Ok username" "GenerateRandomString draws2 16 = Ok password"
    "GenerateTLSCrypto (bCrypto bt) (fileServerBaseURL f) (sharedVolumePath f) s = (Ok (cfg, key, cert), s')"
    "get_env_vars s' server_env_vars = Inr vars" "b = build_server f username password cert vars"
    "h = \<lparr>hRoot = sharedVolumePath f, hUsername = username, hPassword = password\<rparr>"
    "w' = cleanup_completed (bKube bt) (peerID f) w"
proof -
  obtain username password where r: "GenerateRandomString draws1 16 = Ok username" "GenerateRandomString draws2 16 = Ok password"
    and st: "start_servers bt f username password s = (Serving b h, s')" "w' = cleanup_completed (bKube bt) (peerID f) w"
    using assms by (auto simp: server_main_def split: outcome.splits option.splits prod.splits)
  from st(1) show thesis
    by (auto simp: start_servers_def split: outcome.splits option.splits prod.splits sum.splits intro!: that r st(2))
qed

text \<open>Property C33: the server's two halves fit together. When the server reaches the point where it serves, the
  file server hands out the directory in which the handlers look for the files of a request; there is
  one pair of credentials that the handlers put into the environment of the containers that transfer
  files, both of every build pod and the one of every run pod; and whenever such a container sends them
  the way \<^verbatim>\<open>curl -u\<close> does, the file server reads them back as its own user name and password
  and does not answer any request with 401.\<close>

theorem server_serves_its_pods:
  assumes "server_main bt f draws1 draws2 s w = (Serving b h, s', w')"
    and "length draws1 = 16" and "\<forall>d \<in> set draws1. \<exists>k < 62. d = Some k"
  shows "hRoot h = SharedPath b \<and>
    (\<exists>user pass.
      (\<forall>rnd c src out n u pod. buildPodDefinition b rnd c src out n u = Ok pod \<longrightarrow>
        (\<forall>container \<in> {psInitContainers (podSpec pod) ! 1, psContainers (podSpec pod) ! 0}.
          {\<lparr>evName = ''USERNAME'', evValue = user\<rparr>, \<lparr>evName = ''PASSWORD'', evValue = pass\<rparr>} \<subseteq> set (cEnv container))) \<and>
      (\<forall>c rmd path uuid n u w0 w1 pod. runPodDefinition (bKube bt) b c rmd path uuid n u w0 = (Ok pod, w1) \<longrightarrow>
        {\<lparr>evName = ''USERNAME'', evValue = user\<rparr>, \<lparr>evName = ''PASSWORD'', evValue = pass\<rparr>}
          \<subseteq> set (cEnv (psInitContainers (podSpec pod) ! 0))) \<and>
      (\<forall>req s2. qAuthorization req = basic_header user pass \<longrightarrow>
        request_BasicAuth req = Some (hUsername h, hPassword h) \<and> rStatus (fst (ServeHTTP h req s2)) \<noteq> 401))"
proof -
  from assms(1) obtain username password cfg key cert vars where
    r: "GenerateRandomString draws1 16 = Ok username"
    and b: "b = build_server f username password cert vars"
    and h: "h = \<lparr>hRoot = sharedVolumePath f, hUsername = username, hPassword = password\<rparr>"
    by (rule server_main_Serving)
  let ?a = "\<lparr>Username = username, Password = password\<rparr>"
  have auth: "Auth b = Some ?a" by (simp add: b build_server_def)
  have bpod: "set (auth_env ?a) \<subseteq> set (cEnv container)"
    if "buildPodDefinition b rnd c src out n u = Ok pod" "container \<in> {psInitContainers (podSpec pod) ! 1, psContainers (podSpec pod) ! 0}"
    for rnd c src out n u pod container
    using that by (cases rule: buildPodDefinition_cases [of b src out rnd c n u])
      (auto simp: auth build_pod_def download_source_container_def upload_output_container_def)
  have rpod: "set (auth_env ?a) \<subseteq> set (cEnv (psInitContainers (podSpec pod) ! 0))"
    if "runPodDefinition (bKube bt) b c rmd path uuid n u w0 = (Ok pod, w1)" for c rmd path uuid n u w0 w1 pod
    using that by (auto simp: runPodDefinition_def auth run_pod_def download_output_container_def split: outcome.splits prod.splits)
  have "username = map (\<lambda>d. charset ! the d) draws1"
    using GenerateRandomString_Ok [of 16 draws1] assms(2,3) r by auto
  moreover have "CHR '':'' \<notin> set charset" by code_simp
  moreover have "charset ! the d \<in> set charset" if "d \<in> set draws1" for d
    using assms(3) that charset_facts(1) by auto
  ultimately have "CHR '':'' \<notin> set username" by auto
  then have basic: "request_BasicAuth req = Some (hUsername h, hPassword h)"
    if "qAuthorization req = basic_header username password" for req
    using BasicAuth_header [OF that] by (simp add: h)
  then have served: "rStatus (fst (ServeHTTP h req s2)) \<noteq> 401"
    if "qAuthorization req = basic_header username password" for req s2
    using that by (intro authorized_not_401) (auto simp: authorized_def)
  have env: "{\<lparr>evName = ''USERNAME'', evValue = username\<rparr>, \<lparr>evName = ''PASSWORD'', evValue = password\<rparr>} = set (auth_env ?a)"
    by (auto simp: auth_env_def)
  show ?thesis
    unfolding Ball_def
    by (intro conjI exI [of _ username] exI [of _ password] allI impI)
      (use bpod rpod basic served in \<open>simp_all only: env\<close>, simp_all add: h b build_server_def)
qed

definition demo_boot :: "(Secret option, unit) boot" where
  "demo_boot = \<lparr>bKube = sample_kube,
     bCrypto = \<lparr>generateKey = Inr (), marshalECPrivateKey = (\<lambda>_. Inr ''key''), randInt = (\<lambda>_. Inr 7), parseIP = (\<lambda>_. None),
       publicPart = (\<lambda>_. ''pub''), createCertificate = (\<lambda>_ _ _ _. Inr ''cert''), x509KeyPair = (\<lambda>_ _. Inr ''pair'')\<rparr>,
     bRestConfig = (\<lambda>_. None), bNewClientSet = (\<lambda>_. None), bListen = (\<lambda>_. None)\<rparr>"

definition demo_flags :: flags where
  "demo_flags = default_flags\<lparr>sharedVolumePath := ''/shared'', fileServerBaseURL := ''https://files:22222/''\<rparr>"

definition demo_rmd :: runMetadata where
  "demo_rmd = \<lparr>ChaincodeID = ''cc:1'', ClientCert = [], ClientKey = [], RootCert = [], PeerAddress = []\<rparr>"

definition demo_get :: "string \<Rightarrow> string \<Rightarrow> request" where
  "demo_get user pass = (demo_request ''GET'' ''/a.tar'' [])\<lparr>qAuthorization := basic_header user pass\<rparr>"

definition demo_env :: os where
  "demo_env = demo_os\<lparr>environ := map_of (map (\<lambda>v. (v, ''x'')) server_env_vars)\<rparr>"

definition demo_draws :: "nat option list" where
  "demo_draws = replicate 16 (Some 5)"

definition is_serving :: "startup \<Rightarrow> bool" where
  "is_serving r = (case r of Serving _ _ \<Rightarrow> True | _ \<Rightarrow> False)"

lemma demo_tls: "\<exists>x s'. GenerateTLSCrypto (bCrypto demo_boot) ''https://files:22222/'' ''/shared'' demo_env = (Ok x, s')"
proof -
  have "url_Parse ''https://files:22222/'' \<noteq> None" by code_simp
  then obtain v where v: "url_Parse ''https://files:22222/'' = Some v" by blast
  have "is_ok (fst (seq (os_MkdirAll (''/shared'' @ ''/certs'') 0x1E8) (\<lambda>_.
      seq (os_WriteFile (''/shared'' @ ''/certs/cert.pem'') (Raw c) 0x180) (\<lambda>_.
      seq (os_WriteFile (''/shared'' @ ''/certs/key.pem'') (Raw k) 0x180) (\<lambda>_. ret x))) demo_env))"
    for c k and x :: "Config \<times> string \<times> string"
    by code_simp
  then have "\<exists>y s'. seq (os_MkdirAll (''/shared'' @ ''/certs'') 0x1E8) (\<lambda>_.
      seq (os_WriteFile (''/shared'' @ ''/certs/cert.pem'') (Raw c) 0x180) (\<lambda>_.
      seq (os_WriteFile (''/shared'' @ ''/certs/key.pem'') (Raw k) 0x180) (\<lambda>_. ret x))) demo_env = (Ok y, s')"
    for c k and x :: "Config \<times> string \<times> string"
    by (metis is_ok.elims(2) prod.collapse)
  then show ?thesis
    by (simp add: GenerateTLSCrypto_def v demo_boot_def PrivateKey_def SelfSignedCert_def Cert_def ConfigTLS_def Let_def)
qed

lemma demo_serving:
  obtains b h s' w' where "server_main demo_boot demo_flags demo_draws demo_draws demo_env sample_world = (Serving b h, s', w')"
proof -
  obtain cfg key cert s1 where t: "GenerateTLSCrypto (bCrypto demo_boot) ''https://files:22222/'' ''/shared'' demo_env =
      (Ok (cfg, key, cert), s1)" using demo_tls by (metis prod.exhaust)
  have "get_env_vars s1 server_env_vars = get_env_vars demo_env server_env_vars"
    using GenerateTLSCrypto_Ok [OF t] by (intro get_env_vars_cong) (simp add: same_env_def)
  moreover have "get_env_vars demo_env server_env_vars = Inr (replicate 6 ''x'')" by code_simp
  moreover have "GenerateRandomString demo_draws 16 = Ok (replicate 16 CHR ''f'')" by code_simp
  moreover have "bRestConfig demo_boot p = None" "bNewClientSet demo_boot t = None" "bListen demo_boot p = None"
    "sharedVolumePath demo_flags = ''/shared''" "fileServerBaseURL demo_flags = ''https://files:22222/''" for p t
    by (simp_all add: demo_boot_def demo_flags_def)
  ultimately show thesis
    by (intro that) (simp add: server_main_def start_servers_def t restClientConfig_def)
qed

theorem server_serves_its_pods_witness:
  "\<exists>b h s' w' bpod rpod user pass.
     server_main demo_boot demo_flags demo_draws demo_draws demo_env sample_world = (Serving b h, s', w') \<and>
     buildPodDefinition b (Some (replicate 16 0)) (golangBuildContainer ''cc'' ''bi'') ''b/x.tar'' ''b/x.tar'' ''peer'' ''uid'' = Ok bpod \<and>
     fst (runPodDefinition (bKube demo_boot) b (golangRunContainer (\<lambda>_. []) demo_rmd ''go'') demo_rmd ''b/x.tar'' ''1'' ''peer'' ''uid''
       sample_world) = Ok rpod \<and>
     \<lparr>evName = ''PASSWORD'', evValue = pass\<rparr> \<in> set (cEnv (psContainers (podSpec bpod) ! 0)) \<inter> set (cEnv (psInitContainers (podSpec rpod) ! 0)) \<and>
     rStatus (fst (ServeHTTP h (demo_get user pass) s')) \<noteq> 401"
proof -
  obtain b h s' w' where m: "server_main demo_boot demo_flags demo_draws demo_draws demo_env sample_world = (Serving b h, s', w')"
    by (rule demo_serving)
  then obtain user pass cert vars where b: "b = build_server demo_flags user pass cert vars" by (rule server_main_Serving)
  have "is_ok (urlJoin (fsBaseURL demo_flags) ''b/x.tar'')" by code_simp
  then obtain v where v: "urlJoin (FSBaseURL b) ''b/x.tar'' = Ok v"
    by (cases "urlJoin (fsBaseURL demo_flags) ''b/x.tar''") (auto simp: b build_server_def)
  then obtain bpod where p: "buildPodDefinition b (Some (replicate 16 0)) (golangBuildContainer ''cc'' ''bi'') ''b/x.tar'' ''b/x.tar''
      ''peer'' ''uid'' = Ok bpod" by (auto simp: buildPodDefinition_def UUID_def b build_server_def)
  obtain rpod w1 where q: "runPodDefinition (bKube demo_boot) b (golangRunContainer (\<lambda>_. []) demo_rmd ''go'') demo_rmd
      ''b/x.tar'' ''1'' ''peer'' ''uid'' sample_world = (Ok rpod, w1)"
    using v by (cases "hasZoneLabels (bKube demo_boot) sample_world") (auto simp: runPodDefinition_def b build_server_def)
  have draws: "length demo_draws = 16" "\<forall>d \<in> set demo_draws. \<exists>k < 62. d = Some k"
    by (auto simp: demo_draws_def)
  from server_serves_its_pods [OF m draws, THEN conjunct2] obtain us pw where
    env: "\<forall>rnd c src out n u pod. buildPodDefinition b rnd c src out n u = Ok pod \<longrightarrow>
        (\<forall>container \<in> {psInitContainers (podSpec pod) ! 1, psContainers (podSpec pod) ! 0}.
          {\<lparr>evName = ''USERNAME'', evValue = us\<rparr>, \<lparr>evName = ''PASSWORD'', evValue = pw\<rparr>} \<subseteq> set (cEnv container))"
      "\<forall>c rmd path uuid n u w0 w1 pod. runPodDefinition (bKube demo_boot) b c rmd path uuid n u w0 = (Ok pod, w1) \<longrightarrow>
        {\<lparr>evName = ''USERNAME'', evValue = us\<rparr>, \<lparr>evName = ''PASSWORD'', evValue = pw\<rparr>}
          \<subseteq> set (cEnv (psInitContainers (podSpec pod) ! 0))"
    and ok: "\<forall>req s2. qAuthorization req = basic_header us pw \<longrightarrow>
        request_BasicAuth req = Some (hUsername h, hPassword h) \<and> rStatus (fst (ServeHTTP h req s2)) \<noteq> 401"
    by (elim exE conjE) (rule that)
  have "\<lparr>evName = ''PASSWORD'', evValue = pw\<rparr> \<in> set (cEnv (psContainers (podSpec bpod) ! 0))"
    using env(1) [rule_format, OF p, of "psContainers (podSpec bpod) ! 0"] by simp
  moreover have "\<lparr>evName = ''PASSWORD'', evValue = pw\<rparr> \<in> set (cEnv (psInitContainers (podSpec rpod) ! 0))"
    using env(2) [rule_format, OF q] by simp
  moreover have "rStatus (fst (ServeHTTP h (demo_get us pw) s')) \<noteq> 401"
    using ok [rule_format, of "demo_get us pw" s'] by (simp add: demo_get_def)
  ultimately show ?thesis using m p q by (metis IntI fst_conv)
qed

section \<open>The private key\<close>

lemma resolve_append:
  assumes "a \<noteq> []"
  shows "resolve c (a @ ''/certs/key.pem'') = resolve c (path_Join [a, ''/certs/key.pem''])"
proof -
  have "resolve c (a @ ''/certs/key.pem'') = resolve c (path_Join [a, ''certs/key.pem''])"
    using assms by (simp add: path_Join_def)
  then show ?thesis using assms by (simp add: resolve_Join)
qed

text \<open>The file server hands out its own TLS key. The start-up writes the private key below the
  shared directory, which is the root of the file server; an authorized request for
  \<^verbatim>\<open>/certs/key.pem\<close>, such as any pod can make with the credentials in its environment, is
  answered with the key.\<close>

lemma tls_key_served:
  assumes "server_main bt f draws1 draws2 s w = (Serving b h, s', w')" and "no_faults s" and "sharedVolumePath f \<noteq> []"
    and "authorized h req" and "qMethod req = ''GET''" and "qPath req = ''/certs/key.pem''"
  shows "\<exists>k key. PrivateKey (bCrypto bt) = Inr (k, key) \<and> rStatus (fst (ServeHTTP h req s')) = 200 \<and>
    rBody (fst (ServeHTTP h req s')) = FileBody (Raw key)"
proof -
  obtain user pass cfg key cert where
    t: "GenerateTLSCrypto (bCrypto bt) (fileServerBaseURL f) (sharedVolumePath f) s = (Ok (cfg, key, cert), s')"
    and h: "h = \<lparr>hRoot = sharedVolumePath f, hUsername = user, hPassword = pass\<rparr>"
    using assms(1) by (rule server_main_Serving)
  have q: "path_Clean ''/certs/key.pem'' = ''/certs/key.pem''" "\<not> contains_str ''..'' ''/certs/key.pem''"
    "\<not> contains_str [CHR 0x00] ''/certs/key.pem''" "\<not> http_containsDotDot ''/certs/key.pem''"
    "\<not> has_suffix ''/certs/key.pem'' ''/index.html''" "''..'' \<notin> set (slash_split ''/certs/key.pem'')"
    by code_simp+
  let ?l = "location h req"
  have l: "?l = path_Join [sharedVolumePath f, ''/certs/key.pem'']" by (simp add: location_def h assms(6) q)
  have env: "cwd s' = cwd s" "fault s' = fault s" using GenerateTLSCrypto_Ok [OF t] by (simp_all add: same_env_def)
  then obtain k n where k: "PrivateKey (bCrypto bt) = Inr (k, key)"
    and n: "file_at s' (resolve (cwd s') ?l) = Some n" "data n = Raw key" "kind n \<noteq> KDir"
    using GenerateTLSCrypto_Ok [OF t] resolve_append [OF assms(3)] by (auto simp: l)
  obtain dir leaf where sp: "split_path ?l = (dir, leaf)" by fastforce
  have "resolve (cwd s') ?l \<noteq> resolve (cwd s') (sharedVolumePath f)"
    using assms(3) by (simp add: l resolve_Join)
  then have "leaf \<noteq> ''..''" using location_leaf [OF assms(3) q(6) sp [unfolded l]] by (simp add: l)
  from ServeFile_regular [OF sp _ this _ _ n(1,3)] q assms(2,3,6) env
  have "rStatus (http_ServeFile ct req ?l s') = 200" "rBody (http_ServeFile ct req ?l s') = FileBody (Raw key)" for ct
    by (auto simp: n(2) l no_faults_def)
  then show ?thesis using assms(4-6) k q
    by (auto simp: ServeHTTP_def authorized_def location_def Let_def)
qed

section \<open>The certificate in the pods\<close>

text \<open>What \<^verbatim>\<open>echo -e\<close> makes of the certificate string: a backslash followed by an \<^verbatim>\<open>n\<close> becomes a newline.\<close>

fun expand_newlines :: "string \<Rightarrow> string" where
  "expand_newlines (x # y # r) =
     (if x = CHR 0x5C \<and> y = CHR ''n'' then CHR 0x0A # expand_newlines r else x # expand_newlines (y # r))"
| "expand_newlines r = r"

lemma expand_prefix: "CHR 0x5C \<notin> set w \<Longrightarrow> expand_newlines (w @ r) = w @ expand_newlines r"
proof (induction w)
  case (Cons x w)
  then show ?case by (cases "w @ r") auto
qed simp

lemma expand_join:
  "(\<And>w. w \<in> set ws \<Longrightarrow> CHR 0x5C \<notin> set w) \<Longrightarrow>
   expand_newlines (join_with [CHR 0x5C, CHR ''n''] ws) = join_with [CHR 0x0A] ws"
proof (induction "[CHR 0x5C, CHR ''n'']" ws rule: join_with.induct)
  case (2 w)
  then show ?case using expand_prefix [of w "[]"] by simp
next
  case (3 w v ws)
  then show ?case using expand_prefix [of w] by simp
qed simp

lemma expand_cert_string:
  assumes "CHR 0x5C \<notin> set pem"
  shows "expand_newlines (tls_cert_string pem) = pem"
proof -
  have "CHR 0x5C \<notin> set w" if "w \<in> set (split_on (CHR 0x0A) pem)" for w
    using assms split_on_concat_set [OF that] by auto
  then show ?thesis unfolding tls_cert_string_def by (simp add: expand_join join_split)
qed

interpretation cert_line: codec tls_cert_string "Some \<circ> expand_newlines" "\<lambda>pem. CHR 0x5C \<notin> set pem"
  by unfold_locales (simp add: expand_cert_string)

lemma cert_string_no_newline: "CHR 0x0A \<notin> set (tls_cert_string pem)"
  using set_join_with [of "[CHR 0x5C, CHR ''n'']" "split_on (CHR 0x0A) pem"] split_on_no_sep [of _ "CHR 0x0A" pem]
  by (auto simp: tls_cert_string_def)

lemma pem_no_backslash: "CHR 0x5C \<notin> set ty \<Longrightarrow> CHR 0x5C \<notin> set (pem_EncodeToMemory ty bytes)"
proof -
  assume ty: "CHR 0x5C \<notin> set ty"
  have "set (EncodeToString bytes) \<subseteq> set b64_alphabet \<union> {CHR ''=''}"
    unfolding EncodeToString_def by (rule b64_chars) auto
  moreover have "CHR 0x5C \<notin> set b64_alphabet" by code_simp
  moreover have "set (pem_lines n b) \<subseteq> set b \<union> {CHR 0x0A}" for n b
    by (induction n b rule: pem_lines.induct) (auto dest: in_set_takeD in_set_dropD)
  ultimately show ?thesis using ty by (auto simp: pem_EncodeToMemory_def)
qed

lemma os_WriteFile_frame:
  assumes "os_WriteFile path c mode s = (Ok u, s')" and "k \<noteq> resolve (cwd s) path" and "k \<noteq> butlast (resolve (cwd s) path)"
  shows "file_at s' k = file_at s k"
  using assms
  by (auto simp: os_WriteFile_def seq_def os_OpenFile_def with_key_def write_handle_def close_handle_def
      file_at_put_new split: option.splits if_splits prod.splits outcome.splits)

lemma cert_file:
  assumes "GenerateTLSCrypto cr url dir s = (Ok (cfg, key, cert), s')" and "dir \<noteq> []"
  shows "(\<exists>bytes. cert = pem_EncodeToMemory ''CERTIFICATE'' bytes) \<and>
    (\<exists>n. file_at s' (resolve (cwd s) (path_Join [dir, ''certs/cert.pem''])) = Some n \<and> data n = Raw cert)"
proof -
  obtain k s1 s2 u where c: "SelfSignedCert cr (now s) \<lparr>pHosts = [u], pNotAfter = now s + one_year\<rparr> k = Inr cert" and
    w: "os_MkdirAll (dir @ ''/certs'') 0x1E8 s = (Ok (), s1)"
    "os_WriteFile (dir @ ''/certs/cert.pem'') (Raw cert) 0x180 s1 = (Ok (), s2)"
    "os_WriteFile (dir @ ''/certs/key.pem'') (Raw key) 0x180 s2 = (Ok (), s')"
    using assms(1) by (auto simp: GenerateTLSCrypto_def split: option.splits sum.splits prod.splits elim!: seq_OkE)
  have "same_env s s1" "same_env s1 s2" and
    "\<exists>n. file_at s2 (resolve (cwd s1) (dir @ ''/certs/cert.pem'')) = Some n \<and> data n = Raw cert"
    using w mkdirs_env os_WriteFile_Ok [OF w(2)] by (auto simp: os_MkdirAll_def with_key_def split: if_splits)
  then have env: "cwd s1 = cwd s" "cwd s2 = cwd s"
    and n: "\<exists>n. file_at s2 (resolve (cwd s) (dir @ ''/certs/cert.pem'')) = Some n \<and> data n = Raw cert"
    by (auto simp: same_env_def)
  have "resolve c (dir @ ''/certs/'' @ f) = resolve c (path_Join [dir, ''certs/'' @ f])" for c f
    using assms(2) by (simp add: path_Join_def)
  then have k: "resolve (cwd s) (dir @ ''/certs/cert.pem'') = resolve (cwd s) dir @ [''certs'', ''cert.pem'']"
    "resolve (cwd s) (dir @ ''/certs/key.pem'') = resolve (cwd s) dir @ [''certs'', ''key.pem'']"
    "resolve (cwd s) (path_Join [dir, ''certs/cert.pem'']) = resolve (cwd s) dir @ [''certs'', ''cert.pem'']"
    using assms(2) by (simp_all add: resolve_Join)
  have "file_at s' (resolve (cwd s) dir @ [''certs'', ''cert.pem'']) = file_at s2 (resolve (cwd s) dir @ [''certs'', ''cert.pem''])"
    by (rule os_WriteFile_frame [OF w(3)]) (simp_all add: env k butlast_append)
  moreover have "\<exists>bytes. cert = pem_EncodeToMemory ''CERTIFICATE'' bytes"
    using c by (auto simp: SelfSignedCert_def Cert_def Let_def split: sum.splits)
  ultimately show ?thesis using n by (simp add: k)
qed

text \<open>The pods trust the certificate the file server uses. The certificate travels to the pods as
  one line, in an environment variable; expanding the escapes in it, as the first container of each
  pod does, gives exactly the contents of the certificate file the file server was started with.\<close>

lemma pods_get_the_certificate:
  assumes "server_main bt f draws1 draws2 s w = (Serving b h, s', w')" and "SharedPath b \<noteq> []"
  shows "CHR 0x0A \<notin> set (TLSCertString b) \<and>
    (\<exists>n. file_at s' (resolve (cwd s) (path_Join [SharedPath b, ''certs/cert.pem''])) = Some n \<and>
       data n = Raw (expand_newlines (TLSCertString b)))"
proof -
  obtain user pass cfg key cert vars where
    t: "GenerateTLSCrypto (bCrypto bt) (fileServerBaseURL f) (sharedVolumePath f) s = (Ok (cfg, key, cert), s')"
    and b: "b = build_server f user pass cert vars" using assms(1) by (rule server_main_Serving)
  have "sharedVolumePath f \<noteq> []" using assms(2) by (simp add: b build_server_def)
  with cert_file [OF t] obtain bytes n where "cert = pem_EncodeToMemory ''CERTIFICATE'' bytes"
    "file_at s' (resolve (cwd s) (path_Join [sharedVolumePath f, ''certs/cert.pem''])) = Some n" "data n = Raw cert" by blast
  moreover from this have "expand_newlines (tls_cert_string cert) = cert"
    using cert_line.dec_enc [of cert] by (simp add: pem_no_backslash)
  ultimately show ?thesis using cert_string_no_newline by (simp add: b build_server_def)
qed

section \<open>Exit codes\<close>

lemma get_env_vars_Inl: "get_env_vars s vs = Inl (rc, m) \<Longrightarrow>
  \<exists>us v ws. vs = us @ v # ws \<and> (\<forall>u \<in> set us. getenv s u \<noteq> []) \<and> getenv s v = [] \<and> rc = 1 \<and> m = ''no '' @ v @ '' specified''"
proof (induction vs)
  case (Cons v vs)
  show ?case
  proof (cases "getenv s v = []")
    case True
    then show ?thesis using Cons.prems by (intro exI [of _ "[]"] exI [of _ v] exI [of _ vs]) (auto simp: getEnvVar_def)
  next
    case False
    then obtain us x ws where "vs = us @ x # ws" "\<forall>u \<in> set us. getenv s u \<noteq> []" "getenv s x = []" "rc = 1"
      "m = ''no '' @ x @ '' specified''" using Cons by (auto simp: getEnvVar_def split: sum.splits)
    then show ?thesis using False by (intro exI [of _ "v # us"] exI [of _ x] exI [of _ ws]) simp
  qed
qed simp

text \<open>The first of the configuration variables that is not set.\<close>

definition first_unset :: "os \<Rightarrow> string \<Rightarrow> bool" where
  "first_unset s v \<longleftrightarrow> (\<exists>us ws. server_env_vars = us @ v # ws \<and> (\<forall>u \<in> set us. getenv s u \<noteq> []) \<and> getenv s v = [])"

lemma start_servers_Exited:
  assumes "start_servers bt f user pass s = (Exited rc m, s')"
  obtains (tls) e where "rc = 21" "GenerateTLSCrypto (bCrypto bt) (fileServerBaseURL f) (sharedVolumePath f) s = (Err e, s')"
  | (variable) v where "rc = 1" "first_unset s v" "m = ''no '' @ v @ '' specified''"
  | (sidecar) "rc = 12" "bListen bt (sidecarListenAddress f) \<noteq> None"
  | (files) "rc = 13" "bListen bt (sidecarListenAddress f) = None" "bListen bt (fileServerListenAddress f) \<noteq> None"
proof (cases "GenerateTLSCrypto (bCrypto bt) (fileServerBaseURL f) (sharedVolumePath f) s")
  case (Pair r s1)
  show ?thesis
  proof (cases r)
    case (Ok x)
    obtain cfg key cert where x: "x = (cfg, key, cert)" by (cases x)
    have env: "get_env_vars s1 server_env_vars = get_env_vars s server_env_vars"
      using GenerateTLSCrypto_Ok [OF Pair [unfolded Ok x]] by (intro get_env_vars_cong) (simp add: same_env_def)
    show ?thesis
    proof (cases "get_env_vars s server_env_vars")
      case (Inl y)
      then have "y = (rc, m)" using assms Pair Ok x env by (auto simp: start_servers_def split: prod.splits)
      then show ?thesis using get_env_vars_Inl [of s server_env_vars rc m] Inl variable
        unfolding first_unset_def by metis
    next
      case (Inr vars)
      then show ?thesis using assms Pair Ok x env sidecar files
        by (auto simp: start_servers_def split: option.splits)
    qed
  qed (use assms Pair tls in \<open>auto simp: start_servers_def\<close>)
qed

text \<open>Property C34: why the server gives up starting. Each exit code stands for one cause: 10 and 11 for a cluster
  that cannot be reached, with the file system and the cluster untouched; 21 for a failure to make or
  store the TLS material; 1 for the first configuration variable that is missing, which it names; 12
  and 13 for an address that cannot be listened on. With the last four codes the completed pods of
  the peer have been cleaned up.\<close>

theorem server_exit_codes:
  assumes "server_main bt f draws1 draws2 s w = (Exited rc m, s', w')"
  shows "rc \<in> {10, 11} \<and> s' = s \<and> w' = w \<and> (if rc = 10 then bRestConfig bt (k8sConfigPath f s) \<noteq> None else bNewClientSet bt (clientTimeout f) \<noteq> None) \<or>
    w' = cleanup_completed (bKube bt) (peerID f) w \<and>
    (rc = 21 \<and> (\<exists>e. GenerateTLSCrypto (bCrypto bt) (fileServerBaseURL f) (sharedVolumePath f) s = (Err e, s')) \<or>
     rc = 1 \<and> (\<exists>v. first_unset s v \<and> m = ''no '' @ v @ '' specified'') \<or>
     rc = 12 \<and> bListen bt (sidecarListenAddress f) \<noteq> None \<or>
     rc = 13 \<and> bListen bt (sidecarListenAddress f) = None \<and> bListen bt (fileServerListenAddress f) \<noteq> None)"
proof -
  consider (early) "rc \<in> {10, 11}" "s' = s" "w' = w"
      "if rc = 10 then bRestConfig bt (k8sConfigPath f s) \<noteq> None else bNewClientSet bt (clientTimeout f) \<noteq> None"
    | (start) user pass where "start_servers bt f user pass s = (Exited rc m, s')" "w' = cleanup_completed (bKube bt) (peerID f) w"
    using assms by (auto simp: server_main_def restClientConfig_def split: outcome.splits option.splits prod.splits)
  then show ?thesis
  proof cases
    case start
    from start(1) show ?thesis by (cases rule: start_servers_Exited) (use start(2) in blast)+
  qed blast
qed

theorem server_exit_codes_witness:
  "\<exists>m s' w'. server_main (demo_boot\<lparr>bNewClientSet := (\<lambda>_. Some (ErrMsg ''down''))\<rparr>) demo_flags demo_draws demo_draws demo_env sample_world =
     (Exited 11 m, s', w') \<and> s' = demo_env \<and> w' = sample_world"
proof -
  have "GenerateRandomString demo_draws 16 = Ok (replicate 16 CHR ''f'')" by code_simp
  then obtain m s' w' where e: "server_main (demo_boot\<lparr>bNewClientSet := (\<lambda>_. Some (ErrMsg ''down''))\<rparr>) demo_flags demo_draws demo_draws
      demo_env sample_world = (Exited 11 m, s', w')" by (simp add: server_main_def restClientConfig_def demo_boot_def)
  from server_exit_codes [OF e] show ?thesis using e by auto
qed

section \<open>From the pod to the peer\<close>

lemma recv_loop_texts: "recv_loop (map (\<lambda>m. Some (StandardError m)) ms) EOFError = (None, concat ms)"
  by (induction ms) auto

context logger
begin

lemma recv_loop_calls:
  assumes "send_run mk inner ts (send_start i msgs) = Some st" and "all_left st = 0"
  shows "\<exists>ord. (\<forall>t < length msgs. calls_of t ord = msgs ! t) \<and>
    recv_loop (map (message \<circ> snd) (ssCalls st)) EOFError = (None, concat (map snd ord))"
proof -
  obtain ord where ord: "\<And>t. t < length msgs \<Longrightarrow> calls_of t ord = msgs ! t"
    and m: "map (message \<circ> snd) (ssCalls st) = map (\<lambda>c. Some (StandardError (snd c))) ord" using send_order [OF assms] by blast
  have "recv_loop (map (message \<circ> snd) (ssCalls st)) EOFError = (None, concat (map snd ord))"
    unfolding m using recv_loop_texts [of "map snd ord"] by (simp add: comp_def)
  then show ?thesis using ord by blast
qed

end

text \<open>Property C32: what the goroutines of a build or run log arrives at the peer. When they have all finished and
  the stream ends regularly, the command's standard error is the concatenation of all their messages,
  each goroutine's in its own order, and nothing else; the command sees no error.\<close>

theorem logs_reach_stderr:
  assumes "send_run build_Log inner ts (send_start i msgs) = Some st" and "all_left st = 0"
    and "send_run run_Log inner' ts' (send_start i' msgs') = Some st'" and "all_left st' = 0"
  shows "(\<exists>ord. (\<forall>t < length msgs. calls_of t ord = msgs ! t) \<and>
      recv_loop (map (bpMessage \<circ> snd) (ssCalls st)) EOFError = (None, concat (map snd ord))) \<and>
    (\<exists>ord. (\<forall>t < length msgs'. calls_of t ord = msgs' ! t) \<and>
      recv_loop (map (rpMessage \<circ> snd) (ssCalls st')) EOFError = (None, concat (map snd ord)))"
  using build_stream.recv_loop_calls [OF assms(1,2)] run_stream.recv_loop_calls [OF assms(3,4)] by blast

theorem logs_reach_stderr_witness:
  "\<exists>st. send_run build_Log (\<lambda>p n. (None, Suc n)) [0, 0, 0, 0] (send_start (0 :: nat) [[''hi'']]) = Some st \<and>
     recv_loop (map (bpMessage \<circ> snd) (ssCalls st)) EOFError = (None, ''hi'')"
proof -
  obtain st where st: "send_run build_Log (\<lambda>p n. (None, Suc n)) [0, 0, 0, 0] (send_start (0 :: nat) [[''hi'']]) = Some st"
    "all_left st = 0" "ssCalls st = [(0, build_Log ''hi'')]" by (simp add: stream_defs all_left_def)
  obtain st' where st': "send_run run_Log (\<lambda>p n. (None, Suc n)) [] (send_start (0 :: nat) []) = Some st'" "all_left st' = 0"
    by (simp add: stream_defs all_left_def)
  obtain ord where "calls_of 0 ord = [''hi'']"
    "recv_loop (map (bpMessage \<circ> snd) (ssCalls st)) EOFError = (None, concat (map snd ord))"
    using logs_reach_stderr [OF st(1,2) st'] by auto
  then show ?thesis using st by (auto simp: build_Log_def)
qed

section \<open>What a successful build command has done\<close>

text \<open>The build command succeeds only when the whole build did. If it returns without an error
  for chaincode that is not external, its code is 0, the sidecar's stream for the request ended
  regularly with no empty message, everything the stream said was written to standard error, and the
  result was copied from the temporary directory to the output directory before that was removed. An
  error at the end of the stream is the command's error, and the output directory is not written.\<close>

lemma Build_Run_success:
  assumes "IsExternalCC metadataDir s = (Ok False, s0)"
    and "ioutil_TempDir rnds sharedDir ''build'' s0 = (Ok tempDir, s1)"
    and "path_Rel sharedDir tempDir = Ok buildRoot"
    and "send_archives d tempDir sourceDir metadataDir s1 = (Ok (), s2)"
    and "client_Build conn (build_request buildRoot) s2 = (Inr (ms, e), s3)"
    and "Build_Run d fl rnds conn sharedDir (sourceDir # metadataDir # outputDir # rest) s = (r, out, s')"
  shows "(e \<noteq> EOFError \<longrightarrow> (\<exists>e'. r = Err e') \<and> s' = snd (os_RemoveAll tempDir s3)) \<and>
    (\<forall>rc. r = Ok rc \<longrightarrow> rc = 0 \<and> e = EOFError \<and> None \<notin> set (map bpMessage ms) \<and>
       out = concat (map (\<lambda>m. GetStandardOut (Some m) @ GetStandardError (Some m)) ms) \<and>
       (\<exists>s4. CopyDir d tempDir outputDir s3 = (Ok (), s4) \<and> s' = snd (os_RemoveAll tempDir s4)))"
proof -
  have loop: "(fst (recv_loop (map bpMessage ms) e) = None \<longleftrightarrow> e = EOFError \<and> None \<notin> set (map bpMessage ms)) \<and>
      (fst (recv_loop (map bpMessage ms) e) = None \<longrightarrow>
       snd (recv_loop (map bpMessage ms) e) = concat (map (\<lambda>m. GetStandardOut (Some m) @ GetStandardError (Some m)) ms))"
    by (induction ms) (auto simp: GetStandardOut_def GetStandardError_def GetMessage_def split: option.splits prod.splits response_message.splits)
  show ?thesis
    using assms loop
    by (cases "recv_loop (map bpMessage ms) e"; cases "CopyDir d tempDir outputDir s3")
       (auto simp: Build_Run_def in_temp_dir_def build_in_def wrap_err_def split: option.splits outcome.splits prod.splits)
qed

lemma IsExternalCC_state: "IsExternalCC dir s = (r, s') \<Longrightarrow> s' = s"
  using ioutil_ReadFile_state by (auto simp: IsExternalCC_def split: prod.splits outcome.splits)

end
