(* ===== verification/EndToEnd.thy ===== *)
theory EndToEnd
  imports FileStore ServerProps MainProps
begin

text \<open>
  The client, the gRPC server and the file server put together. The connection of the build command
  is no longer a parameter: its answers are those of the handler of \<^verbatim>\<open>server.go\<close>, acting on the
  same file system with the environment of its own process, and while the handler runs, the pods send
  any sequence of requests to the file server. What is left open is what gRPC itself does: whether a
  stream can be opened, and the error that ends it for the client.
\<close>

section \<open>The connection\<close>

text \<open>
  \<open>tEnd\<close> is the error the client's \<^verbatim>\<open>Recv\<close> returns after the last message for the result of the
  handler, \<^const>\<open>None\<close> standing for a handler that has not returned when the client gives up. The
  documented behaviour is that only a handler that returned nil gives \<^verbatim>\<open>io.EOF\<close>.
\<close>

record transport =
  tOpen :: "string \<Rightarrow> nilerr"
  tSend :: nilerr
  tClose :: nilerr
  tEnd :: "unit outcome option \<Rightarrow> gerror"

definition eof_means_ok :: "transport \<Rightarrow> bool" where
  "eof_means_ok tr \<longleftrightarrow> (\<forall>r. tEnd tr r = EOFError \<longrightarrow> r = Some (Ok ()))"

definition server_view :: "(string \<Rightarrow> string option) \<Rightarrow> os \<Rightarrow> os" where
  "server_view senv s = s\<lparr>environ := senv\<rparr>"

definition served :: "transport \<Rightarrow> ('q \<Rightarrow> os \<Rightarrow> 'k world \<Rightarrow> (unit outcome \<times> os \<times> 'k world) option) \<Rightarrow> (string \<Rightarrow> 'p) \<Rightarrow>
    (string \<Rightarrow> string option) \<Rightarrow> Handler \<Rightarrow> request list \<Rightarrow> 'k world \<Rightarrow> ('q, 'p, os) grpc_conn" where
  "served tr handle log senv h reqs w =
     \<lparr>newStream = tOpen tr, sendMsg = (\<lambda>_. tSend tr), closeSend = tClose tr,
      answers = (\<lambda>req s.
        (case handle req (server_view senv s) w of
           None \<Rightarrow> (([], tEnd tr None), s)
         | Some (r, _, w') \<Rightarrow>
             ((map log (drop (length (sent w)) (sent w')), tEnd tr (Some r)),
              snd (run_all (ServeHTTP h) reqs s))))\<rparr>"

definition build_conn :: "transport \<Rightarrow> 'k kube \<Rightarrow> Server \<Rightarrow> 8 word list option \<Rightarrow> step list \<Rightarrow> (string \<Rightarrow> string option) \<Rightarrow>
    Handler \<Rightarrow> request list \<Rightarrow> 'k world \<Rightarrow> (BuildRequest, BuildResponse, os) grpc_conn" where
  "build_conn tr kc b rnd sched = served tr (Build kc b rnd sched) build_Log"

text \<open>A stream that ends with \<^verbatim>\<open>io.EOF\<close> comes from a handler that returned nil.\<close>

lemma served_Ok:
  assumes "eof_means_ok tr" and "open_stream m (served tr handle log senv h reqs w) req s = (Inr (ms, EOFError), s')"
  shows "\<exists>v w'. handle req (server_view senv s) w = Some (Ok (), v, w') \<and>
    ms = map log (drop (length (sent w)) (sent w')) \<and> s' = snd (run_all (ServeHTTP h) reqs s)"
  using assms by (auto simp: open_stream_def served_def eof_means_ok_def split: option.splits)

lemmas build_conn_Ok = served_Ok [where handle = "Build kc b rnd sched" and log = build_Log for kc b rnd sched,
    folded build_conn_def, where m = "''/sidecar.Builder/Build''", folded client_Build_def]

lemma recv_loop_eof: "recv_loop ms e = (None, out) \<Longrightarrow> e = EOFError"
  by (induction ms arbitrary: out) (auto split: if_splits option.splits prod.splits)

text \<open>What a build command that returned without an error has gone through.\<close>

lemma Build_Run_Ok:
  assumes "Build_Run d fl rnds conn dir (src # md # out # rest) s = (Ok rc, text, s')" and "fst (IsExternalCC md s) \<noteq> Ok True"
  obtains tempDir root s1 s2 s3 s4 ms where "IsExternalCC md s = (Ok False, s)"
    "ioutil_TempDir rnds dir ''build'' s = (Ok tempDir, s1)" "path_Rel dir tempDir = Ok root"
    "send_archives d tempDir src md s1 = (Ok (), s2)" "client_Build conn (build_request root) s2 = (Inr (ms, EOFError), s3)"
    "recv_loop (map bpMessage ms) EOFError = (None, text)" "rc = 0"
    "CopyDir d tempDir out s3 = (Ok (), s4)" "s' = snd (os_RemoveAll tempDir s4)"
proof -
  have ext: "IsExternalCC md s = (Ok False, s)"
    using assms IsExternalCC_state [of md s] by (cases "IsExternalCC md s") (auto simp: Build_Run_def split: outcome.splits)
  have "in_temp_dir rnds dir ''build'' (\<lambda>tempDir. build_in d conn dir tempDir src md out) s = (Ok rc, text, s')"
    using assms(1) ext by (simp add: Build_Run_def)
  then obtain tempDir s1 s4 where t: "ioutil_TempDir rnds dir ''build'' s = (Ok tempDir, s1)"
    and b: "build_in d conn dir tempDir src md out s1 = (Ok rc, text, s4)" and s': "s' = snd (os_RemoveAll tempDir s4)"
    by (auto simp: in_temp_dir_def split: prod.splits outcome.splits)
  show thesis
    using b by (auto simp: build_in_def wrap_err_def split: outcome.splits prod.splits sum.splits option.splits
        dest: recv_loop_eof intro!: that [OF ext t _ _ _ _ _ _ s'])
qed

text \<open>What a successful pod execution of a build did, with the messages it sent.\<close>

lemma executePod_build_logs:
  assumes "executePod kc pod BUILD opts sched w = Some (Inr (), w')"
  obtains created logs rs a ms where
    "calls w' = calls w @ [CPodWatch (watch_selector pod) (Inr ()), CPodCreate pod (Inr created)] @ logs @
       map2 CLogClose (rev (map fst (opened logs))) rs @ [CPodDelete (pod_name created) a, CWatchStop]"
    "list_all is_log_call logs" "sent w' = sent w @ ms" "\<forall>(c, lines) \<in> set (opened logs). subseq lines ms"
    "\<exists>l \<in> set sched. end_phase l = Some PodSucceeded"
    "\<And>e. a = Inl e \<Longrightarrow> ''pod delete: '' @ error_text e @ [CHR 0x0A] \<in> set ms"
proof -
  obtain created w1 x where x: "exec_setup kc pod BUILD opts w = (Inr created, w1)" "w' = xworld x"
      "returned_inv kc BUILD (pod_name created) w1 (Inr ()) x"
    using assms by (cases rule: executePod_cases) auto
  have start: "calls w1 = calls w @ [CPodWatch (watch_selector pod) (Inr ()), CPodCreate pod (Inr created)]" "sent w1 = sent w"
    using exec_setup_ok [OF x(1)] by auto
  from x(3) show thesis
  proof (rule returned_trace)
    fix logs rs ds ms
    assume tr: "calls (xworld x) = calls w1 @ logs @ map2 CLogClose (rev (map fst (opened logs))) rs @ ds @ [CWatchStop]"
      "list_all is_log_call logs" "if BUILD = BUILD then \<exists>a. ds = [CPodDelete (pod_name created) a] else ds = []"
      "sent (xworld x) = sent w1 @ ms" "set (failure_reports ds) \<subseteq> set ms"
      "pod_ended (Inr ()) \<Longrightarrow> \<forall>(c, lines) \<in> set (opened logs). subseq lines ms"
    obtain a where "ds = [CPodDelete (pod_name created) a]" using tr(3) by auto
    then show thesis
      using tr(1,2,4-6) start x(2) executePod_build_success(2) [OF assms]
      by (intro that [of created logs rs a ms]) (simp_all add: pod_ended_def)
  qed
qed

section \<open>A concrete build\<close>

definition e2e_os :: os where
  "e2e_os = (sample_os [])\<lparr>files := [([], sample_dir), ([''shared''], sample_dir), ([''src''], sample_dir), ([''md''], sample_dir),
     ([''out''], sample_dir), ([''src'', ''main.go''], sample_file (Raw ''package main'')),
     ([''md'', ''metadata.json''], sample_file (Raw (json_object [(''path'', ''cc''), (''type'', ''golang'')])))]\<rparr>"

definition e2e_transport :: transport where
  "e2e_transport = \<lparr>tOpen = (\<lambda>_. None), tSend = None, tClose = None,
     tEnd = (\<lambda>r. case r of Some (Ok _) \<Rightarrow> EOFError | _ \<Rightarrow> ErrMsg ''rpc error'')\<rparr>"

lemma e2e_transport_ok: "eof_means_ok e2e_transport"
  by (auto simp: eof_means_ok_def e2e_transport_def split: option.splits outcome.splits)

definition e2e_put :: request where
  "e2e_put = demo_request ''PUT'' ''/build1/chaincode-output.tar'' ''u:p''"

definition e2e_conn :: "(BuildRequest, BuildResponse, os) grpc_conn" where
  "e2e_conn = build_conn e2e_transport sample_kube sample_server sample_rnd sample_sched (environ (sample_os []))
     demo_handler [e2e_put] sample_world"

definition e2e_s1 :: os where "e2e_s1 = snd (ioutil_TempDir [''1''] ''/shared'' ''build'' e2e_os)"
definition e2e_s2 :: os where "e2e_s2 = snd (send_archives 3 ''/shared/build1'' ''/src'' ''/md'' e2e_s1)"
definition e2e_s3 :: os where "e2e_s3 = snd (run_all (ServeHTTP demo_handler) [e2e_put] e2e_s2)"

lemma e2e_steps:
  "fst (IsExternalCC ''/md'' e2e_os) = Ok False"
  "fst (ioutil_TempDir [''1''] ''/shared'' ''build'' e2e_os) = Ok ''/shared/build1''"
  "path_Rel ''/shared'' ''/shared/build1'' = Ok ''build1''"
  "fst (send_archives 3 ''/shared/build1'' ''/src'' ''/md'' e2e_s1) = Ok ()"
  "fst (extractChaincodeMetadata sample_server (brMetadataPath (build_request ''build1''))
     (server_view (environ (sample_os [])) e2e_s2)) = Ok \<lparr>mdPath = ''cc'', mdType = ''golang''\<rparr>"
  "fst (CopyDir 3 ''/shared/build1'' ''/out'' e2e_s3) = Ok ()"
  by code_simp+

lemma e2e_Build:
  "\<exists>v w'. Build sample_kube sample_server sample_rnd sample_sched (build_request ''build1'')
     (server_view (environ (sample_os [])) e2e_s2) sample_world = Some (Ok (), v, w')"
proof -
  let ?v = "server_view (environ (sample_os [])) e2e_s2" and ?q = "build_request ''build1''"
  have md: "extractChaincodeMetadata sample_server (brMetadataPath ?q) ?v = (Ok \<lparr>mdPath = ''cc'', mdType = ''golang''\<rparr>, ?v)"
    using e2e_steps(5) extractChaincodeMetadata_state [of sample_server "brMetadataPath ?q" ?v] by (simp add: prod_eq_iff)
  have "to_lower ''golang'' = ''golang''" by code_simp
  then have c: "buildContainerDefinition sample_server \<lparr>mdPath = ''cc'', mdType = ''golang''\<rparr> = Ok (golangBuildContainer ''cc'' ''bi'')"
    by (simp add: buildContainerDefinition_def Let_def) (simp add: sample_server_def)
  have env: "getenv ?v ''PEER_POD_NAME'' = ''peer-0''" "getenv ?v ''PEER_POD_UID'' = ''u1''"
    by (simp_all add: getenv_def server_view_def sample_os_def)
  have "urlJoin (FSBaseURL sample_server) (brSourcePath ?q) = Ok ''https://peer:22222/build1/chaincode-source.tar''"
    "urlJoin (FSBaseURL sample_server) (brOutputPath ?q) = Ok ''https://peer:22222/build1/chaincode-output.tar''"
    by code_simp+
  then obtain pod where pod: "buildPodDefinition sample_server sample_rnd (golangBuildContainer ''cc'' ''bi'') (brSourcePath ?q)
      (brOutputPath ?q) ''peer-0'' ''u1'' = Ok pod"
    by (simp add: buildPodDefinition_def sample_UUID) (simp add: sample_server_def)
  obtain w' where "executePod sample_kube pod BUILD None sample_sched sample_world = Some (Inr (), w')"
    using sample_build_exec [of pod] by auto
  then show ?thesis using md c env pod by (simp add: Build_def)
qed

lemma e2e_start:
  "ioutil_TempDir [''1''] ''/shared'' ''build'' e2e_os = (Ok ''/shared/build1'', e2e_s1)"
  "send_archives 3 ''/shared/build1'' ''/src'' ''/md'' e2e_s1 = (Ok (), e2e_s2)"
  using e2e_steps by (simp_all add: prod_eq_iff e2e_s1_def e2e_s2_def)

lemma e2e_succeeds:
  "\<exists>text s'. Build_Run 3 (\<lambda>_. None) [''1''] e2e_conn ''/shared'' [''/src'', ''/md'', ''/out''] e2e_os = (Ok 0, text, s')"
proof -
  obtain v w' where b: "Build sample_kube sample_server sample_rnd sample_sched (build_request ''build1'')
      (server_view (environ (sample_os [])) e2e_s2) sample_world = Some (Ok (), v, w')" using e2e_Build by blast
  let ?ms = "drop (length (sent sample_world)) (sent w')"
  have c: "client_Build e2e_conn (build_request ''build1'') e2e_s2 = (Inr (map build_Log ?ms, EOFError), e2e_s3)"
    using b by (simp add: client_Build_def open_stream_def e2e_conn_def build_conn_def served_def e2e_s3_def e2e_transport_def)
  have l: "recv_loop (map bpMessage (map build_Log ?ms)) EOFError = (None, concat ?ms)"
    using recv_loop_texts [of ?ms] by (simp add: comp_def build_Log_def)
  have ext: "IsExternalCC ''/md'' e2e_os = (Ok False, e2e_os)"
    using e2e_steps(1) IsExternalCC_state [of "''/md''" e2e_os] by (simp add: prod_eq_iff)
  obtain s4 where "CopyDir 3 ''/shared/build1'' ''/out'' e2e_s3 = (Ok (), s4)"
    using e2e_steps(6) by (metis prod.collapse)
  then show ?thesis
    using ext e2e_start e2e_steps(3) c l by (simp add: Build_Run_def in_temp_dir_def build_in_def wrap_err_def)
qed

section \<open>Properties\<close>

text \<open>Property C3: the client believes only a build that happened. If the build command, connected to the
  server, returns without an error for chaincode that is not external (external chaincode is built
  without the server), then it returned 0; the server accepted the request the client made for its
  temporary directory, and created one pod for it, with the URLs of the client's source archive and
  output; the watch saw that pod succeed; the cluster was then told once to delete the pod, and the
  watch stopped; the command's standard error is exactly what the server sent, among it every line of
  every container log that was opened, in order, and, when the cluster refused the deletion, which
  does not fail the build, a message that says so; and at the end the temporary directory, as the
  pods' requests to the file server left it, was copied to the output directory.\<close>

theorem build_end_to_end:
  assumes "eof_means_ok tr" and "fst (IsExternalCC md s) \<noteq> Ok True"
    and "Build_Run d fl rnds (build_conn tr kc b rnd sched senv h reqs w) (SharedPath b) (src # md # out # rest) s = (Ok rc, text, s')"
  shows "rc = 0 \<and> (\<exists>tempDir root s1 s2 w' au cont su ou uuid created logs rs a ms s4.
    ioutil_TempDir rnds (SharedPath b) ''build'' s = (Ok tempDir, s1) \<and> path_Rel (SharedPath b) tempDir = Ok root \<and>
    send_archives d tempDir src md s1 = (Ok (), s2) \<and>
    build_accepted b (build_request root) (server_view senv s2) \<and>
    Build kc b rnd sched (build_request root) (server_view senv s2) w = Some (Ok (), server_view senv s2, w') \<and>
    urlJoin (FSBaseURL b) (brSourcePath (build_request root)) = Ok su \<and>
    urlJoin (FSBaseURL b) (brOutputPath (build_request root)) = Ok ou \<and> UUID rnd = Ok uuid \<and>
    (let pod = build_pod b au cont su ou uuid (opt_str (senv ''PEER_POD_NAME'')) (opt_str (senv ''PEER_POD_UID'')) in
      calls w' = calls w @ [CPodWatch (watch_selector pod) (Inr ()), CPodCreate pod (Inr created)] @ logs @
        map2 CLogClose (rev (map fst (opened logs))) rs @ [CPodDelete (pod_name created) a, CWatchStop]) \<and>
    list_all is_log_call logs \<and> (\<exists>l \<in> set sched. end_phase l = Some PodSucceeded) \<and>
    sent w' = sent w @ ms \<and> text = concat ms \<and> (\<forall>(c, lines) \<in> set (opened logs). subseq lines ms) \<and>
    (\<forall>e. a = Inl e \<longrightarrow> ''pod delete: '' @ error_text e @ [CHR 0x0A] \<in> set ms) \<and>
    CopyDir d tempDir out (snd (run_all (ServeHTTP h) reqs s2)) = (Ok (), s4) \<and> s' = snd (os_RemoveAll tempDir s4))"
  using assms(3,2)
proof (cases rule: Build_Run_Ok)
  case (1 tempDir root s1 s2 s3 s4 ms)
  obtain v w' where bld: "Build kc b rnd sched (build_request root) (server_view senv s2) w = Some (Ok (), v, w')"
    and ms: "ms = map build_Log (drop (length (sent w)) (sent w'))" and s3: "s3 = snd (run_all (ServeHTTP h) reqs s2)"
    using build_conn_Ok [OF assms(1) 1(5)] by blast
  have env: "getenv (server_view senv s2) n = opt_str (senv n)" for n
    by (simp add: getenv_def server_view_def opt_str_def split: option.split)
  have v: "v = server_view senv s2" using bld extractChaincodeMetadata_state [of b "brMetadataPath (build_request root)" "server_view senv s2"]
    by (auto simp: Build_def Let_def split: prod.splits outcome.splits if_splits)
  show ?thesis
    using bld
  proof (cases rule: Build_cases)
    case (executed au cont su ou uuid r0)
    have "r0 = Inr ()" using executed(7) by (cases r0) auto
    from executed(6) [unfolded this env] show ?thesis
    proof (rule executePod_build_logs)
      fix created logs rs a qs
      assume x: "sent w' = sent w @ qs" "\<forall>(c, lines) \<in> set (opened logs). subseq lines qs" "list_all is_log_call logs"
        "\<exists>l \<in> set sched. end_phase l = Some PodSucceeded"
        "\<And>e. a = Inl e \<Longrightarrow> ''pod delete: '' @ error_text e @ [CHR 0x0A] \<in> set qs"
        and tr: "calls w' = calls w @ [CPodWatch (watch_selector (build_pod b au cont su ou uuid (opt_str (senv ''PEER_POD_NAME''))
            (opt_str (senv ''PEER_POD_UID'')))) (Inr ()), CPodCreate (build_pod b au cont su ou uuid (opt_str (senv ''PEER_POD_NAME''))
            (opt_str (senv ''PEER_POD_UID''))) (Inr created)] @ logs @
          map2 CLogClose (rev (map fst (opened logs))) rs @ [CPodDelete (pod_name created) a, CWatchStop]"
      have "text = concat qs"
        using 1(6) ms x(1) recv_loop_texts [of qs] by (simp add: comp_def build_Log_def)
      then show ?thesis
        using 1(2-4,7-9) bld [unfolded v] executed(1,3-5) x tr s3 unfolding Let_def by blast
    qed
  qed simp_all
qed

theorem build_end_to_end_witness:
  "\<exists>text s'. Build_Run 3 (\<lambda>_. None) [''1''] e2e_conn ''/shared'' [''/src'', ''/md'', ''/out''] e2e_os = (Ok 0, text, s') \<and>
     (\<exists>(w' :: Secret option world) ms. sent w' = sent sample_world @ ms \<and> text = concat ms \<and> CWatchStop \<in> set (calls w'))"
proof -
  obtain msg s' where run: "Build_Run 3 (\<lambda>_. None) [''1''] e2e_conn ''/shared'' [''/src'', ''/md'', ''/out''] e2e_os = (Ok 0, msg, s')"
    using e2e_succeeds by blast
  have sp: "SharedPath sample_server = ''/shared''" by (simp add: sample_server_def)
  have "fst (IsExternalCC ''/md'' e2e_os) \<noteq> Ok True" using e2e_steps(1) by simp
  from build_end_to_end [OF e2e_transport_ok this run [unfolded e2e_conn_def, folded sp]]
  have "\<exists>(w' :: Secret option world) ms. sent w' = sent sample_world @ ms \<and> msg = concat ms \<and> CWatchStop \<in> set (calls w')"
    unfolding Let_def by (elim conjE exE) (intro exI conjI, assumption, assumption, simp)
  then show ?thesis using run by blast
qed

end
