(* ===== verification/TarRoundtrip.thy ===== *)
theory TarRoundtrip
  imports FsProps
begin

text \<open>
  Packing and unpacking a directory tree: the exact list of entries \<^verbatim>\<open>CreateTar\<close> writes for a tree
  of plain files and directories, the exact files \<^verbatim>\<open>ExtractTar\<close> makes of such a list in an empty
  directory, and that the two together reproduce the tree.
\<close>

section \<open>Paths of a walk\<close>

text \<open>A path that reaches the file at \<open>r\<close> below the root of a walk.\<close>

definition walk_path :: "os \<Rightarrow> string \<Rightarrow> key \<Rightarrow> string \<Rightarrow> bool" where
  "walk_path s root r p \<longleftrightarrow> p \<noteq> [] \<and> path_segs p = path_segs root @ r \<and> is_rooted p = is_rooted root \<and>
     resolve (cwd s) p = resolve (cwd s) root @ r"

lemma walk_path_root: "root \<noteq> [] \<Longrightarrow> walk_path s root [] root"
  by (simp add: walk_path_def)

lemma walk_path_child:
  assumes "walk_path s root r p" and "is_name c"
  shows "walk_path s root (r @ [c]) (path_Join [p, c])"
proof -
  have j: "path_Join [p, c] = path_Clean (p @ ''/'' @ c)" using assms by (simp add: path_Join_def walk_path_def)
  have "path_segs (path_Join [p, c]) = path_segs p @ [c]"
    unfolding j path_segs_Clean using path_segs_below assms by (simp add: walk_path_def)
  moreover have "is_rooted (path_Join [p, c]) = is_rooted p"
    unfolding j is_rooted_Clean using assms by (simp add: walk_path_def is_rooted_append)
  ultimately show ?thesis using assms by (simp add: walk_path_def)
qed

lemma walk_path_Rel:
  assumes "walk_path s root r p"
  shows "path_Rel root p = Ok (if r = [] then ''.'' else join_with ''/'' r)"
proof (cases "r = []")
  case True
  then have "path_Clean p = path_Clean root" using assms by (simp add: walk_path_def path_Clean_def)
  then show ?thesis using True by (simp add: path_Rel_def)
qed (use assms path_Rel_below in \<open>simp add: walk_path_def\<close>)

lemma join_names_no_dot:
  assumes "r \<noteq> []" and "\<And>w. w \<in> set r \<Longrightarrow> is_name w"
  shows "join_with ''/'' r \<noteq> ''.''"
proof -
  have "split_on (CHR ''/'') (join_with ''/'' r) = r"
    using assms by (intro split_join) (auto simp: is_name_def)
  then show ?thesis using assms by (auto simp: is_name_def)
qed

section \<open>The entries of an archive\<close>

definition entry_of :: "key \<Rightarrow> inode \<Rightarrow> entry" where
  "entry_of r n = (\<lparr>hName = join_with ''/'' r @ (if kind n = KDir then ''/'' else []),
     hTypeflag = (if kind n = KDir then CHR ''5'' else CHR ''0''), hMode = perm n, hModTime = mtime n,
     hAccessTime = Some (atime n)\<rparr>, if kind n = KDir then Raw [] else data n)"

definition plain_tree :: "os \<Rightarrow> key \<Rightarrow> bool" where
  "plain_tree s S \<longleftrightarrow> (\<forall>r n. file_at s (S @ r) = Some n \<longrightarrow> kind n = KRegular \<or> kind n = KDir)"

text \<open>The order in which \<^verbatim>\<open>filepath.Walk\<close> visits: a directory, then its entries by name.\<close>

fun preorder :: "nat \<Rightarrow> os \<Rightarrow> key \<Rightarrow> key \<Rightarrow> key list" where
  "preorder 0 s S r = []"
| "preorder (Suc d) s S r = (if r = [] then [] else [r]) @
     (if is_dir_at s (S @ r) then concat (map (\<lambda>c. preorder d s S (r @ [c])) (children s (S @ r))) else [])"

definition entries_at :: "os \<Rightarrow> key \<Rightarrow> key list \<Rightarrow> entry list" where
  "entries_at s S rs = map (\<lambda>r. entry_of r (the (file_at s (S @ r)))) rs"

lemma entries_at_append [simp]: "entries_at s S (rs @ rs') = entries_at s S rs @ entries_at s S rs'"
  "entries_at s S [] = []"
  by (simp_all add: entries_at_def)

lemma tar_visit_exact:
  assumes "walk_path s root r p" and "no_faults s" and "\<And>w. w \<in> set r \<Longrightarrow> is_name w"
    and "file_at s (resolve (cwd s) root @ r) = Some n" and "kind n = KRegular \<or> kind n = KDir"
  shows "tar_visit root p n (es, e) s = (Ok (), (es @ (if r = [] then [] else [entry_of r n]), e))"
proof (cases "r = []")
  case True
  then show ?thesis using walk_path_Rel [OF assms(1)] by (simp add: tar_visit_def)
next
  case False
  have "fst (writeFileContents p s) = Ok (data n)" if "kind n = KRegular"
    using assms that by (simp add: writeFileContents_def os_Open_def with_key_def lookup_key_def seq_def
        read_handle_def walk_path_def)
  then show ?thesis
    using assms False walk_path_Rel [OF assms(1)] join_names_no_dot [OF False assms(3)]
    by (auto simp: tar_visit_def fileInfoHeader_def tar_FileInfoHeader_def emit_def entry_of_def)
qed

lemma tar_walk_exact:
  assumes "fs_wf s" and "no_faults s" and "plain_tree s (resolve (cwd s) root)"
  shows "walk_path s root r p \<Longrightarrow> file_at s (resolve (cwd s) root @ r) = Some n \<Longrightarrow>
      (\<And>t. is_dir_at s (resolve (cwd s) root @ r @ t) \<Longrightarrow> length t + 2 \<le> d) \<Longrightarrow> 0 < d \<Longrightarrow>
    tar_walk d root p n (es, e) s =
      (Ok (), (es @ entries_at s (resolve (cwd s) root) (preorder d s (resolve (cwd s) root) r), e))"
proof (induction d arbitrary: r p n es)
  case (Suc d)
  let ?S = "resolve (cwd s) root"
  have names: "is_name w" if "w \<in> set r" for w
    using fs_wf_names [OF assms(1), of "?S @ r" w] Suc.prems(2) that by simp
  have k: "kind n = KRegular \<or> kind n = KDir" using assms(3) Suc.prems(2) by (auto simp: plain_tree_def)
  note visit = tar_visit_exact [OF Suc.prems(1) assms(2) names Suc.prems(2) k]
  have res: "resolve (cwd s) p = ?S @ r" "p \<noteq> []" using Suc.prems(1) by (simp_all add: walk_path_def)
  show ?case
  proof (cases "kind n = KDir")
    case False
    then show ?thesis using visit Suc.prems(2) by (simp add: entries_at_def is_dir_at_iff)
  next
    case True
    then have dir: "is_dir_at s (?S @ r)" using Suc.prems(2) by (simp add: is_dir_at_iff)
    have d: "0 < d" using Suc.prems(3) [of "[]"] dir by simp
    have walk: "tar_walk_names d root p cs (es', e) s =
        (Ok (), (es' @ entries_at s ?S (concat (map (\<lambda>c. preorder d s ?S (r @ [c])) cs)), e))"
      if "set cs \<subseteq> set (children s (?S @ r))" for cs es'
      using that
    proof (induction cs arbitrary: es')
      case (Cons c cs)
      then obtain m where m: "file_at s (?S @ r @ [c]) = Some m" by (auto simp: set_children)
      then have c: "is_name c" using fs_wf_name [OF assms(1), of "?S @ r" c] by simp
      have "length t + 2 \<le> d" if "is_dir_at s (?S @ (r @ [c]) @ t)" for t
        using Suc.prems(3) [of "c # t"] that by simp
      from Suc.IH [OF walk_path_child [OF Suc.prems(1) c] m this d]
      have "tar_walk d root (path_Join [p, c]) m (es', e) s =
          (Ok (), (es' @ entries_at s ?S (preorder d s ?S (r @ [c])), e))" by simp
      moreover have "os_Lstat (path_Join [p, c]) s = (Ok m, s)"
        using m res c assms(2) by (simp add: os_Lstat_def with_key_def lookup_key_def)
      ultimately show ?case using Cons by simp
    qed simp
    have "ioutil_ReadDir p s = (Ok (map (\<lambda>c. (c, the (file_at s ((?S @ r) @ [c])))) (children s (?S @ r))), s)"
      using assms(2) dir res by (simp add: ioutil_ReadDir_Ok)
    then show ?thesis
      using True visit dir walk [OF subset_refl] Suc.prems(2) by (simp add: comp_def entries_at_def)
  qed
qed simp

section \<open>What the entries cover\<close>

text \<open>What is below a place is below an entry of the directory there.\<close>

lemma kid_of_dir:
  assumes "fs_wf s" and "file_at s (S @ r @ c # t) \<noteq> None"
  shows "c \<in> set (children s (S @ r))" and "is_dir_at s (S @ r)"
proof -
  show "is_dir_at s (S @ r)" using fs_wf_prefix_dir [OF assms(1), of "S @ r" "c # t"] assms(2) by simp
  have "file_at s (S @ r @ [c]) \<noteq> None"
    using fs_wf_prefix_dir [OF assms(1), of "S @ r @ [c]" t] is_dir_at_exists assms(2) by (cases t) auto
  then show "c \<in> set (children s (S @ r))" by (simp add: set_children)
qed

lemma kids_union:
  assumes "fs_wf s"
  shows "{r @ c # t | c t. file_at s (S @ r @ c # t) \<noteq> None} =
    (if is_dir_at s (S @ r) then \<Union>c \<in> set (children s (S @ r)). {r @ c # t | t. file_at s (S @ r @ c # t) \<noteq> None} else {})"
proof (cases "is_dir_at s (S @ r)")
  case True
  then show ?thesis using kid_of_dir(1) [OF assms, of S r] by simp blast
next
  case False
  then have "file_at s (S @ r @ c # t) = None" for c t using kid_of_dir(2) [OF assms] by blast
  then show ?thesis using False by simp
qed

lemma key_or_kids:
  assumes "file_at s (S @ r) \<noteq> None"
  shows "(if r = [] then {} else {r}) \<union> {r @ c # t | c t. file_at s (S @ r @ c # t) \<noteq> None} =
    {r @ t | t. r @ t \<noteq> [] \<and> file_at s (S @ r @ t) \<noteq> None}" (is "?l = ?r")
proof
  show "?r \<subseteq> ?l"
  proof
    fix x assume "x \<in> ?r"
    then obtain t where t: "x = r @ t" "r @ t \<noteq> []" "file_at s (S @ r @ t) \<noteq> None" by blast
    then show "x \<in> ?l" by (cases t) auto
  qed
  show "?l \<subseteq> ?r" using assms by (auto split: if_splits intro: exI [of _ "[]"])
qed

lemma preorder_set:
  assumes "fs_wf s"
  shows "file_at s (S @ r) \<noteq> None \<Longrightarrow> (\<And>t. is_dir_at s (S @ r @ t) \<Longrightarrow> length t + 2 \<le> d) \<Longrightarrow> 0 < d \<Longrightarrow>
    set (preorder d s S r) = {r @ t | t. r @ t \<noteq> [] \<and> file_at s (S @ r @ t) \<noteq> None}"
proof (induction d arbitrary: r)
  case (Suc d)
  have sub: "set (preorder d s S (r @ [c])) = {r @ c # t | t. file_at s (S @ r @ c # t) \<noteq> None}"
    if "c \<in> set (children s (S @ r))" "is_dir_at s (S @ r)" for c
  proof -
    have "length t + 2 \<le> d" if "is_dir_at s (S @ (r @ [c]) @ t)" for t using Suc.prems(2) [of "c # t"] that by simp
    moreover have "0 < d" using Suc.prems(2) [of "[]"] that(2) by simp
    ultimately show ?thesis using Suc.IH [of "r @ [c]"] that(1) by (simp add: set_children)
  qed
  have "set (preorder (Suc d) s S r) =
      (if r = [] then {} else {r}) \<union> {r @ c # t | c t. file_at s (S @ r @ c # t) \<noteq> None}"
    unfolding kids_union [OF assms] using sub by auto
  then show ?case unfolding key_or_kids [OF Suc.prems(1)] .
qed simp

lemma preorder_prefix: "x \<in> set (preorder d s S r) \<Longrightarrow> prefix r x"
proof (induction d arbitrary: r)
  case (Suc d)
  then show ?case by (fastforce split: if_splits dest: append_prefixD)
qed simp

lemma preorder_distinct:
  assumes "fs_wf s"
  shows "distinct (preorder d s S r)"
proof (induction d arbitrary: r)
  case (Suc d)
  have dis: "distinct (concat (map (\<lambda>c. preorder d s S (r @ [c])) cs))" if "distinct cs" for cs
    using that
  proof (induction cs)
    case (Cons c cs)
    have "set (preorder d s S (r @ [c])) \<inter> set (concat (map (\<lambda>c. preorder d s S (r @ [c])) cs)) = {}"
    proof (rule ccontr)
      assume "\<not> ?thesis"
      then obtain x c' where "x \<in> set (preorder d s S (r @ [c]))" "x \<in> set (preorder d s S (r @ [c']))" "c' \<in> set cs" by auto
      then have "prefix (r @ [c]) x" "prefix (r @ [c']) x" using preorder_prefix by blast+
      then have "c = c'" by (auto simp: prefix_def)
      then show False using \<open>c' \<in> set cs\<close> Cons.prems by simp
    qed
    then show ?case using Cons Suc.IH by simp
  qed simp
  have "r \<notin> set (concat (map (\<lambda>c. preorder d s S (r @ [c])) cs))" for cs
    using preorder_prefix by (fastforce simp: prefix_def)
  then show ?case using dis [OF distinct_children [OF assms, of "S @ r"]] by (cases "r = []") simp_all
qed simp

text \<open>
  A list of files in which every directory comes before what it contains, where the directories in
  \<open>A\<close> are there already.
\<close>

fun grows :: "key set \<Rightarrow> (key \<times> inode) list \<Rightarrow> bool" where
  "grows A [] = True"
| "grows A ((r, n) # items) =
     (r \<noteq> [] \<and> butlast r \<in> A \<and> grows (if kind n = KDir then insert r A else A) items)"

lemma grows_append: "grows A (xs @ ys) \<longleftrightarrow> grows A xs \<and> grows (A \<union> {r. \<exists>n. (r, n) \<in> set xs \<and> kind n = KDir}) ys"
proof (induction xs arbitrary: A)
  case (Cons i xs)
  obtain r n where i: "i = (r, n)" by (cases i)
  have "(if kind n = KDir then insert r A else A) \<union> {r. \<exists>n. (r, n) \<in> set xs \<and> kind n = KDir} =
      A \<union> {r'. \<exists>n. (r', n) \<in> set (i # xs) \<and> kind n = KDir}" by (auto simp: i)
  then show ?case using Cons by (simp add: i)
qed simp

definition items_at :: "os \<Rightarrow> key \<Rightarrow> key list \<Rightarrow> (key \<times> inode) list" where
  "items_at s S rs = map (\<lambda>r. (r, the (file_at s (S @ r)))) rs"

lemma preorder_grows:
  "(r = [] \<and> [] \<in> A) \<or> (r \<noteq> [] \<and> butlast r \<in> A) \<Longrightarrow> grows A (items_at s S (preorder d s S r))"
proof (induction d arbitrary: r A)
  case (Suc d)
  have kids: "grows B (items_at s S (concat (map (\<lambda>c. preorder d s S (r @ [c])) cs)))" if "r \<in> B" for cs B
    using that
  proof (induction cs arbitrary: B)
    case (Cons c cs)
    then show ?case using Suc.IH [of "r @ [c]" B] by (simp add: items_at_def grows_append)
  qed (simp add: items_at_def)
  show ?case
    using Suc.prems kids [of A] kids [of "insert r A"]
    by (auto simp: items_at_def is_dir_at_iff)
qed (simp add: items_at_def)

section \<open>Extracting into an empty directory\<close>

lemma entry_target:
  assumes "dest \<noteq> []" and "r \<noteq> []" and "\<And>w. w \<in> set r \<Longrightarrow> is_name w"
  shows "resolve c (extract_target dest (fst (entry_of r n))) = resolve c dest @ r"
    "extract_target dest (fst (entry_of r n)) \<noteq> []" "safe_name (fst (entry_of r n))"
proof -
  have sp: "slash_split (join_with ''/'' r) = r" using assms by (intro split_join) (auto simp: is_name_def)
  have rt: "\<not> is_rooted (join_with ''/'' r @ t)" for t
  proof -
    obtain w ws where r: "r = w # ws" using assms(2) by (cases r) auto
    moreover obtain x w' where "w = x # w'" "x \<noteq> CHR ''/''" using assms(3) [of w] r by (cases w) (auto simp: is_name_def)
    ultimately show ?thesis by (simp add: is_rooted_def)
  qed
  have cl: "clean_segs False [] r = r" using clean_segs_names [OF assms(3), of r False "[]"] by simp
  have seg: "path_segs (join_with ''/'' r @ (if kind n = KDir then ''/'' else [])) = r"
    using rt [of "[]"] rt [of "''/''"] sp cl
    by (simp add: path_segs_def split_on_append_sep [of _ _ "[]", simplified] clean_segs_append)
  have "path_Clean (hName (fst (entry_of r n))) = join_with ''/'' r"
    using rt seg assms(2) by (simp add: path_Clean_def entry_of_def unsegs_def)
  then show "resolve c (extract_target dest (fst (entry_of r n))) = resolve c dest @ r"
    "extract_target dest (fst (entry_of r n)) \<noteq> []" "safe_name (fst (entry_of r n))"
    using assms sp by (auto simp: extract_target_def resolve_Join clean_segs_names safe_name_def is_name_def)
qed

text \<open>What unpacking makes of a file: permissions less the umask, and for a plain file both times from the header.\<close>

definition unpacked :: "32 word \<Rightarrow> inode \<Rightarrow> inode" where
  "unpacked u n = \<lparr>kind = kind n,
     perm = perm n AND (if kind n = KDir then dir_perm_mask else file_perm_mask) AND NOT u,
     data = (if kind n = KDir then Raw [] else data n),
     atime = (if kind n = KDir then atime n else mtime n), mtime = mtime n\<rparr>"

lemma MkdirAll_fresh:
  assumes "fs_wf s" and "no_faults s" and "p \<noteq> []" and "resolve (cwd s) p = K @ [c]"
    and "is_dir_at s K" and "file_at s (K @ [c]) = None"
  shows "os_MkdirAll p mode s = (Ok (), put_new (K @ [c]) (new_dir s mode) s)"
proof -
  have "mkdirs q (rev K) mode s = (Ok (), s)" for q
    by (rule mkdirs_existing) (use assms in auto)
  then show ?thesis using assms
    by (auto simp: os_MkdirAll_def with_key_def lookup_key_def seq_def mkdir_last_def mkdir_key_def)
qed

lemma new_plain_file:
  assumes "no_faults s" and "p \<noteq> []" and "resolve (cwd s) p = k" and "is_dir_at s (butlast k)" and "file_at s k = None"
  shows "seq (os_OpenFile False (path_Clean p) mode) (\<lambda>file.
      seq (copyClose (path_Clean p) file (ret c)) (\<lambda>_. seq (os_Chtimes p (Some t) (Some t)) g)) s =
    g () (put k ((new_file s mode)\<lparr>data := c, atime := t, mtime := t\<rparr>)
           (put k ((new_file s mode)\<lparr>data := c, mtime := now s\<rparr>) (put_new k (new_file s mode) s)))"
  using assms
  by (simp add: seq_def os_OpenFile_def with_key_def copyClose_def write_handle_def close_handle_def os_Chtimes_def
      lookup_key_def file_at_put_new)

lemma new_file_simps:
  "(new_file s m)\<lparr>data := c, atime := t, mtime := t'\<rparr> = \<lparr>kind = KRegular, perm = m AND file_perm_mask AND NOT (umask s),
     data = c, atime = t, mtime = t'\<rparr>"
  by (simp add: new_file_def)

text \<open>One entry whose directory is there and whose place is free.\<close>

lemma extract_one:
  assumes "fs_wf s" and "no_faults s" and "dest \<noteq> []" and "r \<noteq> []" and "\<And>w. w \<in> set r \<Longrightarrow> is_name w"
    and "is_dir_at s (resolve (cwd s) dest @ butlast r)" and "file_at s (resolve (cwd s) dest @ r) = None"
    and "kind n = KRegular \<or> kind n = KDir"
  shows "\<exists>s1 x. extract_entries dest (entry_of r n # es) e dirs s =
      extract_entries dest es e (if kind n = KDir then AList.update (extract_target dest (fst (entry_of r n))) (fst (entry_of r n)) dirs else dirs) s1 \<and>
    fs_wf s1 \<and> same_env s s1 \<and> file_at s1 = file_at (put_new (resolve (cwd s) dest @ r) x s) \<and>
    x\<lparr>atime := 0, mtime := 0\<rparr> = (unpacked (umask s) n)\<lparr>atime := 0, mtime := 0\<rparr> \<and> (kind n \<noteq> KDir \<longrightarrow> x = unpacked (umask s) n)"
proof -
  let ?D = "resolve (cwd s) dest" and ?t = "extract_target dest (fst (entry_of r n))"
  let ?k = "?D @ r"
  have bl: "butlast ?k = ?D @ butlast r" "?k = (?D @ butlast r) @ [last r]" using assms(4) by (simp_all add: butlast_append)
  have names: "is_name w" if "w \<in> set ?k" for w using that assms(5) fs_wf_resolve [OF assms(1)] by auto
  note t = entry_target(1) [OF assms(3-5), of "cwd s" n] entry_target(2) [OF assms(3-5), of n]
  have wf: "fs_wf (put_new ?k x s)" for x
    by (rule fs_wf_put_new) (use assms(1,6,7) bl(1) names in auto)
  show ?thesis
  proof (cases "kind n = KDir")
    case True
    have "os_MkdirAll ?t (hMode (fst (entry_of r n))) s = (Ok (), put_new ?k (new_dir s (perm n)) s)"
      using MkdirAll_fresh [OF assms(1,2) t(2), of "?D @ butlast r" "last r" "perm n"] t(1) bl assms(6,7)
      by (simp add: entry_of_def)
    then have "extract_entries dest (entry_of r n # es) e dirs s =
        extract_entries dest es e (AList.update ?t (fst (entry_of r n)) dirs) (put_new ?k (new_dir s (perm n)) s)"
      using True by (cases "entry_of r n") (auto simp: seq_def entry_of_def Let_def)
    then show ?thesis using True wf
      by (intro exI [of _ "put_new ?k (new_dir s (perm n)) s"] exI [of _ "new_dir s (perm n)"])
         (simp add: same_env_def unpacked_def new_dir_def)
  next
    case False
    let ?x = "unpacked (umask s) n"
    let ?s1 = "put ?k ?x (put ?k ((new_file s (perm n))\<lparr>data := data n, mtime := now s\<rparr>) (put_new ?k (new_file s (perm n)) s))"
    have x: "(new_file s (perm n))\<lparr>data := data n, atime := mtime n, mtime := mtime n\<rparr> = ?x"
      using False assms(8) by (simp add: new_file_simps unpacked_def)
    have "extract_entries dest (entry_of r n # es) e dirs s = extract_entries dest es e dirs ?s1"
      using new_plain_file [OF assms(2) t(2,1), of "perm n" "data n" "mtime n"] bl assms(6,7) False x
      by (cases "entry_of r n") (auto simp: entry_of_def Let_def)
    moreover have "fs_wf ?s1"
      by (intro fs_wf_put) (use wf False assms(8) in \<open>auto simp: file_at_put_new new_file_def unpacked_def intro!: fs_wf_put\<close>)
    moreover have "file_at ?s1 = file_at (put_new ?k ?x s)" by (auto simp: fun_eq_iff file_at_put_new)
    ultimately show ?thesis using False by (intro exI [of _ ?s1] exI [of _ ?x]) (simp add: same_env_def)
  qed
qed

definition dir_headers :: "string \<Rightarrow> (key \<times> inode) list \<Rightarrow> (string \<times> tar_header) list \<Rightarrow> (string \<times> tar_header) list" where
  "dir_headers dest items dirs = fold (\<lambda>(r, n) ds. if kind n = KDir
     then AList.update (extract_target dest (fst (entry_of r n))) (fst (entry_of r n)) ds else ds) items dirs"

text \<open>The files that are there after extracting the items: new ones, and old directories touched.\<close>

definition extracted :: "key \<Rightarrow> key set \<Rightarrow> (key \<times> inode) list \<Rightarrow> os \<Rightarrow> os \<Rightarrow> bool" where
  "extracted D A items s s' \<longleftrightarrow> fs_wf s' \<and> same_env s s' \<and>
     (\<forall>k. k \<notin> (@) D ` fst ` set items \<longrightarrow> (\<exists>m. file_at s' k = map_option (\<lambda>n. n\<lparr>mtime := m\<rparr>) (file_at s k))) \<and>
     (\<forall>k. k \<notin> (@) D ` fst ` set items \<longrightarrow> k \<notin> (@) D ` A \<longrightarrow> file_at s' k = file_at s k) \<and>
     (\<forall>(r, n) \<in> set items. \<exists>a m. file_at s' (D @ r) = Some ((unpacked (umask s) n)\<lparr>atime := a, mtime := m\<rparr>) \<and>
        (kind n \<noteq> KDir \<longrightarrow> file_at s' (D @ r) = Some (unpacked (umask s) n)))"

lemma extracted_frame:
  assumes "extracted D A items s s'" and "k \<notin> (@) D ` fst ` set items"
  shows "\<exists>m. file_at s' k = map_option (\<lambda>n. n\<lparr>mtime := m\<rparr>) (file_at s k)"
    "k \<notin> (@) D ` A \<Longrightarrow> file_at s' k = file_at s k"
  using assms unfolding extracted_def by blast+

lemma but_times:
  fixes x y :: inode
  assumes "x\<lparr>atime := 0, mtime := 0\<rparr> = y\<lparr>atime := 0, mtime := 0\<rparr>"
  shows "x\<lparr>mtime := m\<rparr> = y\<lparr>atime := atime x, mtime := m\<rparr>"
proof -
  have "x\<lparr>mtime := m\<rparr> = (x\<lparr>atime := 0, mtime := 0\<rparr>)\<lparr>atime := atime x, mtime := m\<rparr>" by (cases x) simp
  then show ?thesis unfolding assms by simp
qed

lemma extracted_Cons:
  assumes ex: "extracted D (if kind n = KDir then insert r A else A) items s1 s'"
    and env: "same_env s s1" and f1: "file_at s1 = file_at (put_new (D @ r) x s)"
    and x: "x\<lparr>atime := 0, mtime := 0\<rparr> = (unpacked (umask s) n)\<lparr>atime := 0, mtime := 0\<rparr>" "kind n \<noteq> KDir \<Longrightarrow> x = unpacked (umask s) n"
    and r: "r \<noteq> []" "butlast r \<in> A" "r \<notin> fst ` set items" "\<And>a. a \<in> A \<Longrightarrow> file_at s (D @ a) \<noteq> None" "file_at s (D @ r) = None"
  shows "extracted D A ((r, n) # items) s s'"
proof -
  have u: "umask s1 = umask s" using env by (simp add: same_env_def)
  have at1: "file_at s1 k = (if k = D @ r then Some x else if k = D @ butlast r then map_option (\<lambda>n. n\<lparr>mtime := now s\<rparr>) (file_at s k)
      else file_at s k)" for k
    using r(1) by (auto simp: f1 file_at_put_new butlast_append)
  have rA: "r \<notin> A" using r(4,5) by blast
  have out: "D @ r \<notin> (@) D ` fst ` set items" using r(3) by auto
  obtain m where m: "file_at s' (D @ r) = Some (x\<lparr>mtime := m\<rparr>)"
    using extracted_frame(1) [OF ex out] at1 [of "D @ r"] by auto
  have keep: "file_at s' (D @ r) = Some x" if "kind n \<noteq> KDir"
  proof -
    have "D @ r \<notin> (@) D ` (if kind n = KDir then insert r A else A)" using rA that by auto
    from extracted_frame(2) [OF ex out this] show ?thesis using at1 [of "D @ r"] by simp
  qed
  have xs: "x\<lparr>mtime := m\<rparr> = (unpacked (umask s) n)\<lparr>atime := atime x, mtime := m\<rparr>" by (rule but_times [OF x(1)])
  show ?thesis
    unfolding extracted_def
  proof (intro conjI allI impI)
    show "fs_wf s'" using ex by (simp add: extracted_def)
    show "same_env s s'" using ex env by (simp add: extracted_def same_env_def)
    fix k assume k: "k \<notin> (@) D ` fst ` set ((r, n) # items)"
    then have k1: "k \<notin> (@) D ` fst ` set items" by auto
    then obtain m1 where "file_at s' k = map_option (\<lambda>n. n\<lparr>mtime := m1\<rparr>) (file_at s1 k)"
      using extracted_frame(1) [OF ex] by blast
    then show "\<exists>m. file_at s' k = map_option (\<lambda>n. n\<lparr>mtime := m\<rparr>) (file_at s k)"
      using k at1 [of k] by (auto simp: option.map_comp comp_def intro!: exI [of _ m1])
    assume A: "k \<notin> (@) D ` A"
    have "k \<notin> (@) D ` (if kind n = KDir then insert r A else A)" using A k by auto
    then have "file_at s' k = file_at s1 k" by (rule extracted_frame(2) [OF ex k1])
    moreover have "k \<noteq> D @ butlast r" using A r(2) by auto
    ultimately show "file_at s' k = file_at s k" using at1 [of k] k by auto
  next
    have old: "\<forall>(q, n') \<in> set items. \<exists>a m. file_at s' (D @ q) = Some ((unpacked (umask s) n')\<lparr>atime := a, mtime := m\<rparr>) \<and>
        (kind n' \<noteq> KDir \<longrightarrow> file_at s' (D @ q) = Some (unpacked (umask s) n'))"
      using ex by (simp add: extracted_def u)
    show "\<forall>(q, n') \<in> set ((r, n) # items). \<exists>a m. file_at s' (D @ q) = Some ((unpacked (umask s) n')\<lparr>atime := a, mtime := m\<rparr>) \<and>
        (kind n' \<noteq> KDir \<longrightarrow> file_at s' (D @ q) = Some (unpacked (umask s) n'))"
      using old m xs keep x(2) by auto
  qed
qed

lemma extract_items:
  "fs_wf s \<Longrightarrow> no_faults s \<Longrightarrow> dest \<noteq> [] \<Longrightarrow> D = resolve (cwd s) dest \<Longrightarrow> (\<And>a. a \<in> A \<Longrightarrow> is_dir_at s (D @ a)) \<Longrightarrow>
   grows A items \<Longrightarrow> distinct (map fst items) \<Longrightarrow>
   (\<And>r n. (r, n) \<in> set items \<Longrightarrow> (\<forall>w \<in> set r. is_name w) \<and> (kind n = KRegular \<or> kind n = KDir) \<and> file_at s (D @ r) = None) \<Longrightarrow>
   \<exists>s'. extract_entries dest (map (\<lambda>(r, n). entry_of r n) items) None dirs s = (Ok (dir_headers dest items dirs), s') \<and>
     extracted D A items s s'"
proof (induction items arbitrary: A s dirs)
  case Nil
  have "file_at s k = map_option (\<lambda>n. n\<lparr>mtime := case file_at s k of Some n \<Rightarrow> mtime n | None \<Rightarrow> 0\<rparr>) (file_at s k)" for k
    by (cases "file_at s k") simp_all
  then show ?case using Nil by (auto simp: dir_headers_def extracted_def same_env_def)
next
  case (Cons i items)
  obtain r n where i: "i = (r, n)" by (cases i)
  have r: "r \<noteq> []" "butlast r \<in> A" "r \<notin> fst ` set items" "\<And>w. w \<in> set r \<Longrightarrow> is_name w" "kind n = KRegular \<or> kind n = KDir"
    "file_at s (D @ r) = None" and rest: "grows (if kind n = KDir then insert r A else A) items"
    using Cons.prems(6,7) Cons.prems(8) [of r n] by (auto simp: i)
  obtain s1 x where s1: "extract_entries dest (entry_of r n # map (\<lambda>(r, n). entry_of r n) items) None dirs s =
      extract_entries dest (map (\<lambda>(r, n). entry_of r n) items) None (dir_headers dest [i] dirs) s1"
    "fs_wf s1" "same_env s s1" "file_at s1 = file_at (put_new (D @ r) x s)"
    "x\<lparr>atime := 0, mtime := 0\<rparr> = (unpacked (umask s) n)\<lparr>atime := 0, mtime := 0\<rparr>" "kind n \<noteq> KDir \<Longrightarrow> x = unpacked (umask s) n"
    using extract_one [OF Cons.prems(1-3) r(1,4) _ _ r(5), of "map (\<lambda>(r, n). entry_of r n) items" None dirs] Cons.prems(4,5) r
    by (auto simp: dir_headers_def i)
  have at1: "file_at s1 k = (if k = D @ r then Some x else if k = D @ butlast r then map_option (\<lambda>n. n\<lparr>mtime := now s\<rparr>) (file_at s k)
      else file_at s k)" for k
    using r(1) by (auto simp: s1(4) file_at_put_new butlast_append)
  have kx: "kind x = kind n" using arg_cong [OF s1(5), of kind] by (simp add: unpacked_def)
  have dirs1: "is_dir_at s1 (D @ a)" if "a \<in> (if kind n = KDir then insert r A else A)" for a
    using that Cons.prems(5) [of a] kx at1 [of "D @ a"] r(6) by (auto simp: is_dir_at_iff split: if_splits)
  have items1: "(\<forall>w \<in> set q. is_name w) \<and> (kind n' = KRegular \<or> kind n' = KDir) \<and> file_at s1 (D @ q) = None"
    if q: "(q, n') \<in> set items" for q n'
  proof -
    have "q \<noteq> r" "q \<noteq> butlast r" using q r(2,3) Cons.prems(5) [of q] Cons.prems(8) [of q n'] i is_dir_at_exists by force+
    then show ?thesis using Cons.prems(8) [of q n'] q i at1 [of "D @ q"] by simp
  qed
  have "\<exists>s'. extract_entries dest (map (\<lambda>(r, n). entry_of r n) items) None (dir_headers dest [i] dirs) s1 =
      (Ok (dir_headers dest items (dir_headers dest [i] dirs)), s') \<and> extracted D (if kind n = KDir then insert r A else A) items s1 s'"
    by (rule Cons.IH) (use Cons.prems(2,3,4,7) s1(2,3) dirs1 rest items1 no_faults_env i in \<open>auto simp: same_env_def\<close>)
  then obtain s' where s': "extract_entries dest (map (\<lambda>(r, n). entry_of r n) items) None (dir_headers dest [i] dirs) s1 =
      (Ok (dir_headers dest items (dir_headers dest [i] dirs)), s')"
    "extracted D (if kind n = KDir then insert r A else A) items s1 s'" by blast
  have "extracted D A ((r, n) # items) s s'"
    by (rule extracted_Cons [OF s'(2) s1(3-6)]) (use r Cons.prems(5) is_dir_at_exists in auto)
  then show ?case using s'(1) s1(1) by (auto simp: i dir_headers_def)
qed

section \<open>The times of directories\<close>

definition set_times :: "tar_header \<Rightarrow> inode \<Rightarrow> inode" where
  "set_times h n = n\<lparr>atime := (case hAccessTime h of Some a \<Rightarrow> a | None \<Rightarrow> atime n), mtime := hModTime h\<rparr>"

lemma set_times_twice [simp]: "set_times h (set_times h n) = set_times h n"
  by (simp add: set_times_def split: option.splits)

lemma restore_exact:
  "no_faults s \<Longrightarrow> (\<And>t h. (t, h) \<in> set ds \<Longrightarrow> t \<noteq> [] \<and> file_at s (resolve (cwd s) t) \<noteq> None) \<Longrightarrow>
   (\<And>t h t' h'. (t, h) \<in> set ds \<Longrightarrow> (t', h') \<in> set ds \<Longrightarrow> resolve (cwd s) t = resolve (cwd s) t' \<Longrightarrow> h = h') \<Longrightarrow>
   \<exists>s'. restore_dirs ds s = (Ok (), s') \<and>
     (\<forall>k. k \<notin> resolve (cwd s) ` fst ` set ds \<longrightarrow> file_at s' k = file_at s k) \<and>
     (\<forall>t h. (t, h) \<in> set ds \<longrightarrow> file_at s' (resolve (cwd s) t) = map_option (set_times h) (file_at s (resolve (cwd s) t)))"
proof (induction ds arbitrary: s)
  case (Cons d ds)
  obtain t h where d: "d = (t, h)" by (cases d)
  let ?k = "resolve (cwd s) t"
  obtain n where n: "file_at s ?k = Some n" "t \<noteq> []" using Cons.prems(2) [of t h] by (auto simp: d)
  let ?s1 = "put ?k (set_times h n) s"
  have step: "os_Chtimes t (hAccessTime h) (Some (hModTime h)) s = (Ok (), ?s1)"
    using n Cons.prems(1) by (simp add: os_Chtimes_def with_key_def lookup_key_def seq_def set_times_def)
  have "\<exists>s'. restore_dirs ds ?s1 = (Ok (), s') \<and>
     (\<forall>k. k \<notin> resolve (cwd ?s1) ` fst ` set ds \<longrightarrow> file_at s' k = file_at ?s1 k) \<and>
     (\<forall>t h. (t, h) \<in> set ds \<longrightarrow> file_at s' (resolve (cwd ?s1) t) = map_option (set_times h) (file_at ?s1 (resolve (cwd ?s1) t)))"
  proof (rule Cons.IH)
    show "no_faults ?s1" using Cons.prems(1) by simp
    show "t' \<noteq> [] \<and> file_at ?s1 (resolve (cwd ?s1) t') \<noteq> None" if "(t', h') \<in> set ds" for t' h'
      using Cons.prems(2) [of t' h'] that by simp
    show "h' = h''" if "(t', h') \<in> set ds" "(t'', h'') \<in> set ds" "resolve (cwd ?s1) t' = resolve (cwd ?s1) t''" for t' h' t'' h''
      using Cons.prems(3) [of t' h' t'' h''] that by simp
  qed
  then obtain s' where s': "restore_dirs ds ?s1 = (Ok (), s')"
     "\<And>k. k \<notin> resolve (cwd s) ` fst ` set ds \<Longrightarrow> file_at s' k = file_at ?s1 k"
     "\<And>t h. (t, h) \<in> set ds \<Longrightarrow> file_at s' (resolve (cwd s) t) = map_option (set_times h) (file_at ?s1 (resolve (cwd s) t))"
    by auto
  have here: "file_at s' ?k = Some (set_times h n)"
  proof (cases "?k \<in> resolve (cwd s) ` fst ` set ds")
    case True
    then obtain t' h' where t': "(t', h') \<in> set ds" "resolve (cwd s) t' = ?k" by auto
    then have "h' = h" using Cons.prems(3) [of t' h' t h] by (simp add: d)
    then show ?thesis using s'(3) [OF t'(1)] t'(2) by simp
  qed (use s'(2) in simp)
  have there: "file_at s' (resolve (cwd s) t') = map_option (set_times h') (file_at s (resolve (cwd s) t'))"
    if "(t', h') \<in> set ds" for t' h'
  proof (cases "resolve (cwd s) t' = ?k")
    case True
    then have "h' = h" using Cons.prems(3) [of t' h' t h] that by (simp add: d)
    then show ?thesis using here True n by simp
  qed (use s'(3) [OF that] in simp)
  show ?case
    using step s'(1,2) here there n by (intro exI [of _ s']) (auto simp: d seq_def)
qed simp

abbreviation target_of :: "string \<Rightarrow> key \<Rightarrow> inode \<Rightarrow> string" where
  "target_of dest r n \<equiv> extract_target dest (fst (entry_of r n))"

lemma dir_headers_map:
  assumes "dest \<noteq> []"
  shows "distinct (map fst items) \<Longrightarrow> (\<And>r n. (r, n) \<in> set items \<Longrightarrow> r \<noteq> [] \<and> (\<forall>w \<in> set r. is_name w)) \<Longrightarrow>
    (\<forall>r n. (r, n) \<in> set items \<longrightarrow> kind n = KDir \<longrightarrow>
       map_of (dir_headers dest items dirs) (target_of dest r n) = Some (fst (entry_of r n))) \<and>
    (\<forall>t. (\<forall>r n. (r, n) \<in> set items \<longrightarrow> kind n = KDir \<longrightarrow> t \<noteq> target_of dest r n) \<longrightarrow>
       map_of (dir_headers dest items dirs) t = map_of dirs t)"
proof (induction items arbitrary: dirs)
  case (Cons i items)
  obtain r n where i: "i = (r, n)" by (cases i)
  have r: "r \<noteq> []" "\<And>w. w \<in> set r \<Longrightarrow> is_name w" using Cons.prems(2) [of r n] by (auto simp: i)
  have other: "target_of dest q m \<noteq> target_of dest r n" if "(q, m) \<in> set items" for q m
  proof
    assume "target_of dest q m = target_of dest r n"
    then have "resolve [] dest @ q = resolve [] dest @ r"
      using entry_target(1) [OF assms r, of "[]" n] entry_target(1) [OF assms, of q "[]" m] Cons.prems(2) [of q m] that by auto
    then show False using Cons.prems(1) that i by force
  qed
  let ?dirs = "if kind n = KDir then AList.update (target_of dest r n) (fst (entry_of r n)) dirs else dirs"
  have IH: "(\<forall>r n. (r, n) \<in> set items \<longrightarrow> kind n = KDir \<longrightarrow>
       map_of (dir_headers dest items ?dirs) (target_of dest r n) = Some (fst (entry_of r n))) \<and>
    (\<forall>t. (\<forall>r n. (r, n) \<in> set items \<longrightarrow> kind n = KDir \<longrightarrow> t \<noteq> target_of dest r n) \<longrightarrow>
       map_of (dir_headers dest items ?dirs) t = map_of ?dirs t)"
    by (rule Cons.IH) (use Cons.prems in auto)
  have "map_of (dir_headers dest items ?dirs) (target_of dest r n) = map_of ?dirs (target_of dest r n)"
    using other by (intro conjunct2 [OF IH, rule_format]) metis
  moreover have "dir_headers dest (i # items) dirs = dir_headers dest items ?dirs" by (simp add: dir_headers_def i)
  ultimately show ?case using IH by (auto simp: i update_conv')
qed (simp add: dir_headers_def)

lemma dir_headers_distinct: "distinct (map fst dirs) \<Longrightarrow> distinct (map fst (dir_headers dest items dirs))"
  by (induction items arbitrary: dirs) (auto simp: dir_headers_def distinct_update split: prod.splits)

section \<open>The round trip\<close>

definition item_ok :: "os \<Rightarrow> key \<Rightarrow> key \<times> inode \<Rightarrow> bool" where
  "item_ok s D i \<longleftrightarrow> fst i \<noteq> [] \<and> (\<forall>w \<in> set (fst i). is_name w) \<and> (kind (snd i) = KRegular \<or> kind (snd i) = KDir) \<and>
     file_at s (D @ fst i) = None"

lemma dir_header_cases:
  assumes "dest \<noteq> []" and "distinct (map fst items)" and "\<forall>i \<in> set items. item_ok s D i"
    and "(t, h) \<in> set (dir_headers dest items [])"
  obtains r n where "(r, n) \<in> set items" "kind n = KDir" "t = target_of dest r n" "h = fst (entry_of r n)"
    "resolve c t = resolve c dest @ r" "t \<noteq> []"
proof -
  have names: "r \<noteq> [] \<and> (\<forall>w \<in> set r. is_name w)" if "(r, n) \<in> set items" for r n
    using bspec [OF assms(3) that] by (simp add: item_ok_def)
  note dm = dir_headers_map [OF assms(1,2) names, where dirs = "[]"]
  have m: "map_of (dir_headers dest items []) t = Some h"
    using assms(4) by (simp add: map_of_is_SomeI dir_headers_distinct)
  then obtain r n where rn: "(r, n) \<in> set items" "kind n = KDir" "t = target_of dest r n"
    using dm by fastforce
  moreover have "h = fst (entry_of r n)" using dm m rn by force
  ultimately show thesis using entry_target [OF assms(1), of r] names [of r n] by (intro that) auto
qed

lemma dir_header_in:
  assumes "dest \<noteq> []" and "distinct (map fst items)" and "\<forall>i \<in> set items. item_ok s D i"
    and "(r, n) \<in> set items" and "kind n = KDir"
  shows "resolve c (target_of dest r n) = resolve c dest @ r"
    and "(target_of dest r n, fst (entry_of r n)) \<in> set (dir_headers dest items [])"
proof -
  have names: "q \<noteq> [] \<and> (\<forall>w \<in> set q. is_name w)" if "(q, m) \<in> set items" for q m
    using bspec [OF assms(3) that] by (simp add: item_ok_def)
  show "resolve c (target_of dest r n) = resolve c dest @ r"
    using entry_target(1) [OF assms(1)] names [OF assms(4)] by simp
  show "(target_of dest r n, fst (entry_of r n)) \<in> set (dir_headers dest items [])"
    by (rule map_of_SomeD) (use dir_headers_map [OF assms(1,2) names, where dirs = "[]"] assms(4,5) in simp)
qed

text \<open>Restoring the times of the directories just extracted, in any order, completes them.\<close>

lemma restored_items:
  assumes "dest \<noteq> []" and nf: "no_faults s1" and D: "D = resolve (cwd s1) dest" and dis: "distinct (map fst items)"
    and ok: "\<forall>i \<in> set items. item_ok s D i" and ord: "\<And>ds. set (ord ds) = set ds"
    and made: "\<And>r n. (r, n) \<in> set items \<Longrightarrow> \<exists>a m. file_at s1 (D @ r) = Some ((unpacked u n)\<lparr>atime := a, mtime := m\<rparr>) \<and>
      (kind n \<noteq> KDir \<longrightarrow> file_at s1 (D @ r) = Some (unpacked u n))"
  obtains s' where "restore_dirs (ord (dir_headers dest items [])) s1 = (Ok (), s')"
    "\<And>r n. (r, n) \<in> set items \<Longrightarrow> file_at s' (D @ r) = Some (unpacked u n)"
    "\<And>k. k \<notin> (@) D ` fst ` set items \<Longrightarrow> file_at s' k = file_at s1 k"
proof -
  let ?hs = "dir_headers dest items []"
  let ?keys = "resolve (cwd s1) ` fst ` set (ord ?hs)"
  have hs: "\<exists>r n. (r, n) \<in> set items \<and> kind n = KDir \<and> h = fst (entry_of r n) \<and> resolve (cwd s1) t = D @ r \<and> t \<noteq> []"
    if "(t, h) \<in> set (ord ?hs)" for t h
    using that unfolding ord by (rule dir_header_cases [OF assms(1) dis ok, where c = "cwd s1"]) (auto simp: D)
  have uniq: "n = n'" if "(r, n) \<in> set items" "(r, n') \<in> set items" for r n n'
    using that dis by (metis eq_key_imp_eq_value)
  have "\<exists>s'. restore_dirs (ord ?hs) s1 = (Ok (), s') \<and> (\<forall>k. k \<notin> ?keys \<longrightarrow> file_at s' k = file_at s1 k) \<and>
     (\<forall>t h. (t, h) \<in> set (ord ?hs) \<longrightarrow> file_at s' (resolve (cwd s1) t) = map_option (set_times h) (file_at s1 (resolve (cwd s1) t)))"
  proof (rule restore_exact [OF nf])
    show "t \<noteq> [] \<and> file_at s1 (resolve (cwd s1) t) \<noteq> None" if "(t, h) \<in> set (ord ?hs)" for t h
      using hs [OF that] made by fastforce
    show "h = h'" if "(t, h) \<in> set (ord ?hs)" "(t', h') \<in> set (ord ?hs)" "resolve (cwd s1) t = resolve (cwd s1) t'" for t h t' h'
      using hs [OF that(1)] hs [OF that(2)] that(3) uniq by fastforce
  qed
  then obtain s' where s': "restore_dirs (ord ?hs) s1 = (Ok (), s')" "\<And>k. k \<notin> ?keys \<Longrightarrow> file_at s' k = file_at s1 k"
    "\<And>t h. (t, h) \<in> set (ord ?hs) \<Longrightarrow> file_at s' (resolve (cwd s1) t) = map_option (set_times h) (file_at s1 (resolve (cwd s1) t))"
    by blast
  have keys: "\<exists>r n. (r, n) \<in> set items \<and> kind n = KDir \<and> k = D @ r" if "k \<in> ?keys" for k
    using that hs by fastforce
  have "file_at s' (D @ r) = Some (unpacked u n)" if rn: "(r, n) \<in> set items" for r n
  proof (cases "kind n = KDir")
    case False
    then have "D @ r \<notin> ?keys" using keys [of "D @ r"] uniq [OF rn] by auto
    then show ?thesis using s'(2) made [OF rn] False by simp
  next
    case True
    have "resolve (cwd s1) (target_of dest r n) = D @ r" "(target_of dest r n, fst (entry_of r n)) \<in> set (ord ?hs)"
      using dir_header_in(1) [OF assms(1) dis ok rn True, of "cwd s1"] dir_header_in(2) [OF assms(1) dis ok rn True] by (simp_all add: D ord)
    moreover obtain a m where "file_at s1 (D @ r) = Some ((unpacked u n)\<lparr>atime := a, mtime := m\<rparr>)" using made [OF rn] by blast
    ultimately show ?thesis using s'(3) True by (force simp: set_times_def entry_of_def unpacked_def)
  qed
  moreover have "file_at s' k = file_at s1 k" if "k \<notin> (@) D ` fst ` set items" for k
    using keys [of k] that by (intro s'(2)) force
  ultimately show thesis using that s'(1) by blast
qed

lemma ExtractTar_exact:
  assumes "fs_wf s" and "no_faults s" and "dest \<noteq> []" and D: "D = resolve (cwd s) dest" and "is_dir_at s D"
    and "grows {[]} items" and dis: "distinct (map fst items)" and ok: "\<forall>i \<in> set items. item_ok s D i"
    and ord: "\<And>ds. set (ord ds) = set ds"
  shows "\<exists>s'. ExtractTar ord (Archive (map (\<lambda>(r, n). entry_of r n) items) None) dest s = (Ok (), s') \<and>
    (\<forall>(r, n) \<in> set items. file_at s' (D @ r) = Some (unpacked (umask s) n)) \<and>
    (\<forall>k. k \<notin> (@) D ` fst ` set items \<longrightarrow> k \<noteq> D \<longrightarrow> file_at s' k = file_at s k)"
proof -
  have itm: "r \<noteq> []" "\<forall>w \<in> set r. is_name w" "kind n = KRegular \<or> kind n = KDir" "file_at s (D @ r) = None"
    if "(r, n) \<in> set items" for r n
    using bspec [OF ok that] by (simp_all add: item_ok_def)
  have "\<exists>s1. extract_entries dest (map (\<lambda>(r, n). entry_of r n) items) None [] s = (Ok (dir_headers dest items []), s1) \<and>
      extracted D {[]} items s s1"
    by (rule extract_items [OF assms(1-3) D _ assms(6) dis]) (use assms(5) itm in auto)
  then obtain s1 where run: "extract_entries dest (map (\<lambda>(r, n). entry_of r n) items) None [] s = (Ok (dir_headers dest items []), s1)"
    and ex: "extracted D {[]} items s s1" by blast
  have env: "no_faults s1" "D = resolve (cwd s1) dest"
    using ex assms(2) no_faults_env by (auto simp: extracted_def same_env_def D)
  obtain s' where "restore_dirs (ord (dir_headers dest items [])) s1 = (Ok (), s')"
    "\<And>r n. (r, n) \<in> set items \<Longrightarrow> file_at s' (D @ r) = Some (unpacked (umask s) n)"
    "\<And>k. k \<notin> (@) D ` fst ` set items \<Longrightarrow> file_at s' k = file_at s1 k"
    by (rule restored_items [OF assms(3) env dis ok ord, where u = "umask s"]) (use ex in \<open>auto simp: extracted_def\<close>)
  then show ?thesis using run extracted_frame(2) [OF ex] by (auto simp: ExtractTar_def seq_def)
qed

text \<open>A tree that can be packed: plain files and directories only, nested less deep than the stack allows.\<close>

definition packable :: "nat \<Rightarrow> os \<Rightarrow> key \<Rightarrow> bool" where
  "packable d s S \<longleftrightarrow> is_dir_at s S \<and> plain_tree s S \<and> (\<forall>t. is_dir_at s (S @ t) \<longrightarrow> length t + 2 \<le> d)"

lemma CreateTar_exact:
  assumes "fs_wf s" and "no_faults s" and "src \<noteq> []" and "packable d s (resolve (cwd s) src)" and "file_at s w = Some a"
  shows "CreateTar d wpath w src s = (Ok (), put w (a\<lparr>data := Archive (map (\<lambda>(r, n). entry_of r n)
      (items_at s (resolve (cwd s) src) (preorder d s (resolve (cwd s) src) []))) None, mtime := now s\<rparr>) s)"
proof -
  let ?S = "resolve (cwd s) src"
  obtain n where n: "file_at s ?S = Some n" using assms(4) by (auto simp: packable_def is_dir_at_iff)
  have d: "length t + 2 \<le> d" if "is_dir_at s (?S @ [] @ t)" for t using that assms(4) by (simp add: packable_def)
  have "0 < d" using d [of "[]"] assms(4) by (simp add: packable_def)
  then have "tar_walk d src src n ([], None) s = (Ok (), ([] @ entries_at s ?S (preorder d s ?S []), None))"
    using tar_walk_exact [OF assms(1,2) _ walk_path_root [OF assms(3)], of n d "[]" None] n d assms(4) by (simp add: packable_def)
  moreover have "os_Lstat src s = (Ok n, s)" using n assms(2,3) by (simp add: os_Lstat_def with_key_def lookup_key_def)
  moreover have "entries_at s ?S rs = map (\<lambda>(r, n). entry_of r n) (items_at s ?S rs)" for rs
    by (simp add: entries_at_def items_at_def)
  ultimately show ?thesis using assms(2,5) by (simp add: CreateTar_def write_handle_def)
qed

text \<open>The entries of a packed tree can all be made in an empty directory that does not hold the archive.\<close>

lemma packed_items:
  assumes "fs_wf s" and "packable d s S"
  shows "(r, n) \<in> set (items_at s S (preorder d s S [])) \<longleftrightarrow> r \<noteq> [] \<and> file_at s (S @ r) = Some n"
proof -
  have d: "length t + 2 \<le> d" if "is_dir_at s (S @ [] @ t)" for t using that assms(2) by (simp add: packable_def)
  have S: "file_at s (S @ []) \<noteq> None" "0 < d" using d [of "[]"] assms(2) is_dir_at_exists by (auto simp: packable_def)
  have rs: "set (preorder d s S []) = {t. t \<noteq> [] \<and> file_at s (S @ t) \<noteq> None}"
    using preorder_set [OF assms(1) S(1) d S(2)] by simp
  have "(r, n) \<in> set (items_at s S (preorder d s S [])) \<longleftrightarrow> r \<in> set (preorder d s S []) \<and> n = the (file_at s (S @ r))"
    unfolding items_at_def set_map by blast
  then show ?thesis unfolding rs by auto
qed

lemma packed_items_ok:
  assumes "fs_wf s" and "packable d s S" and "\<And>r. r \<noteq> [] \<Longrightarrow> file_at s1 (D @ r) = None"
  shows "\<forall>i \<in> set (items_at s S (preorder d s S [])). item_ok s1 D i"
proof
  fix i assume that: "i \<in> set (items_at s S (preorder d s S []))"
  obtain r n where i: "i = (r, n)" by (cases i)
  then have rn: "r \<noteq> []" "file_at s (S @ r) = Some n" using that packed_items [OF assms(1,2)] by auto
  have "is_name v" if "v \<in> set r" for v using fs_wf_names [OF assms(1), of "S @ r" v] rn that by simp
  moreover have "kind n = KRegular \<or> kind n = KDir" using rn assms(2) by (auto simp: packable_def plain_tree_def)
  ultimately show "item_ok s1 D i" using rn assms(3) [of r] by (auto simp: item_ok_def i)
qed

text \<open>Property C12: what is packed is unpacked. For a tree of plain files and directories, an archive file outside
  it and an empty destination, with no failing system call and in whatever order Go visits its map of
  directories, \<^verbatim>\<open>CreateTar\<close> succeeds, \<^verbatim>\<open>ExtractTar\<close> of the archive it wrote succeeds, and then
  the destination holds exactly the tree: every file with its contents, its modification time and its
  permissions less the umask, every directory with both its times; nothing else below it, and nothing
  outside it, has changed.\<close>

theorem tar_roundtrip:
  assumes "fs_wf s" and "no_faults s" and "src \<noteq> []" and "dest \<noteq> []" and "packable d s (resolve (cwd s) src)"
    and "file_at s w = Some a" and "kind a = KRegular" and "\<not> prefix (resolve (cwd s) src) w"
    and "is_dir_at s (resolve (cwd s) dest)" and "\<And>r. r \<noteq> [] \<Longrightarrow> file_at s (resolve (cwd s) dest @ r) = None"
    and "\<And>ds. set (ord ds) = set ds"
  shows "\<exists>s1 archive s2. CreateTar d wpath w src s = (Ok (), s1) \<and> map_option data (file_at s1 w) = Some archive \<and>
    ExtractTar ord archive dest s1 = (Ok (), s2) \<and>
    (\<forall>r. r \<noteq> [] \<longrightarrow> file_at s2 (resolve (cwd s) dest @ r) =
       map_option (unpacked (umask s)) (file_at s (resolve (cwd s) src @ r))) \<and>
    (\<forall>k. \<not> prefix (resolve (cwd s) dest) k \<longrightarrow> k \<noteq> w \<longrightarrow> file_at s2 k = file_at s k)"
proof -
  let ?S = "resolve (cwd s) src" and ?D = "resolve (cwd s) dest"
  let ?rs = "preorder d s ?S []"
  let ?items = "items_at s ?S ?rs"
  let ?ar = "Archive (map (\<lambda>(r, n). entry_of r n) ?items) None"
  let ?s1 = "put w (a\<lparr>data := ?ar, mtime := now s\<rparr>) s"
  note set_items = packed_items [OF assms(1,5)]
  have wD: "w \<noteq> ?D @ r" for r using assms(6,7,9,10) by (cases "r = []") (auto simp: is_dir_at_iff)
  have wf1: "fs_wf ?s1" by (rule fs_wf_put [OF assms(1,6)]) simp
  have ok: "\<forall>i \<in> set ?items. item_ok ?s1 ?D i"
    by (rule packed_items_ok [OF assms(1,5)]) (use assms(10) wD in \<open>simp add: eq_commute [of _ w]\<close>)
  have dis: "distinct (map fst ?items)" using preorder_distinct [OF assms(1)] by (simp add: items_at_def comp_def)
  have grow: "grows {[]} ?items" by (rule preorder_grows) simp
  have dir: "is_dir_at ?s1 ?D" using assms(9) wD [of "[]"] by (auto simp: is_dir_at_def)
  have nf: "no_faults ?s1" using assms(2) by simp
  have D1: "?D = resolve (cwd ?s1) dest" by simp
  obtain s2 where s2: "ExtractTar ord ?ar dest ?s1 = (Ok (), s2)"
    "\<forall>(r, n) \<in> set ?items. file_at s2 (?D @ r) = Some (unpacked (umask ?s1) n)"
    "\<forall>k. k \<notin> (@) ?D ` fst ` set ?items \<longrightarrow> k \<noteq> ?D \<longrightarrow> file_at s2 k = file_at ?s1 k"
    using ExtractTar_exact [where ord = ord, OF wf1 nf assms(4) D1 dir grow dis ok assms(11)] by (elim exE conjE)
  have "file_at s2 (?D @ r) = map_option (unpacked (umask s)) (file_at s (?S @ r))" if r: "r \<noteq> []" for r
  proof (cases "file_at s (?S @ r)")
    case None
    then have "?D @ r \<notin> (@) ?D ` fst ` set ?items" using set_items by auto
    then show ?thesis using s2(3) None assms(10) [OF r] r wD [of r] by simp
  next
    case (Some n)
    then show ?thesis using s2(2) set_items r by auto
  qed
  moreover have "file_at s2 k = file_at s k" if "\<not> prefix ?D k" "k \<noteq> w" for k
  proof -
    have "k \<notin> (@) ?D ` fst ` set ?items" "k \<noteq> ?D" using that(1) by auto
    then show ?thesis using s2(3) that(2) by simp
  qed
  ultimately show ?thesis using CreateTar_exact [OF assms(1,2,3,5,6)] s2(1)
    by (intro exI [of _ ?s1] exI [of _ ?ar] exI [of _ s2]) simp
qed

definition pack_os :: os where
  "pack_os = tree_os\<lparr>files := files tree_os @ [([''w''], tree_file)]\<rparr>"

lemma pack_facts: "fs_wf pack_os" "no_faults pack_os" "packable 2 pack_os [''a'']"
  "file_at pack_os (''b'' # r) = (if r = [] then Some tree_dir else None)"
proof -
  have at: "file_at pack_os k = (if k = [] \<or> k = [''a''] \<or> k = [''b''] then Some tree_dir
      else if k = [''a'', ''f''] \<or> k = [''w''] then Some tree_file else None)" for k
    by (auto simp: file_at_def pack_os_def tree_os_def)
  have dir: "is_dir_at pack_os k \<longleftrightarrow> k \<in> {[], [''a''], [''b'']}" for k
    by (auto simp: is_dir_at_def at tree_dir_def tree_file_def)
  have "is_dir_at pack_os k \<and> is_name n" if "file_at pack_os (k @ [n]) \<noteq> None" for k n
    using that by (auto simp: at dir is_name_def append_eq_Cons_conv split: if_splits)
  then show "fs_wf pack_os" by (auto simp: fs_wf_def dir) (auto simp: pack_os_def tree_os_def)
  show "no_faults pack_os" by (simp add: no_faults_def pack_os_def tree_os_def)
  show "packable 2 pack_os [''a'']" by (auto simp: packable_def plain_tree_def dir at tree_dir_def tree_file_def split: if_splits)
  show "file_at pack_os (''b'' # r) = (if r = [] then Some tree_dir else None)" by (simp add: at)
qed

theorem tar_roundtrip_witness:
  "\<exists>s1 archive s2. CreateTar 2 ''/w'' [''w''] ''/a'' pack_os = (Ok (), s1) \<and> map_option data (file_at s1 [''w'']) = Some archive \<and>
     ExtractTar rev archive ''/b'' s1 = (Ok (), s2) \<and> file_at s2 [''b'', ''f''] = Some (unpacked 0x12 tree_file)"
proof -
  have r: "resolve (cwd pack_os) ''/a'' = [''a'']" "resolve (cwd pack_os) ''/b'' = [''b'']" "umask pack_os = 0x12" by code_simp+
  have f: "file_at pack_os [''w''] = Some tree_file" "file_at pack_os [''a'', ''f''] = Some tree_file" "is_dir_at pack_os [''b'']"
    by (simp_all add: file_at_def is_dir_at_def pack_os_def tree_os_def tree_dir_def)
  have k: "kind tree_file = KRegular" by (simp add: tree_file_def)
  from tar_roundtrip [where src = "''/a''" and dest = "''/b''" and ord = rev and d = 2 and wpath = "''/w''",
      OF pack_facts(1,2) _ _ _ f(1) k] pack_facts(3,4) r f
  show ?thesis by force
qed

end
