(* ===== verification/BuildFlow.thy ===== *)
theory BuildFlow
  imports EndToEnd TarRoundtrip
begin

text \<open>
  The files of a build on their way: the client packs the source tree into its temporary directory,
  the pods fetch it from there through the file server and upload the result next to it, and the
  client copies the result to the peer's output directory.
\<close>

section \<open>The directory of a joined path\<close>

lemma path_Join_leaf:
  assumes "a \<noteq> []" and "is_name f"
  shows "last (slash_split (path_Join [a, f])) = f"
proof -
  let ?segs = "path_segs (a @ CHR ''/'' # f)" and ?r = "is_rooted (a @ CHR ''/'' # f)"
  have segs: "?segs = clean_segs ?r [] (slash_split a) @ [f]"
    using assms(2) by (simp add: path_segs_def split_on_append_sep clean_segs_append is_name_def)
  have ns: "w \<in> set ?segs \<Longrightarrow> CHR ''/'' \<notin> set w" for w
    using stack_ok_no_slash [OF stack_ok_path_segs [of "a @ CHR ''/'' # f"], of w] by simp
  have "path_Join [a, f] = unsegs ?r ?segs" using assms(1) by (simp add: path_Join_def path_Clean_def)
  then have "slash_split (path_Join [a, f]) = (if ?r then [[]] else []) @ ?segs"
    using split_unsegs_rooted [of ?segs ?r] ns segs by simp
  then show ?thesis using segs by simp
qed

lemma path_Dir_split:
  assumes "split_path p = (dir, leaf)"
  shows "path_Dir p = path_Clean dir"
proof -
  note s = split_path_parts [OF assms]
  have "dropWhile (\<lambda>c. c \<noteq> CHR ''/'') (rev leaf @ rev dir) = rev dir"
    using s(2,3) by (subst dropWhile_append2) (auto simp: dropWhile_eq_self_iff hd_rev)
  then show ?thesis using s(1) by (simp add: path_Dir_def)
qed

lemma resolve_path_Dir_Join:
  assumes "a \<noteq> []" and "is_name f"
  shows "resolve c (path_Dir (path_Join [a, f])) = resolve c a"
proof -
  obtain dir leaf where sp: "split_path (path_Join [a, f]) = (dir, leaf)" by fastforce
  have leaf: "leaf = f" using split_path_last [OF sp] path_Join_leaf [OF assms] by simp
  have "path_Clean [] = ''.''" by code_simp
  then have "resolve c (path_Dir (path_Join [a, f])) = resolve c (dir_of dir)"
    using path_Dir_split [OF sp] by (cases "dir = []") (simp_all add: dir_of_def)
  moreover have "resolve c a @ [f] = resolve c (dir_of dir) @ [f]"
    using resolve_split [OF sp path_Join_not_Nil [OF assms(1)], of c] assms leaf by (simp add: is_name_def)
  ultimately show ?thesis by simp
qed

section \<open>What the client writes\<close>

lemma os_MkdirAll_existing:
  "fs_wf s \<Longrightarrow> path \<noteq> [] \<Longrightarrow> is_dir_at s (resolve (cwd s) path) \<Longrightarrow> os_MkdirAll path mode s = (Ok (), s)"
  by (simp add: os_MkdirAll_def with_key_def mkdirs_existing)

lemma path_Dir_not_Nil: "path_Dir p \<noteq> []"
  by (simp add: path_Dir_def)

lemma CreateTar_state: "CreateTar d wpath w src s = (r, s') \<Longrightarrow> \<exists>c q. write_handle wpath w c s = (q, s')"
  by (auto simp: CreateTar_def split: prod.splits outcome.splits if_splits)

text \<open>Making an archive in an existing directory writes that one file and makes no directory.\<close>

lemma createTar_effect:
  assumes "fs_wf s" and "a \<noteq> []" and "is_name f" and "is_dir_at s (resolve (cwd s) a)"
    and "createTar d (path_Join [a, f]) src s = (r, s')"
  shows "step_below (resolve (cwd s) a @ [f]) s s' \<and> (\<forall>k. is_dir_at s' k = is_dir_at s k)"
proof -
  let ?k = "resolve (cwd s) a @ [f]" and ?p = "path_Clean (path_Join [a, f])"
  have mk: "os_MkdirAll (path_Dir (path_Join [a, f])) 0x1ED s = (Ok (), s)"
    using assms by (simp add: os_MkdirAll_existing path_Dir_not_Nil resolve_path_Dir_Join)
  have kp: "resolve (cwd s) ?p = ?k" using assms(2,3) by simp
  obtain q s1 where o: "os_OpenFile False ?p 0x1B6 s = (q, s1)" by fastforce
  have 1: "step_below ?k s s1" using os_OpenFile_below [OF assms(1) o] kp by simp
  have d1: "is_dir_at s1 k = is_dir_at s k" for k
    using o by (auto simp: os_OpenFile_def with_key_def is_dir_at_put is_dir_at_put_new_file kind_new_file
        split: option.splits if_splits) (auto simp: is_dir_at_iff)
  show ?thesis
  proof (cases q)
    case (Ok w)
    have w: "w = ?k" using os_OpenFile_Ok [OF o [unfolded Ok]] kp by simp
    obtain x s2 where ct: "CreateTar d ?p w src s1 = (x, s2)" by fastforce
    have "snd (close_handle ?p w s2) = s2" using close_handle_state by (metis prod.collapse)
    then have "s' = s2" using assms(5) mk o Ok ct by (cases x) (auto simp: createTar_def seq_def wrap_err_def)
    then obtain c t where wr: "write_handle ?p ?k c s1 = (t, s')" using CreateTar_state [OF ct] w by blast
    have "is_dir_at s' k = is_dir_at s1 k" for k
      using wr by (auto simp: write_handle_def is_dir_at_put split: option.splits if_splits) (auto simp: is_dir_at_iff)
    then show ?thesis
      using step_below_trans [OF 1 write_handle_below [OF step_below_wf [OF 1] wr]] d1 by simp
  qed (use assms(5) 1 d1 in \<open>auto simp: createTar_def seq_def wrap_err_def mk o\<close>)
qed

text \<open>The archive of a tree depends on the files of the tree only.\<close>

definition packed_tree :: "nat \<Rightarrow> os \<Rightarrow> key \<Rightarrow> content" where
  "packed_tree d s S = Archive (map (\<lambda>(r, n). entry_of r n) (items_at s S (preorder d s S []))) None"

lemma children_cong:
  assumes "fs_wf s" and "fs_wf s'" and "\<And>c. file_at s' (k @ [c]) = file_at s (k @ [c])"
  shows "children s' k = children s k"
  by (rule sorted_distinct_set_unique) (use assms in \<open>simp_all add: children_sorted distinct_children set_children\<close>)

lemma preorder_cong:
  assumes "fs_wf s" and "fs_wf s'" and "\<And>t. file_at s' (S @ t) = file_at s (S @ t)"
  shows "preorder d s' S r = preorder d s S r"
proof (induction d arbitrary: r)
  case (Suc d)
  have "children s' (S @ r) = children s (S @ r)"
    by (rule children_cong [OF assms(1,2)]) (use assms(3) in simp)
  then show ?case using Suc assms(3) by (simp add: is_dir_at_def)
qed simp

lemma packed_tree_cong:
  assumes "fs_wf s" and "fs_wf s'" and "\<And>t. file_at s' (S @ t) = file_at s (S @ t)"
  shows "packed_tree d s' S = packed_tree d s S" and "packable d s' S = packable d s S"
proof -
  show "packed_tree d s' S = packed_tree d s S"
    using preorder_cong [OF assms, of d "[]"] assms(3) by (simp add: packed_tree_def items_at_def)
  have "is_dir_at s' (S @ t) = is_dir_at s (S @ t)" for t using assms(3) by (simp add: is_dir_at_def)
  then show "packable d s' S = packable d s S"
    using assms(3) spec [of "\<lambda>t. is_dir_at s' (S @ t) = is_dir_at s (S @ t)" "[]"] by (simp add: packable_def plain_tree_def)
qed

text \<open>A tree that holds neither a new file nor its directory is the same before and after.\<close>

lemma step_below_tree:
  assumes "step_below (K @ [f]) s s'" and "fs_wf s" and "file_at s (K @ [f]) = None" and "is_dir_at s S" and "\<not> prefix S K"
  shows "file_at s' (S @ t) = file_at s (S @ t)"
proof (rule step_below_file [OF assms(1)])
  have "K @ [f] \<noteq> S" using assms(3,4) by (auto simp: is_dir_at_def)
  have "\<not> prefix (K @ [f]) S"
  proof
    assume "prefix (K @ [f]) S"
    then obtain u where "S = K @ [f] @ u" by (auto simp: prefix_def)
    then show False using fs_wf_prefix_dir [OF assms(2), of "K @ [f]" u] assms(3,4) is_dir_at_exists [of s S]
      by (cases "u = []") (auto simp: is_dir_at_def)
  qed
  moreover have "\<not> prefix S (K @ [f])" using assms(5) \<open>K @ [f] \<noteq> S\<close> by (auto simp: prefix_snoc)
  ultimately show "\<not> prefix (K @ [f]) (S @ t)" by (meson prefixI prefix_same_cases)
  show "S @ t \<noteq> butlast (K @ [f])" using assms(5) by auto
qed

lemma createTar_content:
  assumes "fs_wf s" and "no_faults s" and "a \<noteq> []" and "is_name f" and "is_dir_at s (resolve (cwd s) a)" and "src \<noteq> []"
    and "packable d s (resolve (cwd s) src)" and "\<not> prefix (resolve (cwd s) src) (resolve (cwd s) a)"
    and "file_at s (resolve (cwd s) a @ [f]) = None" and "createTar d (path_Join [a, f]) src s = (r, s')"
  shows "\<exists>n. file_at s' (resolve (cwd s) a @ [f]) = Some n \<and> kind n = KRegular \<and>
    data n = packed_tree d s (resolve (cwd s) src)"
proof -
  let ?K = "resolve (cwd s) a" and ?S = "resolve (cwd s) src" and ?p = "path_Clean (path_Join [a, f])"
  let ?n = "new_file s 0x1B6" and ?s1 = "put_new (?K @ [f]) (new_file s 0x1B6) s"
  have S: "is_dir_at s ?S" using assms(7) by (simp add: packable_def)
  have mk: "os_MkdirAll (path_Dir (path_Join [a, f])) 0x1ED s = (Ok (), s)"
    using assms by (simp add: os_MkdirAll_existing path_Dir_not_Nil resolve_path_Dir_Join)
  have o: "os_OpenFile False ?p 0x1B6 s = (Ok (?K @ [f]), ?s1)"
    using assms by (simp add: os_OpenFile_def with_key_def path_Clean_not_Nil)
  have 1: "step_below (?K @ [f]) s ?s1" using os_OpenFile_below [OF assms(1) o] assms(3,4) by simp
  have same: "file_at ?s1 (?S @ t) = file_at s (?S @ t)" for t
    by (rule step_below_tree [OF 1 assms(1,9) S assms(8)])
  have wf1: "fs_wf ?s1" by (rule step_below_wf [OF 1])
  have env: "cwd ?s1 = cwd s" by (simp add: put_new_env)
  have "CreateTar d ?p (?K @ [f]) src ?s1 =
      (Ok (), put (?K @ [f]) (?n\<lparr>data := packed_tree d s ?S, mtime := now ?s1\<rparr>) ?s1)"
    using CreateTar_exact [OF wf1 _ assms(6), of d "?K @ [f]" ?n ?p] packed_tree_cong [OF assms(1) wf1 same, of d] assms(2,7) env
    by (simp add: packed_tree_def file_at_put_new)
  then have "s' = put (?K @ [f]) (?n\<lparr>data := packed_tree d s ?S, mtime := now ?s1\<rparr>) ?s1"
    using assms(2,10) by (auto simp: createTar_def seq_def wrap_err_def mk o close_handle_def split: option.splits)
  then show ?thesis by (simp add: kind_new_file)
qed

section \<open>The temporary directory\<close>

lemma temp_dir_try_effect:
  "temp_dir_try k dir pat rnds s = (Ok t, s') \<Longrightarrow>
   file_at s (resolve (cwd s) t) = None \<and> is_dir_at s (butlast (resolve (cwd s) t)) \<and>
   s' = put_new (resolve (cwd s) t) (new_dir s 0x1C0) s"
  by (induction k dir pat rnds s rule: temp_dir_try.induct)
    (auto simp: Let_def mkdir_key_def split: prod.splits outcome.splits if_splits option.splits)

lemma TempDir_effect:
  assumes "ioutil_TempDir rnds dir pat s = (Ok t, s')" and "fs_wf s"
  shows "file_at s (resolve (cwd s) t) = None" and "fs_wf s'" and "cwd s' = cwd s" and "fault s' = fault s"
    and "is_dir_at s' k = (is_dir_at s k \<or> k = resolve (cwd s) t)"
    and "file_at s' k' = (if k' = resolve (cwd s) t then Some (new_dir s 0x1C0)
      else if k' = butlast (resolve (cwd s) t) then map_option (\<lambda>n. n\<lparr>mtime := now s\<rparr>) (file_at s k') else file_at s k')"
proof -
  let ?T = "resolve (cwd s) t"
  have e: "file_at s ?T = None" "is_dir_at s (butlast ?T)" "s' = put_new ?T (new_dir s 0x1C0) s"
    using temp_dir_try_effect assms(1) by (auto simp: ioutil_TempDir_def Let_def)
  show "file_at s ?T = None" by (rule e(1))
  show "fs_wf s'" unfolding e(3) by (rule fs_wf_put_new [OF assms(2) e(1,2)]) (rule fs_wf_resolve [OF assms(2)])
  show "cwd s' = cwd s" "fault s' = fault s" by (simp_all add: e(3) put_new_env)
  show "is_dir_at s' k = (is_dir_at s k \<or> k = ?T)" by (simp add: e(3) is_dir_at_put_new new_dir_def)
  show "file_at s' k' = (if k' = ?T then Some (new_dir s 0x1C0)
      else if k' = butlast ?T then map_option (\<lambda>n. n\<lparr>mtime := now s\<rparr>) (file_at s k') else file_at s k')"
    by (simp add: e(3) file_at_put_new)
qed

text \<open>The archives of a build: the source tree is packed as it is, and nothing is written elsewhere.\<close>

lemma tar_meta_inf_effect:
  assumes "fs_wf s" and "a \<noteq> []" and "is_name f" and "is_dir_at s (resolve (cwd s) a)"
    and "tar_meta_inf d (path_Join [a, f]) src s = (r, s')"
  shows "step_below (resolve (cwd s) a @ [f]) s s' \<and> (\<forall>k. is_dir_at s' k = is_dir_at s k)"
  using assms createTar_effect [OF assms(1-4)] by (auto simp: tar_meta_inf_def step_below_refl split: if_splits)

lemma send_archives_effect:
  assumes "fs_wf s" and "no_faults s" and "t \<noteq> []" and "is_dir_at s (resolve (cwd s) t)" and "src \<noteq> []"
    and "packable d s (resolve (cwd s) src)" and "\<not> prefix (resolve (cwd s) src) (resolve (cwd s) t)"
    and "file_at s (resolve (cwd s) t @ [''chaincode-source.tar'']) = None"
    and "send_archives d t src md s = (Ok (), s')"
  shows "step_below (resolve (cwd s) t) s s'" and "is_dir_at s' k = is_dir_at s k"
    and "\<exists>n. file_at s' (resolve (cwd s) t @ [''chaincode-source.tar'']) = Some n \<and> kind n = KRegular \<and>
      data n = packed_tree d s (resolve (cwd s) src)"
proof -
  let ?K = "resolve (cwd s) t"
  have nm: "is_name ''chaincode-source.tar''" "is_name ''chaincode-metadata.tar''" "is_name ''package-metadata.tar''"
    by (simp_all add: is_name_def)
  obtain s1 s2 where run: "createTar d (path_Join [t, ''chaincode-source.tar'']) src s = (Ok (), s1)"
      "tar_meta_inf d (path_Join [t, ''chaincode-metadata.tar'']) src s1 = (Ok (), s2)"
      "createTar d (path_Join [t, ''package-metadata.tar'']) md s2 = (Ok (), s')"
    using assms(9) by (auto simp: send_archives_def seq_def split: prod.splits outcome.splits)
  have 1: "step_below (?K @ [''chaincode-source.tar'']) s s1" "is_dir_at s1 k = is_dir_at s k" for k
    using createTar_effect [OF assms(1,3) nm(1) assms(4) run(1)] by auto
  note e1 = step_below_wf [OF 1(1)] step_below_env [OF 1(1)]
  have 2: "step_below (?K @ [''chaincode-metadata.tar'']) s1 s2" "is_dir_at s2 k = is_dir_at s1 k" for k
    using tar_meta_inf_effect [OF e1(1) assms(3) nm(2) _ run(2)] e1(2) 1(2) assms(4) by auto
  note e2 = step_below_wf [OF 2(1)] step_below_env [OF 2(1)]
  have 3: "step_below (?K @ [''package-metadata.tar'']) s2 s'" "is_dir_at s' k = is_dir_at s2 k" for k
    using createTar_effect [OF e2(1) assms(3) nm(3) _ run(3)] e1(2) e2(2) 1(2) 2(2) assms(4) by auto
  show "step_below ?K s s'"
    using step_below_trans [OF step_below_mono [OF 1(1)] step_below_trans [OF step_below_mono [OF 2(1)] step_below_mono [OF 3(1)]]] .
  show "is_dir_at s' k = is_dir_at s k" using 1(2) 2(2) 3(2) by simp
  have "file_at s' (?K @ [''chaincode-source.tar'']) = file_at s1 (?K @ [''chaincode-source.tar''])"
    using step_below_file [OF 3(1), of "?K @ [''chaincode-source.tar'']"] step_below_file [OF 2(1), of "?K @ [''chaincode-source.tar'']"]
    by (simp add: prefix_def)
  then show "\<exists>n. file_at s' (?K @ [''chaincode-source.tar'']) = Some n \<and> kind n = KRegular \<and>
      data n = packed_tree d s (resolve (cwd s) src)"
    using createTar_content [OF assms(1-3) nm(1) assms(4-8) run(1)] by simp
qed

section \<open>The state the pods meet\<close>

text \<open>
  Where a build takes place: the shared directory is the root of the file server, the source is a tree
  that does not hold it, and the output directory is empty and neither contains the shared directory
  nor is contained in it.
\<close>

definition build_site :: "nat \<Rightarrow> Handler \<Rightarrow> key \<Rightarrow> string \<Rightarrow> string \<Rightarrow> string \<Rightarrow> os \<Rightarrow> bool" where
  "build_site d h c dir src out s \<longleftrightarrow> serving h c s \<and> hRoot h = dir \<and> \<not> has_suffix dir ''/'' \<and>
     src \<noteq> [] \<and> packable d s (resolve c src) \<and> \<not> prefix (resolve c src) (resolve c dir) \<and>
     out \<noteq> [] \<and> is_dir_at s (resolve c out) \<and> (\<forall>r. r \<noteq> [] \<longrightarrow> file_at s (resolve c out @ r) = None) \<and>
     \<not> prefix (resolve c out) (resolve c dir) \<and> \<not> prefix (resolve c dir) (resolve c out)"

text \<open>A path that does not exist has nothing below it, and a directory elsewhere is not on the way to it.\<close>

lemma nothing_below: "fs_wf s \<Longrightarrow> file_at s k = None \<Longrightarrow> file_at s (k @ r) = None"
  using fs_wf_prefix_dir [of s k r] by (cases "r = []"; cases "file_at s (k @ r)") (auto simp: is_dir_at_def)

lemma new_place_apart:
  assumes "is_dir_at s S" and "file_at s (R @ [n]) = None" and "\<not> prefix S R"
  shows "S @ r \<noteq> R @ [n]" and "S @ r \<noteq> R" and "\<not> prefix S (R @ [n])"
proof -
  show "\<not> prefix S (R @ [n])" using assms by (auto simp: prefix_snoc is_dir_at_def)
  then show "S @ r \<noteq> R @ [n]" by (metis prefixI)
  show "S @ r \<noteq> R" using assms(3) by auto
qed

lemma parallel_places:
  assumes "\<not> prefix P R" and "\<not> prefix R P"
  shows "\<not> prefix (R @ [n]) (P @ r)" and "P @ r \<noteq> R" and "P @ r \<noteq> R @ [n]"
proof -
  have "\<not> prefix R (P @ r)" using assms by (meson prefixI prefix_same_cases)
  then show "\<not> prefix (R @ [n]) (P @ r)" "P @ r \<noteq> R" "P @ r \<noteq> R @ [n]" by (auto dest: append_prefixD)
qed

lemma request_sent:
  assumes site: "build_site d h c dir src out s" and rnds: "list_all (\<lambda>r. CHR ''/'' \<notin> set r) rnds"
    and t: "ioutil_TempDir rnds dir ''build'' s = (Ok tempDir, s1)" and a: "send_archives d tempDir src md s1 = (Ok (), s2)"
  obtains n where "is_name n" "tempDir \<noteq> []" "path_Rel dir tempDir = Ok n" "\<And>c. resolve c tempDir = resolve c dir @ [n]"
    "serving h c s2" "is_dir_at s2 (resolve c tempDir)" "\<And>r. is_dir_at s2 (resolve c tempDir @ r) \<Longrightarrow> r = []"
    "is_dir_at s2 (resolve c out)" "\<And>r. r \<noteq> [] \<Longrightarrow> file_at s2 (resolve c out @ r) = None"
    "store_of s2 (resolve c tempDir @ [''chaincode-source.tar'']) = Some (packed_tree d s (resolve c src))"
proof -
  have sv: "serving h c s" and dir: "hRoot h = dir" "\<not> has_suffix dir ''/''" "dir \<noteq> []"
    using site by (auto simp: build_site_def dest: servingD)
  have wf: "fs_wf s" and cw: "cwd s = c" using sv by (auto dest: servingD)
  obtain n where n: "is_name n" "tempDir \<noteq> []" "path_Rel dir tempDir = Ok n" "\<And>c. resolve c tempDir = resolve c dir @ [n]"
    using temp_root [OF t _ dir(3,2) rnds] by blast
  let ?T = "resolve c tempDir" and ?R = "resolve c dir" and ?S = "resolve c src" and ?O = "resolve c out"
  note te = TempDir_effect [OF t wf, unfolded cw]
  have T: "?T = ?R @ [n]" by (rule n(4))
  have newT: "file_at s (?T @ r) = None" for r by (rule nothing_below [OF wf te(1)])
  have S: "is_dir_at s ?S" "\<not> prefix ?S ?R" using site by (auto simp: build_site_def packable_def)
  note apart = new_place_apart [OF S(1) te(1) [unfolded T] S(2)]
  have sameS: "file_at s1 (?S @ r) = file_at s (?S @ r)" for r using te(6) apart T by simp
  have ST: "\<not> prefix ?S ?T" using apart(3) T by simp
  have pk: "packable d s1 ?S" "packed_tree d s1 ?S = packed_tree d s ?S"
    using packed_tree_cong [OF wf te(2) sameS, of d] site by (auto simp: build_site_def)
  have nf: "no_faults s1" using te(4) sv by (simp add: no_faults_def serving_def)
  have dT: "is_dir_at s1 (resolve (cwd s1) tempDir)" using te(3,5) by simp
  have src: "src \<noteq> []" using site by (simp add: build_site_def)
  have fresh: "file_at s1 (resolve (cwd s1) tempDir @ [''chaincode-source.tar'']) = None"
    using newT [of "[''chaincode-source.tar'']"] te(3,6) T by simp
  note se = send_archives_effect [OF te(2) nf n(2) dT src _ _ fresh a, unfolded te(3), OF pk(1) ST]
  note env = step_below_wf [OF se(1)] step_below_env [OF se(1)]
  have dirs: "is_dir_at s2 k = (is_dir_at s k \<or> k = ?T)" for k using se(2) te(5) by simp
  have sv2: "serving h c s2"
    using env te(3,4) sv dirs by (auto simp: serving_def rooted_def)
  have O: "is_dir_at s ?O" "\<not> prefix ?O ?R" "\<not> prefix ?R ?O" "\<And>r. r \<noteq> [] \<Longrightarrow> file_at s (?O @ r) = None"
    using site by (auto simp: build_site_def)
  have out: "file_at s2 (?O @ r) = None" if "r \<noteq> []" for r
    using step_below_file [OF se(1)] te(6) O(4) [OF that] parallel_places [OF O(2,3)] T by simp
  have below: "r = []" if "is_dir_at s2 (?T @ r)" for r
    using that dirs newT [of r] by (auto simp: is_dir_at_def)
  show thesis
    by (rule that [OF n sv2 _ below _ out]) (use dirs O(1) se(3) pk(2) in \<open>auto simp: store_of_def\<close>)
qed

section \<open>What comes back\<close>

text \<open>A request of a session and its answer, after the requests before it.\<close>

definition answered :: "Handler \<Rightarrow> request list \<Rightarrow> os \<Rightarrow> request \<Rightarrow> response \<Rightarrow> bool" where
  "answered h reqs s q resp \<longleftrightarrow> (\<exists>pre post. reqs = pre @ q # post \<and> resp = fst (ServeHTTP h q (snd (run_all (ServeHTTP h) pre s))))"

lemma run_all_append:
  "run_all step (qs @ qs') s = (case run_all step qs s of (rs, s1) \<Rightarrow> (case run_all step qs' s1 of (rs', s2) \<Rightarrow> (rs @ rs', s2)))"
  by (induction qs arbitrary: s) (auto split: prod.splits)

lemma answered_get:
  assumes "serving h c s" and "answered h reqs s q resp" and "qMethod q = ''GET''" and "authorized h q" and "plain_path q"
    and "store_of s (resolve c (location h q)) = Some d"
  shows "rStatus resp = 200" and "rBody resp = FileBody d"
proof -
  obtain pre post where q: "reqs = pre @ q # post" "resp = fst (ServeHTTP h q (snd (run_all (ServeHTTP h) pre s)))"
    using assms(2) by (auto simp: answered_def)
  obtain rs t where t: "run_all (ServeHTTP h) pre s = (rs, t)" by fastforce
  have "store_of t (resolve c (location h q)) = Some d"
    using file_server.run_view [OF assms(1) t] assms(6) by (metis domI map_le_def)
  then obtain n where n: "file_at t (resolve c (location h q)) = Some n" "kind n \<noteq> KDir" "data n = d"
    by (auto simp: store_of_def split: option.splits if_splits)
  note g = get_stored [OF file_server.run_inv [OF assms(1) t] assms(5) n(1,2)]
  have "ServeHTTP h q t = (http_ServeFile (contentType (location h q)) q (location h q) t, t)"
    using assms(3-5) by (auto simp: ServeHTTP_def authorized_def plain_path_def location_def Let_def)
  then show "rStatus resp = 200" and "rBody resp = FileBody d" using q(2) t g n(3) by simp_all
qed

lemma answered_put:
  assumes "serving h c s" and "answered h reqs s q resp" and "qMethod q = ''PUT''" and "rStatus resp = 201"
  shows "store_of (snd (run_all (ServeHTTP h) reqs s)) (resolve c (location h q)) = Some (fst (qBody q))"
proof -
  obtain pre post where q: "reqs = pre @ q # post" "resp = fst (ServeHTTP h q (snd (run_all (ServeHTTP h) pre s)))"
    using assms(2) by (auto simp: answered_def)
  obtain rs t where t: "run_all (ServeHTTP h) pre s = (rs, t)" by fastforce
  obtain r t1 where 1: "ServeHTTP h q t = (r, t1)" by fastforce
  obtain rs2 t2 where t2: "run_all (ServeHTTP h) post t1 = (rs2, t2)" by fastforce
  have sv: "serving h c t" by (rule file_server.run_inv [OF assms(1) t])
  have "store_of t1 (resolve c (location h q)) = Some (fst (qBody q))"
    using ServeHTTP_put_stores [OF 1 assms(3)] assms(4) q(2) t 1 servingD(3,5) [OF sv]
    by (simp add: store_of_def uploaded_def new_file_def)
  moreover have "store_of t1 \<subseteq>\<^sub>m store_of t2" by (rule file_server.run_view [OF serving_ServeHTTP(1) [OF sv 1] t2])
  moreover have "snd (run_all (ServeHTTP h) reqs s) = t2" using q(1) t 1 t2 by (simp add: run_all_append)
  ultimately show ?thesis by (metis domI map_le_def)
qed

lemma request_location:
  assumes "is_name n" and "is_name f" and "hRoot h = dir" and "dir \<noteq> []" and "tempDir \<noteq> []"
    and "\<And>c. resolve c tempDir = resolve c dir @ [n]" and "qPath q = path_Join [''/'', path_Join [n, f]]"
  shows "resolve c (location h q) = resolve c tempDir @ [f]"
  using resolve_location_join [of h "path_Join [n, f]" q c] request_path [OF assms(1,2,4,5,6)] assms(3,4,7) by simp

lemma file_at_remove_below_other:
  assumes "\<not> prefix k k'" and "k' \<noteq> butlast k"
  shows "file_at (remove_below k s) k' = file_at s k'"
proof -
  have "map_of (filter (\<lambda>(k'', _). \<not> prefix k k'') fs) k' = map_of fs k'" for fs :: "(key \<times> inode) list"
    using assms(1) by (induction fs) auto
  then show ?thesis using assms(2) by (simp add: remove_below_def file_at_touch) (simp add: file_at_def)
qed

text \<open>Copying a flat directory into an empty one, and removing the source: the files are there.\<close>

lemma copied_back:
  assumes "serving h c s" and "is_dir_at s (resolve c t)" and "\<And>r. is_dir_at s (resolve c t @ r) \<Longrightarrow> r = []"
    and "is_dir_at s (resolve c out)" and "\<And>r. r \<noteq> [] \<Longrightarrow> file_at s (resolve c out @ r) = None"
    and "\<not> prefix (resolve c t) (resolve c out)" and "\<not> prefix (resolve c out) (resolve c t)"
    and "t \<noteq> []" and "out \<noteq> []" and "CopyDir (Suc d) t out s = (Ok (), s4)" and "store_of s (resolve c t @ [f]) = Some x"
  shows "store_of (snd (os_RemoveAll t s4)) (resolve c out @ [f]) = Some x"
proof -
  let ?T = "resolve c t" and ?O = "resolve c out"
  have cw: "cwd s = c" and nf: "no_faults s" using assms(1) by (auto simp: no_faults_def dest: servingD)
  have "length r \<le> d" if "is_dir_at s (?T @ r)" for r using assms(3) [OF that] by simp
  then have "copy_ready ?T ?O UNIV d s"
    using assms(1,2,4-7) nf by (auto simp: copy_ready_def dest: servingD)
  then obtain s5 where "CopyDir (Suc d) t out s = (Ok (), s5)" and post: "copy_post ?T ?O UNIV s s5"
    using CopyDir_exact [of s t out d] cw assms(8,9) by auto
  then have s5: "s5 = s4" using assms(10) by simp
  obtain n where n: "file_at s (?T @ [f]) = Some n" "kind n \<noteq> KDir" "data n = x"
    using assms(11) by (auto simp: store_of_def split: option.splits if_splits)
  have "file_at s4 (?O @ [f]) = Some (copy_of (umask s) n None)"
    using post s5 n(1) assms(5) [of "[f]"] by (simp add: copy_post_def)
  then have "store_of s4 (?O @ [f]) = Some x" using n(2,3) by (simp add: store_of_def copy_of_def)
  moreover have "store_of (snd (os_RemoveAll t s4)) (?O @ [f]) = store_of s4 (?O @ [f])"
  proof -
    have "\<not> prefix ?T (?O @ [f])"
      using assms(6,7) by (meson prefixI prefix_same_cases)
    moreover have "?O @ [f] \<noteq> butlast ?T"
      using assms(7) by (metis append_assoc append_butlast_last_id butlast.simps(1) prefixI snoc_eq_iff_butlast)
    moreover have "cwd s4 = c" using post s5 cw by (simp add: copy_post_def same_env_def)
    ultimately show ?thesis by (auto simp: os_RemoveAll_def Let_def store_of_def file_at_remove_below_other split: option.split)
  qed
  ultimately show ?thesis by simp
qed

section \<open>The property\<close>

text \<open>Property C4: a build moves the right bytes. Suppose the build command, connected to the server, returns
  without an error on a site as described by \<open>build_site\<close>. Then for the name of its temporary
  directory, and whatever requests the file server got in whatever order: every authorized download
  from the URL path of the source archive that the pods are given was answered with 200 and the archive
  of exactly the source tree the command was given; and if an upload to the URL path of the output was
  answered with 201, the output directory at the end holds exactly the uploaded bytes.\<close>

theorem build_moves_files:
  assumes "eof_means_ok tr" and "fst (IsExternalCC md s) \<noteq> Ok True"
    and "build_site (Suc d) h c (SharedPath b) src out s" and "list_all (\<lambda>r. CHR ''/'' \<notin> set r) rnds"
    and "Build_Run (Suc d) fl rnds (build_conn tr kc b rnd sched senv h reqs w) (SharedPath b) (src # md # out # rest) s = (Ok rc, text, s')"
  shows "\<exists>tempDir s1 n s2. ioutil_TempDir rnds (SharedPath b) ''build'' s = (Ok tempDir, s1) \<and>
    path_Rel (SharedPath b) tempDir = Ok n \<and> send_archives (Suc d) tempDir src md s1 = (Ok (), s2) \<and>
    (\<forall>q resp. answered h reqs s2 q resp \<longrightarrow> qMethod q = ''GET'' \<longrightarrow> authorized h q \<longrightarrow> plain_path q \<longrightarrow>
       qPath q = path_Join [''/'', brSourcePath (build_request n)] \<longrightarrow>
       rStatus resp = 200 \<and> rBody resp = FileBody (packed_tree (Suc d) s (resolve c src))) \<and>
    (\<forall>q resp. answered h reqs s2 q resp \<longrightarrow> qMethod q = ''PUT'' \<longrightarrow> rStatus resp = 201 \<longrightarrow>
       qPath q = path_Join [''/'', brOutputPath (build_request n)] \<longrightarrow>
       store_of s' (resolve c out @ [''chaincode-output.tar'']) = Some (fst (qBody q)))"
  using assms(5,2)
proof (cases rule: Build_Run_Ok)
  case (1 tempDir root s1 s2 s3 s4 ms)
  have s3: "s3 = snd (run_all (ServeHTTP h) reqs s2)" using build_conn_Ok [OF assms(1) 1(5)] by blast
  have dir: "hRoot h = SharedPath b" "SharedPath b \<noteq> []" "out \<noteq> []"
    and O: "\<not> prefix (resolve c out) (resolve c (SharedPath b))" "\<not> prefix (resolve c (SharedPath b)) (resolve c out)"
    using assms(3) by (auto simp: build_site_def dest: servingD)
  obtain n where n: "is_name n" "tempDir \<noteq> []" "path_Rel (SharedPath b) tempDir = Ok n"
      "\<And>c. resolve c tempDir = resolve c (SharedPath b) @ [n]" and sv: "serving h c s2"
    and tmp: "is_dir_at s2 (resolve c tempDir)" "\<And>r. is_dir_at s2 (resolve c tempDir @ r) \<Longrightarrow> r = []"
    and od: "is_dir_at s2 (resolve c out)" "\<And>r. r \<noteq> [] \<Longrightarrow> file_at s2 (resolve c out @ r) = None"
    and src: "store_of s2 (resolve c tempDir @ [''chaincode-source.tar'']) = Some (packed_tree (Suc d) s (resolve c src))"
    by (rule request_sent [OF assms(3,4) 1(2,4)]) blast
  have loc: "resolve c (location h q) = resolve c tempDir @ [f]"
    if "is_name f" "qPath q = path_Join [''/'', path_Join [n, f]]" for q f
    by (rule request_location [OF n(1) that(1) dir(1,2) n(2,4) that(2)])
  have get: "rStatus resp = 200 \<and> rBody resp = FileBody (packed_tree (Suc d) s (resolve c src))"
    if "answered h reqs s2 q resp" "qMethod q = ''GET''" "authorized h q" "plain_path q"
      "qPath q = path_Join [''/'', brSourcePath (build_request n)]" for q resp
    using answered_get [OF sv that(1-4)] loc [of "''chaincode-source.tar''" q] that(5) src
    by (simp add: build_request_def is_name_def)
  have put: "store_of s' (resolve c out @ [''chaincode-output.tar'']) = Some (fst (qBody q))"
    if "answered h reqs s2 q resp" "qMethod q = ''PUT''" "rStatus resp = 201"
      "qPath q = path_Join [''/'', brOutputPath (build_request n)]" for q resp
  proof -
    obtain rs where run: "run_all (ServeHTTP h) reqs s2 = (rs, s3)" using s3 by (metis prod.collapse)
    note k = run_all_rooted [OF servingD(1) [OF sv] run] file_server.run_inv [OF sv run]
    have out: "file_at s3 (resolve c out @ r) = None" if "r \<noteq> []" for r
    proof -
      have "\<not> prefix (resolve c (hRoot h)) (resolve c out @ r)" using O dir(1) by (metis prefixI prefix_same_cases)
      then show ?thesis using k(3) od(2) [OF that] by simp
    qed
    have apart: "\<not> prefix (resolve c tempDir) (resolve c out)" "\<not> prefix (resolve c out) (resolve c tempDir)"
      using O unfolding n(4) by (auto simp: prefix_snoc dest: append_prefixD)
    have "store_of s3 (resolve c tempDir @ [''chaincode-output.tar'']) = Some (fst (qBody q))"
      using answered_put [OF sv that(1-3)] loc [of "''chaincode-output.tar''" q] that(4) s3
      by (simp add: build_request_def is_name_def)
    then show ?thesis
      using copied_back [OF k(4) _ _ _ out apart n(2) dir(3) 1(8)] k(1) tmp od(1) 1(9) by simp
  qed
  show ?thesis using 1(2,4) n(3) get put by blast
qed

lemma e2e_file_at: "file_at e2e_os k =
   (if k = [] \<or> k = [''shared''] \<or> k = [''src''] \<or> k = [''md''] \<or> k = [''out''] then Some sample_dir
    else if k = [''src'', ''main.go''] then Some (sample_file (Raw ''package main''))
    else if k = [''md'', ''metadata.json''] then Some (sample_file (Raw (json_object [(''path'', ''cc''), (''type'', ''golang'')])))
    else None)"
  by (simp add: file_at_def e2e_os_def)

lemma e2e_dir: "is_dir_at e2e_os k = (k = [] \<or> k = [''shared''] \<or> k = [''src''] \<or> k = [''md''] \<or> k = [''out''])"
  by (simp add: is_dir_at_def e2e_file_at sample_dir_def sample_file_def)

lemma e2e_files: "file_at e2e_os k \<noteq> None \<longleftrightarrow>
  k = [] \<or> k \<in> {[''shared''], [''src''], [''md''], [''out''], [''src'', ''main.go''], [''md'', ''metadata.json'']}"
  unfolding e2e_file_at by (simp split: if_split)

lemma e2e_wf: "fs_wf e2e_os"
proof -
  have "cwd e2e_os = []" "distinct (map fst (files e2e_os))" by (simp_all add: e2e_os_def sample_os_def)
  moreover have "is_dir_at e2e_os k \<and> is_name n" if "file_at e2e_os (k @ [n]) \<noteq> None" for k n
  proof -
    have "(k, n) \<in> {([], ''shared''), ([], ''src''), ([], ''md''), ([], ''out''), ([''src''], ''main.go''), ([''md''], ''metadata.json'')}"
      using that unfolding e2e_files by (cases k rule: rev_cases) auto
    then show ?thesis unfolding e2e_dir by (elim insertE emptyE) (simp_all add: is_name_def)
  qed
  ultimately show ?thesis by (simp add: fs_wf_def e2e_dir)
qed

lemma e2e_none: "file_at e2e_os (''out'' # k # ks) = None"
  by (simp add: e2e_file_at)

lemma e2e_site: "build_site (Suc 2) demo_handler [] ''/shared'' ''/src'' ''/out'' e2e_os"
proof -
  have r: "resolve [] ''/shared'' = [''shared'']" "resolve [] ''/src'' = [''src'']" "resolve [] ''/out'' = [''out'']"
    "\<not> has_suffix ''/shared'' ''/''" by code_simp+
  have "plain_tree e2e_os [''src'']"
    by (simp add: plain_tree_def e2e_file_at sample_dir_def sample_file_def)
  then have p: "packable (Suc 2) e2e_os [''src'']" by (simp add: packable_def e2e_dir)
  have root: "hRoot demo_handler = ''/shared''" by (simp add: demo_handler_def)
  have "cwd e2e_os = []" "\<forall>op k. fault e2e_os op k = None" by (simp_all add: e2e_os_def sample_os_def)
  then have sv: "serving demo_handler [] e2e_os"
    using e2e_wf r(1) by (simp add: serving_def rooted_def root e2e_dir)
  have "\<forall>k. k \<noteq> [] \<longrightarrow> file_at e2e_os ([''out''] @ k) = None"
    by (auto simp: e2e_none neq_Nil_conv)
  then show ?thesis using sv p r(4) unfolding build_site_def root r by (simp add: e2e_dir)
qed

theorem build_moves_files_witness:
  "\<exists>text s'. Build_Run 3 (\<lambda>_. None) [''1''] e2e_conn ''/shared'' [''/src'', ''/md'', ''/out''] e2e_os = (Ok 0, text, s') \<and>
     store_of s' [''out'', ''chaincode-output.tar''] = Some (Raw ''output'')"
proof -
  obtain msg s' where run: "Build_Run 3 (\<lambda>_. None) [''1''] e2e_conn ''/shared'' [''/src'', ''/md'', ''/out''] e2e_os = (Ok 0, msg, s')"
    using e2e_succeeds by blast
  have sp: "SharedPath sample_server = ''/shared''" by (simp add: sample_server_def)
  let ?resp = "fst (ServeHTTP demo_handler e2e_put e2e_s2)"
  have ans: "answered demo_handler [e2e_put] e2e_s2 e2e_put ?resp"
    unfolding answered_def by (intro exI [of _ "[]"]) simp
  have put: "rStatus ?resp = 201" "qPath e2e_put = path_Join [''/'', brOutputPath (build_request ''build1'')]"
    "resolve [] ''/out'' = [''out'']" by code_simp+
  have q: "qMethod e2e_put = ''PUT''" "fst (qBody e2e_put) = Raw ''output''" by (simp_all add: e2e_put_def demo_fields)
  have ext: "fst (IsExternalCC ''/md'' e2e_os) \<noteq> Ok True" using e2e_steps(1) by simp
  have three: "Suc 2 = 3" by simp
  from build_moves_files [where d = 2, unfolded three, OF e2e_transport_ok ext e2e_site [folded sp, unfolded three] _ run [unfolded e2e_conn_def, folded sp]]
  have "store_of s' [''out'', ''chaincode-output.tar''] = Some (fst (qBody e2e_put))"
    using ans put q e2e_start e2e_steps(3) by (simp add: sp numeral_3_eq_3)
  then show ?thesis using run q by simp
qed

end
