(* ===== verification/MetadataFlow.thy ===== *)
theory MetadataFlow
  imports BuildFlow
begin

text \<open>
  The chaincode metadata of a build on its way: the client packs the peer's metadata directory into
  its temporary directory and names the archive in its request; the server finds the archive by the
  path of the request and \<^verbatim>\<open>metadata.json\<close> in it. What the server reads is the file the peer gave.
\<close>

section \<open>The archive of a directory\<close>

lemma find_metadata_only:
  assumes "(h, x) \<in> set es" and "hName h = ''metadata.json''"
    and "\<And>h' x'. (h', x') \<in> set es \<Longrightarrow> hName h' = ''metadata.json'' \<Longrightarrow> x' = x"
  shows "find_metadata es e = Ok x"
  using assms
proof (induction es e rule: find_metadata.induct)
  case (3 hdr y es e)
  show ?case
  proof (cases "hName hdr = ''metadata.json''")
    case True
    then show ?thesis using 3(4) [of hdr y] by simp
  next
    case False
    then have "(h, x) \<noteq> (hdr, y)" using 3(3) by blast
    then have "(h, x) \<in> set es" using 3(2) by (simp only: list.set(2) insert_iff) simp
    then have "find_metadata es e = Ok x" by (rule 3(1) [OF False _ 3(3)]) (rule 3(4) [OF list.set_intros(2)])
    then show ?thesis using False by simp
  qed
qed simp_all

lemma entry_named:
  assumes "r \<noteq> []" and "\<And>w. w \<in> set r \<Longrightarrow> is_name w" and "is_name f"
  shows "hName (fst (entry_of r n)) = f \<longleftrightarrow> r = [f] \<and> kind n \<noteq> KDir"
proof -
  have join: "slash_split (join_with ''/'' r) = r"
    using assms(1,2) by (intro split_join) (auto simp: is_name_def)
  have "slash_split (join_with ''/'' [f]) = [f]"
    using assms(3) by (intro split_join) (auto simp: is_name_def)
  with join have "join_with ''/'' r = join_with ''/'' [f] \<longleftrightarrow> r = [f]" by metis
  then have "join_with ''/'' r = f \<longleftrightarrow> r = [f]" by simp
  moreover have "join_with ''/'' r @ ''/'' \<noteq> f" using assms(3) by (auto simp: is_name_def)
  ultimately show ?thesis by (auto simp: entry_of_def)
qed

lemma find_metadata_packed:
  assumes "fs_wf s" and "packable d s S" and "file_at s (S @ [''metadata.json'']) = Some n" and "kind n \<noteq> KDir"
  shows "find_metadata (fst (tar_entries (packed_tree d s S))) (snd (tar_entries (packed_tree d s S))) = Ok (data n)"
proof -
  let ?es = "map (\<lambda>(r, n). entry_of r n) (items_at s S (preorder d s S []))" and ?m = "''metadata.json''"
  have name: "is_name ?m" by (simp add: is_name_def)
  have item: "(r, k) \<in> set (items_at s S (preorder d s S [])) \<longleftrightarrow> r \<noteq> [] \<and> file_at s (S @ r) = Some k" for r k
    by (rule packed_items [OF assms(1,2)])
  have named: "hName (fst (entry_of r k)) = ?m \<longleftrightarrow> r = [?m] \<and> kind k \<noteq> KDir" if "r \<noteq> []" "file_at s (S @ r) = Some k" for r k
    by (rule entry_named [OF that(1) _ name]) (use fs_wf_names [OF assms(1), of "S @ r"] that(2) in simp)
  obtain h x where h: "entry_of [?m] n = (h, x)" by (cases "entry_of [?m] n")
  have x: "x = data n" using h assms(4) by (auto simp: entry_of_def)
  have "find_metadata ?es None = Ok (data n)"
  proof (rule find_metadata_only [of h])
    have "([?m], n) \<in> set (items_at s S (preorder d s S []))" using item assms(3) by simp
    then have "entry_of [?m] n \<in> set ?es" by force
    then show "(h, data n) \<in> set ?es" using h x by simp
    show "hName h = ?m" using named [of "[?m]" n] assms(3,4) h by simp
    show "x' = data n" if "(h', x') \<in> set ?es" "hName h' = ?m" for h' x'
    proof -
      from that(1) have "\<exists>i \<in> set (items_at s S (preorder d s S [])). (h', x') = (case i of (r, n) \<Rightarrow> entry_of r n)"
        unfolding set_map image_iff .
      then obtain r k where r: "(r, k) \<in> set (items_at s S (preorder d s S []))" "entry_of r k = (h', x')"
        by (metis (no_types, lifting) case_prod_conv surj_pair)
      then have "r = [?m]" using named [of r k] item that(2) by simp
      then show ?thesis using r item assms(3) h x by simp
    qed
  qed
  then show ?thesis by (simp add: packed_tree_def)
qed

section \<open>The archive in the temporary directory\<close>

lemma send_metadata_effect:
  assumes "fs_wf s" and "no_faults s" and "t \<noteq> []" and "is_dir_at s (resolve (cwd s) t)"
    and "\<And>r. r \<noteq> [] \<Longrightarrow> file_at s (resolve (cwd s) t @ r) = None" and "md \<noteq> []"
    and "packable d s (resolve (cwd s) md)" and "\<not> prefix (resolve (cwd s) md) (resolve (cwd s) t)"
    and "send_archives d t src md s = (Ok (), s')"
  shows "store_of s' (resolve (cwd s) t @ [''package-metadata.tar'']) = Some (packed_tree d s (resolve (cwd s) md))"
proof -
  let ?K = "resolve (cwd s) t" and ?M = "resolve (cwd s) md"
  have nm: "is_name ''chaincode-source.tar''" "is_name ''chaincode-metadata.tar''" "is_name ''package-metadata.tar''"
    by (simp_all add: is_name_def)
  obtain s1 s2 where run: "createTar d (path_Join [t, ''chaincode-source.tar'']) src s = (Ok (), s1)"
      "tar_meta_inf d (path_Join [t, ''chaincode-metadata.tar'']) src s1 = (Ok (), s2)"
      "createTar d (path_Join [t, ''package-metadata.tar'']) md s2 = (Ok (), s')"
    using assms(9) by (auto simp: send_archives_def seq_def split: prod.splits outcome.splits)
  have M: "is_dir_at s ?M" using assms(7) by (simp add: packable_def)
  have 1: "step_below (?K @ [''chaincode-source.tar'']) s s1" "is_dir_at s1 k = is_dir_at s k" for k
    using createTar_effect [OF assms(1,3) nm(1) assms(4) run(1)] by auto
  note e1 = step_below_wf [OF 1(1)] step_below_env [OF 1(1)]
  have 2: "step_below (?K @ [''chaincode-metadata.tar'']) s1 s2" "is_dir_at s2 k = is_dir_at s1 k" for k
    using tar_meta_inf_effect [OF e1(1) assms(3) nm(2) _ run(2)] e1(2) 1(2) assms(4) by auto
  note e2 = step_below_wf [OF 2(1)] step_below_env [OF 2(1)]
  have new1: "file_at s1 (?K @ [f]) = None" if "f \<noteq> ''chaincode-source.tar''" for f
    using step_below_file [OF 1(1), of "?K @ [f]"] assms(5) [of "[f]"] that by (auto simp: prefix_def)
  have new2: "file_at s2 (?K @ [''package-metadata.tar'']) = None"
    using step_below_file [OF 2(1), of "?K @ [''package-metadata.tar'']"] new1 [of "''package-metadata.tar''"] by (auto simp: prefix_def)
  have same: "file_at s2 (?M @ r) = file_at s (?M @ r)" for r
    using step_below_tree [OF 1(1) assms(1) assms(5) M assms(8)]
      step_below_tree [OF 2(1) e1(1) new1 _ assms(8)] 1(2) M by simp
  have cw: "cwd s2 = cwd s" and nf: "no_faults s2" using e1 e2 assms(2) by (auto simp: no_faults_def)
  note pk = packed_tree_cong [OF assms(1) e2(1) same, of d]
  obtain n where "file_at s' (?K @ [''package-metadata.tar'']) = Some n" "kind n = KRegular" "data n = packed_tree d s ?M"
    using createTar_content [OF e2(1) nf assms(3) nm(3) _ assms(6) _ _ _ run(3)] cw 1(2) 2(2) assms(4,7,8) new2 pk by auto
  then show ?thesis by (simp add: store_of_def)
qed

text \<open>Where the peer's metadata directory may be: outside the tree that holds the shared directory.\<close>

definition metadata_site :: "nat \<Rightarrow> key \<Rightarrow> string \<Rightarrow> string \<Rightarrow> os \<Rightarrow> bool" where
  "metadata_site d c dir md s \<longleftrightarrow> md \<noteq> [] \<and> packable d s (resolve c md) \<and> \<not> prefix (resolve c md) (resolve c dir)"

lemma metadata_sent:
  assumes site: "build_site d h c dir src out s" and md: "metadata_site d c dir md s"
    and t: "ioutil_TempDir rnds dir ''build'' s = (Ok tempDir, s1)" and a: "send_archives d tempDir src md s1 = (Ok (), s2)"
    and n: "tempDir \<noteq> []" "resolve c tempDir = resolve c dir @ [n]"
  shows "store_of s2 (resolve c tempDir @ [''package-metadata.tar'']) = Some (packed_tree d s (resolve c md))"
proof -
  have sv: "serving h c s" using site by (simp add: build_site_def)
  then have wf: "fs_wf s" and cw: "cwd s = c" by (auto dest: servingD)
  let ?T = "resolve c tempDir" and ?M = "resolve c md"
  note te = TempDir_effect [OF t wf, unfolded cw]
  have M: "is_dir_at s ?M" "\<not> prefix ?M (resolve c dir)" using md by (auto simp: metadata_site_def packable_def)
  note apart = new_place_apart [OF M(1) te(1) [unfolded n(2)] M(2)]
  have same: "file_at s1 (?M @ r) = file_at s (?M @ r)" for r using te(6) apart n(2) by simp
  note pk = packed_tree_cong [OF wf te(2) same, of d]
  have fresh: "file_at s1 (?T @ r) = None" if "r \<noteq> []" for r
  proof -
    have "?T @ r \<noteq> ?T" "?T @ r \<noteq> butlast ?T" using that n(2) by auto
    then show ?thesis using te(6) [of "?T @ r"] nothing_below [OF wf te(1), of r] by simp
  qed
  have "no_faults s1" using te(4) sv by (simp add: no_faults_def serving_def)
  then show ?thesis
    using send_metadata_effect [OF te(2) _ n(1) _ _ _ _ _ a, unfolded te(3)] te(5) fresh md apart(3) n(2) pk
    by (simp add: metadata_site_def)
qed

lemma extract_packed:
  assumes "\<not> containsDotDot p" and "no_faults v" and "store_of v (resolve (cwd v) (path_Join [SharedPath b, p])) = Some a"
    and "find_metadata (fst (tar_entries a)) (snd (tar_entries a)) = Ok x"
  shows "fst (extractChaincodeMetadata b p v) = (case unmarshal_content [''path'', ''type''] x of
      Ok vs \<Rightarrow> Ok \<lparr>mdPath = vs ! 0, mdType = vs ! 1\<rparr> | Err e \<Rightarrow> Err e | Panic q \<Rightarrow> Panic q)"
proof -
  obtain n where "file_at v (resolve (cwd v) (path_Join [SharedPath b, p])) = Some n" "kind n \<noteq> KDir" "data n = a"
    using assms(3) by (auto simp: store_of_def split: option.splits if_splits)
  then show ?thesis using assms(1,2,4)
    by (auto simp: extractChaincodeMetadata_def Let_def seq_def os_Open_def with_key_def lookup_key_def read_handle_def ret_def
        lift_outcome_def split: outcome.split)
qed

section \<open>The property\<close>

text \<open>Property C17: the paths of a build request mean the same to the server as to the client, and the server
  reads the metadata the peer gave. Suppose a build command, on a site as described by \<open>build_site\<close> with a
  metadata directory that holds \<^verbatim>\<open>metadata.json\<close>, has returned without an error, over whatever
  connection. The request it sent was \<open>build_request n\<close> for the name \<open>n\<close> of its temporary directory: each
  of the three paths in it passes the server's check for parent elements, and joined with the server's shared
  path names an entry of the temporary directory; and at the moment of the request the server,
  in the environment of its own process, finds behind the metadata path exactly the path and type that
  \<^verbatim>\<open>metadata.json\<close> of the metadata directory gives, or fails the way decoding that file fails.\<close>

theorem build_metadata_reaches_server:
  assumes "fst (IsExternalCC md s) \<noteq> Ok True" and "build_site (Suc d) h c (SharedPath b) src out s"
    and "metadata_site (Suc d) c (SharedPath b) md s" and "store_of s (resolve c md @ [''metadata.json'']) = Some x"
    and "list_all (\<lambda>r. CHR ''/'' \<notin> set r) rnds"
    and "Build_Run (Suc d) fl rnds conn (SharedPath b) (src # md # out # rest) s = (Ok rc, text, s')"
  shows "\<exists>tempDir s1 n s2 answer s3. ioutil_TempDir rnds (SharedPath b) ''build'' s = (Ok tempDir, s1) \<and>
    path_Rel (SharedPath b) tempDir = Ok n \<and> send_archives (Suc d) tempDir src md s1 = (Ok (), s2) \<and>
    client_Build conn (build_request n) s2 = (Inr answer, s3) \<and>
    (\<forall>p \<in> {brSourcePath (build_request n), brMetadataPath (build_request n), brOutputPath (build_request n)}.
      \<not> containsDotDot p \<and> (\<exists>f. is_name f \<and> resolve c (path_Join [SharedPath b, p]) = resolve c tempDir @ [f])) \<and>
    (\<forall>senv. fst (extractChaincodeMetadata b (brMetadataPath (build_request n)) (server_view senv s2)) =
      (case unmarshal_content [''path'', ''type''] x of
         Ok vs \<Rightarrow> Ok \<lparr>mdPath = vs ! 0, mdType = vs ! 1\<rparr> | Err e \<Rightarrow> Err e | Panic q \<Rightarrow> Panic q))"
  using assms(6,1)
proof (cases rule: Build_Run_Ok)
  case (1 tempDir root s1 s2 s3 s4 ms)
  have sv0: "serving h c s" and dir: "SharedPath b \<noteq> []" using assms(2) by (auto simp: build_site_def dest: servingD)
  obtain n where n: "is_name n" "tempDir \<noteq> []" "path_Rel (SharedPath b) tempDir = Ok n"
      "\<And>c. resolve c tempDir = resolve c (SharedPath b) @ [n]" and sv: "serving h c s2"
    by (rule request_sent [OF assms(2,5) 1(2,4)]) blast
  note p = request_path [OF n(1) _ dir n(2,4)]
  have nm: "is_name ''chaincode-source.tar''" "is_name ''package-metadata.tar''" "is_name ''chaincode-output.tar''"
    by (simp_all add: is_name_def)
  have paths: "\<forall>p \<in> {brSourcePath (build_request n), brMetadataPath (build_request n), brOutputPath (build_request n)}.
      \<not> containsDotDot p \<and> (\<exists>f. is_name f \<and> resolve c (path_Join [SharedPath b, p]) = resolve c tempDir @ [f])"
    using p nm by (auto simp: build_request_def containsDotDot_iff)
  obtain k where k: "file_at s (resolve c md @ [''metadata.json'']) = Some k" "kind k \<noteq> KDir" "data k = x"
    using assms(4) by (auto simp: store_of_def split: option.splits if_splits)
  have found: "find_metadata (fst (tar_entries (packed_tree (Suc d) s (resolve c md))))
      (snd (tar_entries (packed_tree (Suc d) s (resolve c md)))) = Ok x"
    using find_metadata_packed [OF servingD(2) [OF sv0] _ k(1,2)] assms(3) k(3) by (simp add: metadata_site_def)
  have "fst (extractChaincodeMetadata b (brMetadataPath (build_request n)) (server_view senv s2)) =
      (case unmarshal_content [''path'', ''type''] x of
         Ok vs \<Rightarrow> Ok \<lparr>mdPath = vs ! 0, mdType = vs ! 1\<rparr> | Err e \<Rightarrow> Err e | Panic q \<Rightarrow> Panic q)" for senv
  proof (rule extract_packed [OF _ _ _ found])
    have v: "no_faults (server_view senv s2)" "cwd (server_view senv s2) = c" "store_of (server_view senv s2) = store_of s2"
      using sv by (auto simp: no_faults_def server_view_def store_of_def file_at_def fun_eq_iff dest: servingD)
    show "no_faults (server_view senv s2)" by (rule v(1))
    show "\<not> containsDotDot (brMetadataPath (build_request n))" using paths by blast
    show "store_of (server_view senv s2) (resolve (cwd (server_view senv s2)) (path_Join [SharedPath b, brMetadataPath (build_request n)])) =
        Some (packed_tree (Suc d) s (resolve c md))"
      using metadata_sent [OF assms(2,3) 1(2,4) n(2,4)] p(2) [OF nm(2)] v(2,3) by (simp add: build_request_def)
  qed
  then show ?thesis using 1(2,4,5) paths n(3) 1(3) by (intro exI conjI) auto
qed

theorem build_metadata_reaches_server_witness:
  "\<exists>tempDir n s2. path_Rel ''/shared'' tempDir = Ok n \<and>
    fst (extractChaincodeMetadata sample_server (brMetadataPath (build_request n)) (server_view Map.empty s2)) =
      Ok \<lparr>mdPath = ''cc'', mdType = ''golang''\<rparr>"
proof -
  obtain msg s' where run: "Build_Run 3 (\<lambda>_. None) [''1''] e2e_conn ''/shared'' [''/src'', ''/md'', ''/out''] e2e_os = (Ok 0, msg, s')"
    using e2e_succeeds by blast
  have sp: "SharedPath sample_server = ''/shared''" by (simp add: sample_server_def)
  have ext: "fst (IsExternalCC ''/md'' e2e_os) \<noteq> Ok True" using e2e_steps(1) by simp
  have three: "Suc 2 = 3" by simp
  have r: "resolve [] ''/md'' = [''md'']" "resolve [] ''/shared'' = [''shared'']" by code_simp+
  have "plain_tree e2e_os [''md'']" by (simp add: plain_tree_def e2e_file_at sample_dir_def sample_file_def)
  then have site: "metadata_site 3 [] ''/shared'' ''/md'' e2e_os"
    by (simp add: metadata_site_def packable_def e2e_dir r)
  let ?x = "Raw (json_object [(''path'', ''cc''), (''type'', ''golang'')])"
  have x: "store_of e2e_os (resolve [] ''/md'' @ [''metadata.json'']) = Some ?x"
    by (simp add: store_of_def e2e_file_at r sample_file_def)
  have u: "unmarshal_content [''path'', ''type''] ?x = Ok [''cc'', ''golang'']" by code_simp
  from build_metadata_reaches_server [where d = 2, unfolded three,
      OF ext e2e_site [folded sp, unfolded three] site [folded sp] x _ run [folded sp]]
  show ?thesis by (simp add: sp u numeral_2_eq_2) blast
qed

end
