(* ===== verification/RunFlow.thy ===== *)
theory RunFlow
  imports BuildFlow
begin

text \<open>
  The run command with the handler of the server as the other end of its connection: what a command
  that returned without an error has gone through, and the way of the built chaincode and of the
  peer's TLS material from the output of the build to the pod that runs it.
\<close>

section \<open>The connection\<close>

definition run_conn :: "transport \<Rightarrow> 'k kube \<Rightarrow> Server \<Rightarrow> 8 word list option \<Rightarrow> step list \<Rightarrow> (string \<Rightarrow> string option) \<Rightarrow>
    Handler \<Rightarrow> request list \<Rightarrow> 'k world \<Rightarrow> (RunRequest, RunResponse, os) grpc_conn" where
  "run_conn tr kc b rnd sched = served tr (Run kc b rnd sched) run_Log"

lemmas run_conn_Ok = served_Ok [where handle = "Run kc b rnd sched" and log = run_Log for kc b rnd sched,
    folded run_conn_def, where m = "''/sidecar.Runner/Run''", folded client_Run_def]

text \<open>The files the command puts in its temporary directory.\<close>

definition place_run_files :: "string \<Rightarrow> string \<Rightarrow> string \<Rightarrow> unit sys" where
  "place_run_files tempDir out pmd =
     seq (CopyFile (path_Join [out, ''chaincode-output.tar'']) (path_Join [tempDir, ''chaincode-output.tar''])) (\<lambda>_.
     seq (CopyFile (path_Join [out, ''package-metadata.tar'']) (path_Join [tempDir, ''package-metadata.tar''])) (\<lambda>_.
     CopyFile (path_Join [pmd, ''chaincode.json'']) (path_Join [tempDir, ''chaincode.json''])))"

text \<open>What a run command that returned without an error has gone through.\<close>

lemma Run_Run_Ok:
  assumes "Run_Run rnds conn dir (out # pmd # rest) s = (Ok rc, text, s')"
  obtains tempDir root s1 s2 s3 ms where "IsExternalCC out s = (Ok False, s)"
    "ioutil_TempDir rnds dir ''run'' s = (Ok tempDir, s1)" "path_Rel dir tempDir = Ok root"
    "place_run_files tempDir out pmd s1 = (Ok (), s2)" "client_Run conn (run_request root) s2 = (Inr (ms, EOFError), s3)"
    "recv_loop (map rpMessage ms) EOFError = (None, text)" "rc = 0" "s' = snd (os_RemoveAll tempDir s3)"
proof -
  have ext: "IsExternalCC out s = (Ok False, s)"
    using assms IsExternalCC_state [of out s] by (cases "IsExternalCC out s") (auto simp: Run_Run_def split: outcome.splits if_splits)
  have "in_temp_dir rnds dir ''run'' (\<lambda>tempDir. run_in conn dir tempDir out pmd) s = (Ok rc, text, s')"
    using assms ext by (simp add: Run_Run_def)
  then obtain tempDir s1 s3 where t: "ioutil_TempDir rnds dir ''run'' s = (Ok tempDir, s1)"
    and b: "run_in conn dir tempDir out pmd s1 = (Ok rc, text, s3)" and s': "s' = snd (os_RemoveAll tempDir s3)"
    by (auto simp: in_temp_dir_def split: prod.splits outcome.splits)
  show thesis
    using b unfolding run_in_def place_run_files_def [symmetric]
    by (auto split: outcome.splits prod.splits sum.splits option.splits dest: recv_loop_eof intro!: that [OF ext t _ _ _ _ _ s'])
qed

text \<open>What a successful pod execution of a run did, with the messages it sent.\<close>

lemma executePod_run_Ok:
  assumes "executePod kc pod RUN (Some uuid) sched w = Some (Inr (), w')"
  obtains created secret upd logs rs ms where
    "calls w' = calls w @ [CPodWatch (watch_selector pod) (Inr ()), CPodCreate pod (Inr created),
       CSecretGet (secret_name uuid) (Inr secret), CSecretUpdate (owned_secret created secret) (Inr upd)] @ logs @
       map2 CLogClose (rev (map fst (opened logs))) rs @ [CWatchStop]"
    "list_all is_log_call logs" "sent w' = sent w @ ms" "\<forall>(c, lines) \<in> set (opened logs). subseq lines ms"
    "\<exists>l \<in> set sched. end_phase l = Some PodSucceeded"
proof -
  obtain created w1 x where x: "exec_setup kc pod RUN (Some uuid) w = (Inr created, w1)" "w' = xworld x"
      "returned_inv kc RUN (pod_name created) w1 (Inr ()) x" "xpc x = Returned (Inr ())"
      "exec_run kc RUN (pod_name created) sched (start_exec w1) = Some x"
    using assms by (cases rule: executePod_cases) auto
  have "sched \<noteq> []" using x(4,5) by (auto simp: start_exec_def)
  then have "\<exists>l \<in> set sched. end_phase l = Some PodSucceeded" using executePod_success_phase [OF assms] by auto
  moreover obtain secret upd where "calls w1 = calls w @ [CPodWatch (watch_selector pod) (Inr ()), CPodCreate pod (Inr created),
      CSecretGet (secret_name uuid) (Inr secret), CSecretUpdate (owned_secret created secret) (Inr upd)]"
    using exec_setup_ok(2) [OF x(1)] by auto
  ultimately have start: "\<exists>l \<in> set sched. end_phase l = Some PodSucceeded" "calls w1 = calls w @ [CPodWatch (watch_selector pod) (Inr ()),
      CPodCreate pod (Inr created), CSecretGet (secret_name uuid) (Inr secret), CSecretUpdate (owned_secret created secret) (Inr upd)]"
      "sent w1 = sent w" using exec_setup_ok(1) [OF x(1)] by blast+
  from x(3) show thesis
  proof (rule returned_trace)
    fix logs rs ds ms
    assume "calls (xworld x) = calls w1 @ logs @ map2 CLogClose (rev (map fst (opened logs))) rs @ ds @ [CWatchStop]"
      "list_all is_log_call logs" "if RUN = BUILD then \<exists>a. ds = [CPodDelete (pod_name created) a] else ds = []"
      "sent (xworld x) = sent w1 @ ms" "pod_ended (Inr ()) \<Longrightarrow> \<forall>(c, lines) \<in> set (opened logs). subseq lines ms"
    then show thesis
      using start x(2) by (intro that [of created secret upd logs rs ms]) (simp_all add: pod_ended_def)
  qed
qed

text \<open>The part of a successful run between the creation and the clean-up of its secret.\<close>

lemma run_with_secret_Ok:
  assumes "run_with_secret kc b sched req md rmd uuid s w = Some (Ok (), w')"
  obtains cont au cu zones ns w1 where "runContainerDefinition (getenv s) b (mdType md) rmd = Ok cont" "Auth b = Some au"
    "urlJoin (FSBaseURL b) (rrChaincodePath req) = Ok cu" "calls w1 = calls w @ ns" "ns = [] \<or> (\<exists>a. ns = [CNodeList a])"
    "sent w1 = sent w"
    "executePod kc (run_pod b au zones cont rmd cu uuid (getenv s ''PEER_POD_NAME'') (getenv s ''PEER_POD_UID'')) RUN (Some uuid)
       sched w1 = Some (Inr (), w')"
proof -
  let ?n = "getenv s ''PEER_POD_NAME''" and ?u = "getenv s ''PEER_POD_UID''"
  obtain c where c: "runContainerDefinition (getenv s) b (mdType md) rmd = Ok c" "?n \<noteq> []" "?u \<noteq> []"
    using assms by (auto simp: run_with_secret_def Let_def split: outcome.splits if_splits)
  show thesis
  proof (cases rule: runPodDefinition_cases [of b "rrChaincodePath req" kc c rmd uuid ?n ?u w])
    case (ok au cu)
    obtain r0 where "executePod kc (run_pod b au (fst (hasZoneLabels kc w)) c rmd cu uuid ?n ?u) RUN (Some uuid) sched
        (snd (hasZoneLabels kc w)) = Some (r0, w')" "run_status r0 = Ok ()"
      using assms c ok by (auto simp: run_with_secret_def Let_def)
    moreover from this(2) have "r0 = Inr ()" by (cases r0) auto
    ultimately show thesis using that [OF c(1) ok(1,2)] hasZoneLabels_calls [of kc w] by metis
  next
    case (panic q w1)
    then show thesis using assms c by (auto simp: run_with_secret_def Let_def)
  qed
qed

text \<open>The deferred clean-up of a run that returned nil.\<close>

lemma deferred_delete_Ok:
  assumes "deferred_delete kc uuid (r2, w2) = (Ok (), w')"
  obtains tail where "calls w' = calls w2 @ tail" "secret_cleanup (secret_name uuid) tail" "r2 = Ok ()"
    "\<exists>m2. sent w' = sent w2 @ m2"
proof -
  have w': "w' = snd (deleteCryptoSecret kc uuid w2)"
    using assms deferred_delete_world [of kc uuid r2 w2] by simp
  have "r2 = Ok ()" using assms by (auto simp: deferred_delete_def split: prod.splits option.splits outcome.splits)
  moreover have "\<exists>m2. sent w' = sent w2 @ m2"
    unfolding w' by (auto simp: deleteCryptoSecret_def api_def split: prod.splits sum.splits)
  ultimately show thesis using that deleteCryptoSecret_calls [of kc uuid w2] w' by metis
qed

lemma Run_state: "Run kc b rnd sched req s w = Some (r, s', w') \<Longrightarrow> s' = s"
  using extractChaincodeMetadata_state [of b "rrMetadataPath req" s] readRunMetadata_state [of b "rrArtifactsPath req" s]
  by (auto simp: Run_def case_prod_beta split: outcome.splits if_splits option.splits)

section \<open>The files of a run\<close>

lemma no_file_iff: "file_at s k = None \<longleftrightarrow> store_of s k = None \<and> \<not> is_dir_at s k"
  by (auto simp: store_of_def is_dir_at_iff split: option.splits)

lemma store_ofD: "store_of s k = Some x \<Longrightarrow> \<exists>n. file_at s k = Some n \<and> kind n \<noteq> KDir \<and> data n = x"
  by (auto simp: store_of_def split: option.splits if_splits)

text \<open>Copying a file to a new name in a directory stores its contents there and changes nothing else.\<close>

lemma copy_into:
  assumes sv: "serving h c s" and t: "t \<noteq> []" "is_name f" "is_dir_at s (resolve c t)" "file_at s (resolve c t @ [f]) = None"
    and x: "store_of s (resolve c src) = Some x" and run: "CopyFile src (path_Join [t, f]) s = (r, s')"
  shows "serving h c s'" and "store_of s' = (store_of s)(resolve c t @ [f] \<mapsto> x)" and "is_dir_at s' k = is_dir_at s k"
proof -
  let ?D = "resolve c t @ [f]"
  have cw: "cwd s = c" and wf: "fs_wf s" and nf: "no_faults s" using sv by (auto simp: no_faults_def dest: servingD)
  obtain n where n: "file_at s (resolve c src) = Some n" "kind n \<noteq> KDir" "data n = x" using store_ofD [OF x] by blast
  have D: "resolve (cwd s) (path_Join [t, f]) = ?D" using t cw by simp
  have "resolve c src \<noteq> ?D" using n(1) t(4) by auto
  then obtain s1 where s1: "CopyFile src (path_Join [t, f]) s = (Ok (), s1)" "same_env s s1"
      "file_at s1 = file_at (stored ?D (copy_of (umask s) n (file_at s ?D)) s)"
    using CopyFile_exact [OF wf nf, of "path_Join [t, f]" src n] n t D cw by (auto simp: is_dir_at_iff)
  then have e: "same_env s s'" "file_at s' = file_at (stored ?D (copy_of (umask s) n None) s)" using run t(4) by simp_all
  show dirs: "is_dir_at s' k = is_dir_at s k" for k
    using t(3,4) n(2) by (auto simp: is_dir_at_iff e(2) file_at_stored copy_of_def)
  have "confined c {resolve c t} ?D (CopyFile src (path_Join [t, f]))"
    using confined_CopyFile [of c "{resolve c t}" "path_Join [t, f]"] D cw by simp
  from confinedD [OF this wf cw _ run] have "fs_wf s'" using step_below_wf t(3) by blast
  then show "serving h c s'" using e(1) sv dirs by (auto simp: serving_def rooted_def same_env_def)
  show "store_of s' = (store_of s)(?D \<mapsto> x)"
    using t(3) n(2,3) by (auto simp: fun_eq_iff store_of_def e(2) file_at_stored copy_of_def is_dir_at_iff split: option.splits)
qed

lemma place_run_files_effect:
  assumes sv: "serving h c s" and t: "t \<noteq> []" "is_dir_at s (resolve c t)" "\<And>r. r \<noteq> [] \<Longrightarrow> file_at s (resolve c t @ r) = None"
    and ne: "out \<noteq> []" "pmd \<noteq> []"
    and x: "store_of s (resolve c out @ [''chaincode-output.tar'']) = Some x"
    and y: "store_of s (resolve c out @ [''package-metadata.tar'']) = Some y"
    and z: "store_of s (resolve c pmd @ [''chaincode.json'']) = Some z" and run: "place_run_files t out pmd s = (Ok (), s')"
  shows "serving h c s' \<and> store_of s' = (store_of s)(resolve c t @ [''chaincode-output.tar''] \<mapsto> x,
    resolve c t @ [''package-metadata.tar''] \<mapsto> y, resolve c t @ [''chaincode.json''] \<mapsto> z)"
proof -
  let ?T = "resolve c t"
  have nm: "is_name ''chaincode-output.tar''" "is_name ''package-metadata.tar''" "is_name ''chaincode.json''"
    by (simp_all add: is_name_def)
  have new: "store_of s (?T @ [f]) = None" "\<not> is_dir_at s (?T @ [f])" for f using t(3) [of "[f]"] no_file_iff by blast+
  have apart: "k \<noteq> ?T @ [f]" if "store_of s k = Some v" for k f v using that new(1) [of f] by auto
  obtain s1 s2 where r: "CopyFile (path_Join [out, ''chaincode-output.tar'']) (path_Join [t, ''chaincode-output.tar'']) s = (Ok (), s1)"
      "CopyFile (path_Join [out, ''package-metadata.tar'']) (path_Join [t, ''package-metadata.tar'']) s1 = (Ok (), s2)"
      "CopyFile (path_Join [pmd, ''chaincode.json'']) (path_Join [t, ''chaincode.json'']) s2 = (Ok (), s')"
    using run by (auto simp: place_run_files_def seq_def split: prod.splits outcome.splits)
  have 1: "serving h c s1" "store_of s1 = (store_of s)(?T @ [''chaincode-output.tar''] \<mapsto> x)" "is_dir_at s1 k = is_dir_at s k" for k
    using copy_into [OF sv t(1) nm(1) t(2) t(3) _ r(1), of x] x ne nm(1) by simp_all
  have 2: "serving h c s2" "store_of s2 = (store_of s1)(?T @ [''package-metadata.tar''] \<mapsto> y)" "is_dir_at s2 k = is_dir_at s1 k" for k
    using copy_into [OF 1(1) t(1) nm(2) _ _ _ r(2), of y] t(2) new y ne nm(2) apart [OF y] by (simp_all add: 1 no_file_iff)
  have 3: "serving h c s'" "store_of s' = (store_of s2)(?T @ [''chaincode.json''] \<mapsto> z)"
    using copy_into [OF 2(1) t(1) nm(3) _ _ _ r(3), of z] t(2) new z ne nm(3) apart [OF z] by (simp_all add: 1 2 no_file_iff)
  show ?thesis using 3 unfolding 2(2) 1(2) by blast
qed

text \<open>
  Where a run takes place: the shared directory is the root of the file server, and the output of the
  build and the peer's metadata directory hold the three files the command needs.
\<close>

definition run_site :: "Handler \<Rightarrow> key \<Rightarrow> string \<Rightarrow> string \<Rightarrow> string \<Rightarrow> os \<Rightarrow> bool" where
  "run_site h c dir out pmd s \<longleftrightarrow> serving h c s \<and> hRoot h = dir \<and> \<not> has_suffix dir ''/'' \<and> out \<noteq> [] \<and> pmd \<noteq> [] \<and>
     store_of s (resolve c out @ [''chaincode-output.tar'']) \<noteq> None \<and>
     store_of s (resolve c out @ [''package-metadata.tar'']) \<noteq> None \<and> store_of s (resolve c pmd @ [''chaincode.json'']) \<noteq> None"

lemma run_files_sent:
  assumes site: "run_site h c dir out pmd s" and rnds: "list_all (\<lambda>r. CHR ''/'' \<notin> set r) rnds"
    and t: "ioutil_TempDir rnds dir ''run'' s = (Ok tempDir, s1)" and a: "place_run_files tempDir out pmd s1 = (Ok (), s2)"
  obtains n where "is_name n" "tempDir \<noteq> []" "path_Rel dir tempDir = Ok n" "\<And>c. resolve c tempDir = resolve c dir @ [n]"
    "serving h c s2"
    "store_of s2 (resolve c tempDir @ [''chaincode-output.tar'']) = store_of s (resolve c out @ [''chaincode-output.tar''])"
    "store_of s2 (resolve c tempDir @ [''package-metadata.tar'']) = store_of s (resolve c out @ [''package-metadata.tar''])"
    "store_of s2 (resolve c tempDir @ [''chaincode.json'']) = store_of s (resolve c pmd @ [''chaincode.json''])"
proof -
  have sv: "serving h c s" and dir: "dir \<noteq> []" "\<not> has_suffix dir ''/''" and ne: "out \<noteq> []" "pmd \<noteq> []"
    using site by (auto simp: run_site_def dest: servingD)
  have wf: "fs_wf s" and cw: "cwd s = c" using sv by (auto dest: servingD)
  obtain n where n: "is_name n" "tempDir \<noteq> []" "path_Rel dir tempDir = Ok n" "\<And>c. resolve c tempDir = resolve c dir @ [n]"
    using temp_root [OF t _ dir rnds] by blast
  let ?T = "resolve c tempDir"
  note te = TempDir_effect [OF t wf, unfolded cw]
  have newT: "file_at s1 (?T @ r) = None" if "r \<noteq> []" for r
  proof -
    have "?T @ r \<noteq> ?T" "?T @ r \<noteq> butlast ?T" using that n(4) [of c] by auto
    then show ?thesis using te(6) [of "?T @ r"] nothing_below [OF wf te(1), of r] by simp
  qed
  have st: "store_of s1 = store_of s"
    using te(1) by (auto simp: fun_eq_iff store_of_def te(6) new_dir_def split: option.split)
  have sv1: "serving h c s1" using te(2-5) sv by (auto simp: serving_def rooted_def)
  obtain x y z where "store_of s1 (resolve c out @ [''chaincode-output.tar'']) = Some x"
      "store_of s1 (resolve c out @ [''package-metadata.tar'']) = Some y" "store_of s1 (resolve c pmd @ [''chaincode.json'']) = Some z"
    using site st by (auto simp: run_site_def)
  note p = this place_run_files_effect [OF sv1 n(2) _ newT ne this a]
  show thesis by (rule that [OF n]) (use p te(5) st in auto)
qed

text \<open>What the server reads is a function of the contents of the file.\<close>

lemma extract_cong:
  assumes "\<not> containsDotDot p" and "\<not> containsDotDot p'" and "no_faults s" and "no_faults s'"
    and "store_of s (resolve (cwd s) (path_Join [SharedPath b, p])) = Some x"
    and "store_of s' (resolve (cwd s') (path_Join [SharedPath b', p'])) = Some x"
  shows "fst (extractChaincodeMetadata b p s) = fst (extractChaincodeMetadata b' p' s')"
  using assms(1-4) store_ofD [OF assms(5)] store_ofD [OF assms(6)]
  by (auto simp: extractChaincodeMetadata_def Let_def seq_def os_Open_def with_key_def lookup_key_def read_handle_def ret_def
      split: outcome.split)

lemma readRun_cong:
  assumes "\<not> containsDotDot p" and "\<not> containsDotDot p'" and "no_faults s" and "no_faults s'"
    and "store_of s (resolve (cwd s) (path_Join [SharedPath b, p])) = Some x"
    and "store_of s' (resolve (cwd s') (path_Join [SharedPath b', p'])) = Some x"
  shows "fst (readRunMetadata b p s) = fst (readRunMetadata b' p' s')"
  using assms(1-4) store_ofD [OF assms(5)] store_ofD [OF assms(6)]
  by (auto simp: readRunMetadata_def Let_def seq_def ioutil_ReadFile_def os_Open_def with_key_def lookup_key_def read_handle_def ret_def
      split: outcome.split)

section \<open>A concrete run\<close>

definition run_os :: os where
  "run_os = (sample_os [])\<lparr>files := [([], sample_dir), ([''shared''], sample_dir), ([''out''], sample_dir), ([''md''], sample_dir),
     ([''out'', ''chaincode-output.tar''], sample_file (Raw ''output'')),
     ([''out'', ''package-metadata.tar''], sample_file (sample_package ''node'')),
     ([''md'', ''chaincode.json''], sample_file (Raw (json_object [(''chaincode_id'', ''cc:1''), (''client_key'', ''key'')])))]\<rparr>"

definition run_get :: request where
  "run_get = demo_request ''GET'' ''/run1/chaincode-output.tar'' ''u:p''"

definition demo_run_conn :: "(RunRequest, RunResponse, os) grpc_conn" where
  "demo_run_conn = run_conn e2e_transport sample_kube sample_server sample_rnd sample_sched (environ (sample_os []))
     demo_handler [run_get] sample_world"

definition run_s1 :: os where "run_s1 = snd (ioutil_TempDir [''1''] ''/shared'' ''run'' run_os)"
definition run_s2 :: os where "run_s2 = snd (place_run_files ''/shared/run1'' ''/out'' ''/md'' run_s1)"

lemma run_steps:
  "fst (IsExternalCC ''/out'' run_os) = Ok False"
  "fst (ioutil_TempDir [''1''] ''/shared'' ''run'' run_os) = Ok ''/shared/run1''"
  "path_Rel ''/shared'' ''/shared/run1'' = Ok ''run1''"
  "fst (place_run_files ''/shared/run1'' ''/out'' ''/md'' run_s1) = Ok ()"
  "fst (extractChaincodeMetadata sample_server (rrMetadataPath (run_request ''run1'')) (server_view (environ (sample_os [])) run_s2)) =
     Ok \<lparr>mdPath = ''cc'', mdType = ''node''\<rparr>"
  "fst (readRunMetadata sample_server (rrArtifactsPath (run_request ''run1'')) (server_view (environ (sample_os [])) run_s2)) = Ok sample_rmd"
  "run_request ''run1'' = sample_run_req"
  by code_simp+

lemma demo_run_with_secret:
  assumes "environ s = environ (sample_os [])"
  shows "\<exists>rw. run_with_secret sample_kube sample_server sample_sched sample_run_req \<lparr>mdPath = ''cc'', mdType = ''node''\<rparr>
      sample_rmd sample_uuid s sample_started = Some rw \<and> fst (deferred_delete sample_kube sample_uuid rw) = Ok ()"
proof -
  have "getenv s = getenv (sample_os [])" using assms by (simp add: getenv_def fun_eq_iff)
  then have "run_with_secret sample_kube sample_server sample_sched sample_run_req md rmd u s w =
      run_with_secret sample_kube sample_server sample_sched sample_run_req md rmd u (sample_os []) w" for md rmd u w
    by (simp only: run_with_secret_def)
  moreover have "map_option (\<lambda>rw. fst (deferred_delete sample_kube sample_uuid rw)) (run_with_secret sample_kube sample_server
      sample_sched sample_run_req \<lparr>mdPath = ''cc'', mdType = ''node''\<rparr> sample_rmd sample_uuid (sample_os []) sample_started) = Some (Ok ())"
    by code_simp
  ultimately show ?thesis by auto
qed

lemma demo_Run:
  "\<exists>v w'. Run sample_kube sample_server sample_rnd sample_sched (run_request ''run1'')
     (server_view (environ (sample_os [])) run_s2) sample_world = Some (Ok (), v, w')"
proof -
  let ?v = "server_view (environ (sample_os [])) run_s2" and ?q = "run_request ''run1''"
  have "extractChaincodeMetadata sample_server (rrMetadataPath ?q) ?v = (Ok \<lparr>mdPath = ''cc'', mdType = ''node''\<rparr>, ?v)"
    "readRunMetadata sample_server (rrArtifactsPath ?q) ?v = (Ok sample_rmd, ?v)"
    using run_steps(5,6) extractChaincodeMetadata_state [of sample_server "rrMetadataPath ?q" ?v]
      readRunMetadata_state [of sample_server "rrArtifactsPath ?q" ?v] by (simp_all add: prod_eq_iff)
  then have "Run sample_kube sample_server sample_rnd sample_sched ?q ?v sample_world =
      map_option (\<lambda>rw. (case deferred_delete sample_kube sample_uuid rw of (r, w') \<Rightarrow> (r, ?v, w')))
        (run_with_secret sample_kube sample_server sample_sched ?q \<lparr>mdPath = ''cc'', mdType = ''node''\<rparr> sample_rmd sample_uuid ?v sample_started)"
    by (simp add: Run_def sample_UUID createCryptoSecret_def sample_kube_def api_def record_call_def sample_world_def sample_started_def)
  moreover have "environ ?v = environ (sample_os [])" by (simp add: server_view_def)
  ultimately show ?thesis using run_steps(7) demo_run_with_secret [of ?v] by (auto simp: case_prod_beta)
qed

lemma run_start:
  "ioutil_TempDir [''1''] ''/shared'' ''run'' run_os = (Ok ''/shared/run1'', run_s1)"
  "place_run_files ''/shared/run1'' ''/out'' ''/md'' run_s1 = (Ok (), run_s2)"
  using run_steps by (simp_all add: prod_eq_iff run_s1_def run_s2_def)

lemma demo_run_succeeds:
  "\<exists>text s'. Run_Run [''1''] demo_run_conn ''/shared'' [''/out'', ''/md''] run_os = (Ok 0, text, s')"
proof -
  obtain v w' where b: "Run sample_kube sample_server sample_rnd sample_sched (run_request ''run1'')
      (server_view (environ (sample_os [])) run_s2) sample_world = Some (Ok (), v, w')" using demo_Run by blast
  let ?ms = "drop (length (sent sample_world)) (sent w')"
  have c: "\<exists>s3. client_Run demo_run_conn (run_request ''run1'') run_s2 = (Inr (map run_Log ?ms, EOFError), s3)"
    using b by (simp add: client_Run_def open_stream_def demo_run_conn_def run_conn_def served_def e2e_transport_def)
  have l: "recv_loop (map rpMessage (map run_Log ?ms)) EOFError = (None, concat ?ms)"
    using recv_loop_texts [of ?ms] by (simp add: comp_def run_Log_def)
  have ext: "IsExternalCC ''/out'' run_os = (Ok False, run_os)"
    using run_steps(1) IsExternalCC_state [of "''/out''" run_os] by (simp add: prod_eq_iff)
  show ?thesis
    using ext run_start run_steps(3) c l
    by (auto simp: Run_Run_def in_temp_dir_def run_in_def place_run_files_def split: prod.splits)
qed

section \<open>Properties\<close>

text \<open>Property C5: the peer believes only a run that happened. If the run command, connected to the
  server, returns without an error, it returned 0 and printed exactly what the server sent; the handler
  returned nil for the request the client made for its temporary directory, which is removed. Either
  the package says it is external and the handler did nothing; or the handler created the secret with the
  peer's TLS material, then the one pod of that run, with the URL of the client's copy of the chaincode,
  and made it the owner of the secret; the watch saw the pod succeed; every line of every container log
  that was opened is in the output, in order; the watch was stopped; and at last the secret was looked up
  and deleted if it was found without an owner; a lookup that fails leaves it as it is.\<close>

theorem run_end_to_end:
  assumes "eof_means_ok tr"
    and "Run_Run rnds (run_conn tr kc b rnd sched senv h reqs w) (SharedPath b) (out # pmd # rest) s = (Ok rc, text, s')"
  shows "rc = 0 \<and> (\<exists>tempDir root s1 s2 w' md.
    ioutil_TempDir rnds (SharedPath b) ''run'' s = (Ok tempDir, s1) \<and> path_Rel (SharedPath b) tempDir = Ok root \<and>
    place_run_files tempDir out pmd s1 = (Ok (), s2) \<and>
    Run kc b rnd sched (run_request root) (server_view senv s2) w = Some (Ok (), server_view senv s2, w') \<and>
    text = concat (drop (length (sent w)) (sent w')) \<and> s' = snd (os_RemoveAll tempDir (snd (run_all (ServeHTTP h) reqs s2))) \<and>
    fst (extractChaincodeMetadata b (rrMetadataPath (run_request root)) (server_view senv s2)) = Ok md \<and>
    (if mdType md = ''external'' then w' = w
     else \<exists>rmd uuid sec cont au cu zones ns created secret upd logs rs tail.
      fst (readRunMetadata b (rrArtifactsPath (run_request root)) (server_view senv s2)) = Ok rmd \<and> UUID rnd = Ok uuid \<and>
      runContainerDefinition (getenv (server_view senv s2)) b (mdType md) rmd = Ok cont \<and> Auth b = Some au \<and>
      urlJoin (FSBaseURL b) (rrChaincodePath (run_request root)) = Ok cu \<and>
      (let pod = run_pod b au zones cont rmd cu uuid (opt_str (senv ''PEER_POD_NAME'')) (opt_str (senv ''PEER_POD_UID'')) in
       calls w' = calls w @ [CSecretCreate (crypto_secret rmd uuid) (Inr sec)] @ ns @
         [CPodWatch (watch_selector pod) (Inr ()), CPodCreate pod (Inr created),
          CSecretGet (secret_name uuid) (Inr secret), CSecretUpdate (owned_secret created secret) (Inr upd)] @ logs @
         map2 CLogClose (rev (map fst (opened logs))) rs @ [CWatchStop] @ tail) \<and>
      (ns = [] \<or> (\<exists>a. ns = [CNodeList a])) \<and> list_all is_log_call logs \<and> secret_cleanup (secret_name uuid) tail \<and>
      (\<exists>l \<in> set sched. end_phase l = Some PodSucceeded) \<and>
      (\<forall>(c, lines) \<in> set (opened logs). subseq lines (drop (length (sent w)) (sent w')))))"
  using assms(2)
proof (cases rule: Run_Run_Ok)
  case (1 tempDir root s1 s2 s3 ms)
  let ?v = "server_view senv s2" and ?q = "run_request root"
  obtain v w' where run: "Run kc b rnd sched ?q ?v w = Some (Ok (), v, w')"
    and ms: "ms = map run_Log (drop (length (sent w)) (sent w'))" and s3: "s3 = snd (run_all (ServeHTTP h) reqs s2)"
    using run_conn_Ok [OF assms(1) 1(5)] by blast
  have env: "getenv ?v n = opt_str (senv n)" for n
    by (simp add: getenv_def server_view_def opt_str_def split: option.split)
  have v: "v = ?v" by (rule Run_state [OF run])
  have printed: "text = concat (drop (length (sent w)) (sent w'))"
    using 1(6) ms recv_loop_texts [of "drop (length (sent w)) (sent w')"] by (simp add: comp_def run_Log_def)
  note outer = 1(2-4) run [unfolded v] printed 1(8) [unfolded s3]
  show ?thesis
    using run
  proof (cases rule: Run_cases)
    case untouched
    then show ?thesis using outer 1(7) by auto
  next
    case (started md rmd uuid w1 r2 w2 sec)
    obtain tail where tail: "calls w' = calls w2 @ tail" "secret_cleanup (secret_name uuid) tail" and r2: "r2 = Ok ()"
      and more: "\<exists>m2. sent w' = sent w2 @ m2"
      by (rule deferred_delete_Ok [OF started(8)]) blast
    from started(7) [unfolded r2] show ?thesis
    proof (rule run_with_secret_Ok)
      fix cont au cu zones ns w3
      assume x: "runContainerDefinition (getenv ?v) b (mdType md) rmd = Ok cont" "Auth b = Some au"
        "urlJoin (FSBaseURL b) (rrChaincodePath ?q) = Ok cu" "calls w3 = calls w1 @ ns" "ns = [] \<or> (\<exists>a. ns = [CNodeList a])"
        "sent w3 = sent w1"
        and ex: "executePod kc (run_pod b au zones cont rmd cu uuid (getenv ?v ''PEER_POD_NAME'') (getenv ?v ''PEER_POD_UID''))
          RUN (Some uuid) sched w3 = Some (Inr (), w2)"
      from ex [unfolded env] show ?thesis
      proof (rule executePod_run_Ok)
        fix created secret upd logs rs qs
        let ?pod = "run_pod b au zones cont rmd cu uuid (opt_str (senv ''PEER_POD_NAME'')) (opt_str (senv ''PEER_POD_UID''))"
        assume tr: "calls w2 = calls w3 @ [CPodWatch (watch_selector ?pod) (Inr ()), CPodCreate ?pod (Inr created),
            CSecretGet (secret_name uuid) (Inr secret), CSecretUpdate (owned_secret created secret) (Inr upd)] @ logs @
            map2 CLogClose (rev (map fst (opened logs))) rs @ [CWatchStop]"
          and y: "list_all is_log_call logs" "sent w2 = sent w3 @ qs" "\<forall>(c, lines) \<in> set (opened logs). subseq lines qs"
          "\<exists>l \<in> set sched. end_phase l = Some PodSucceeded"
        have all: "calls w' = calls w @ [CSecretCreate (crypto_secret rmd uuid) (Inr sec)] @ ns @
         [CPodWatch (watch_selector ?pod) (Inr ()), CPodCreate ?pod (Inr created),
          CSecretGet (secret_name uuid) (Inr secret), CSecretUpdate (owned_secret created secret) (Inr upd)] @ logs @
         map2 CLogClose (rev (map fst (opened logs))) rs @ [CWatchStop] @ tail"
          using tail(1) tr x(4) started(5) by simp
        obtain m2 where "drop (length (sent w)) (sent w') = qs @ m2" using more y(2) x(6) started(6) by auto
        then have lines: "\<forall>(c, lines) \<in> set (opened logs). subseq lines (drop (length (sent w)) (sent w'))"
          using y(3) by (auto intro: list_emb_append2)
        show ?thesis
          using outer 1(7) started(1-4) x(1-3,5) all y(1,4) tail(2) lines unfolding Let_def by (simp (no_asm_simp)) blast
      qed
    qed
  qed simp
qed

theorem run_end_to_end_witness:
  "\<exists>text s'. Run_Run [''1''] demo_run_conn ''/shared'' [''/out'', ''/md''] run_os = (Ok 0, text, s') \<and>
     (\<exists>w' :: Secret option world. text = concat (sent w'))"
proof -
  obtain msg s' where run: "Run_Run [''1''] demo_run_conn ''/shared'' [''/out'', ''/md''] run_os = (Ok 0, msg, s')"
    using demo_run_succeeds by blast
  have sp: "SharedPath sample_server = ''/shared''" by (simp add: sample_server_def)
  have "sent sample_world = []" by (simp add: sample_world_def)
  with run_end_to_end [OF e2e_transport_ok run [unfolded demo_run_conn_def, folded sp]] run show ?thesis by auto
qed

text \<open>Property C6: a run uses what was built and what the peer gave. Suppose the run command, connected to
  the server, returns without an error on a site as described by \<open>run_site\<close>. Then the server reads for
  its request the package metadata that the output directory of the build holds, and the chaincode
  identifier and TLS material that the peer's metadata directory holds; and whatever requests the file
  server got in whatever order, every authorized download from the URL path of the chaincode that the pod
  is given was answered with 200 and exactly the bytes of the build's output archive.\<close>

theorem run_moves_files:
  assumes "eof_means_ok tr" and "run_site h c (SharedPath b) out pmd s" and "list_all (\<lambda>r. CHR ''/'' \<notin> set r) rnds"
    and "Run_Run rnds (run_conn tr kc b rnd sched senv h reqs w) (SharedPath b) (out # pmd # rest) s = (Ok rc, text, s')"
  shows "\<exists>tempDir s1 n s2. ioutil_TempDir rnds (SharedPath b) ''run'' s = (Ok tempDir, s1) \<and>
    path_Rel (SharedPath b) tempDir = Ok n \<and> place_run_files tempDir out pmd s1 = (Ok (), s2) \<and>
    fst (extractChaincodeMetadata b (rrMetadataPath (run_request n)) (server_view senv s2)) =
      fst (extractChaincodeMetadata (b\<lparr>SharedPath := out\<rparr>) ''package-metadata.tar'' s) \<and>
    fst (readRunMetadata b (rrArtifactsPath (run_request n)) (server_view senv s2)) =
      fst (readRunMetadata (b\<lparr>SharedPath := pmd\<rparr>) ''chaincode.json'' s) \<and>
    (\<forall>q resp. answered h reqs s2 q resp \<longrightarrow> qMethod q = ''GET'' \<longrightarrow> authorized h q \<longrightarrow> plain_path q \<longrightarrow>
       qPath q = path_Join [''/'', rrChaincodePath (run_request n)] \<longrightarrow>
       rStatus resp = 200 \<and> (\<exists>x. store_of s (resolve c out @ [''chaincode-output.tar'']) = Some x \<and> rBody resp = FileBody x))"
  using assms(4)
proof (cases rule: Run_Run_Ok)
  case (1 tempDir root s1 s2 s3 ms)
  have dir: "hRoot h = SharedPath b" "SharedPath b \<noteq> []" and ne: "out \<noteq> []" "pmd \<noteq> []" and sv0: "serving h c s"
    using assms(2) by (auto simp: run_site_def dest: servingD)
  obtain x y z where given: "store_of s (resolve c out @ [''chaincode-output.tar'']) = Some x"
      "store_of s (resolve c out @ [''package-metadata.tar'']) = Some y" "store_of s (resolve c pmd @ [''chaincode.json'']) = Some z"
    using assms(2) by (auto simp: run_site_def)
  obtain n where n: "is_name n" "tempDir \<noteq> []" "path_Rel (SharedPath b) tempDir = Ok n"
      "\<And>c. resolve c tempDir = resolve c (SharedPath b) @ [n]" and sv: "serving h c s2"
    and st: "store_of s2 (resolve c tempDir @ [''chaincode-output.tar'']) = Some x"
      "store_of s2 (resolve c tempDir @ [''package-metadata.tar'']) = Some y" "store_of s2 (resolve c tempDir @ [''chaincode.json'']) = Some z"
    by (rule run_files_sent [OF assms(2,3) 1(2,4)]) (simp add: given)
  let ?v = "server_view senv s2" and ?q = "run_request n"
  have nm: "is_name ''chaincode-output.tar''" "is_name ''package-metadata.tar''" "is_name ''chaincode.json''"
    by (simp_all add: is_name_def)
  have plain: "\<not> containsDotDot ''package-metadata.tar''" "\<not> containsDotDot ''chaincode.json''" by code_simp+
  have env: "no_faults ?v" "cwd ?v = c" "store_of ?v = store_of s2" "no_faults s" "cwd s = c"
    using sv sv0 by (auto simp: no_faults_def server_view_def store_of_def file_at_def fun_eq_iff dest: servingD)
  note p = request_path [OF n(1) _ dir(2) n(2,4)]
  have "fst (extractChaincodeMetadata b (rrMetadataPath ?q) ?v) =
      fst (extractChaincodeMetadata (b\<lparr>SharedPath := out\<rparr>) ''package-metadata.tar'' s)"
    by (rule extract_cong [OF _ plain(1) env(1,4)])
      (use p [OF nm(2)] env(2,3,5) st(2) given(2) ne nm(2) in \<open>simp_all add: run_request_def containsDotDot_iff\<close>)
  moreover have "fst (readRunMetadata b (rrArtifactsPath ?q) ?v) = fst (readRunMetadata (b\<lparr>SharedPath := pmd\<rparr>) ''chaincode.json'' s)"
    by (rule readRun_cong [OF _ plain(2) env(1,4)])
      (use p [OF nm(3)] env(2,3,5) st(3) given(3) ne nm(3) in \<open>simp_all add: run_request_def containsDotDot_iff\<close>)
  moreover have "rStatus resp = 200 \<and> rBody resp = FileBody x"
    if "answered h reqs s2 q resp" "qMethod q = ''GET''" "authorized h q" "plain_path q"
      "qPath q = path_Join [''/'', rrChaincodePath ?q]" for q resp
    using answered_get [OF sv that(1-4)] request_location [OF n(1) nm(1) dir n(2,4), of q c] that(5) st(1)
    by (simp add: run_request_def)
  ultimately show ?thesis using 1(2,4) n(3) given(1) by blast
qed

lemma run_site_demo: "run_site demo_handler [] ''/shared'' ''/out'' ''/md'' run_os"
proof -
  have r: "resolve [] ''/shared'' = [''shared'']" "resolve [] ''/out'' = [''out'']" "resolve [] ''/md'' = [''md'']"
    "\<not> has_suffix ''/shared'' ''/''" by code_simp+
  have fa: "file_at run_os k = (if k \<in> {[], [''shared''], [''out''], [''md'']} then Some sample_dir
     else if k = [''out'', ''chaincode-output.tar''] then Some (sample_file (Raw ''output''))
     else if k = [''out'', ''package-metadata.tar''] then Some (sample_file (sample_package ''node''))
     else if k = [''md'', ''chaincode.json''] then Some (sample_file (Raw (json_object [(''chaincode_id'', ''cc:1''), (''client_key'', ''key'')])))
     else None)" for k
    by (simp add: file_at_def run_os_def)
  have d: "is_dir_at run_os k = (k \<in> {[], [''shared''], [''out''], [''md'']})" for k
    by (simp add: is_dir_at_def fa sample_dir_def sample_file_def)
  have par: "is_dir_at run_os k \<and> is_name n" if "file_at run_os (k @ [n]) \<noteq> None" for k n
  proof -
    have "(k, n) \<in> {([], ''shared''), ([], ''out''), ([], ''md''), ([''out''], ''chaincode-output.tar''),
        ([''out''], ''package-metadata.tar''), ([''md''], ''chaincode.json'')}"
      using that unfolding fa by (cases k rule: rev_cases) (auto split: if_splits)
    then show ?thesis unfolding d by (elim insertE emptyE) (simp_all add: is_name_def)
  qed
  have "cwd run_os = []" "distinct (map fst (files run_os))" "\<forall>op k. fault run_os op k = None"
    by (simp_all add: run_os_def sample_os_def)
  then show ?thesis using par r
    by (simp add: run_site_def serving_def rooted_def fs_wf_def d demo_handler_def store_of_def fa sample_file_def)
qed

theorem run_moves_files_witness:
  "\<exists>text s' s2. Run_Run [''1''] demo_run_conn ''/shared'' [''/out'', ''/md''] run_os = (Ok 0, text, s') \<and>
     place_run_files ''/shared/run1'' ''/out'' ''/md'' run_s1 = (Ok (), s2) \<and>
     fst (readRunMetadata sample_server ''run1/chaincode.json'' (server_view (environ (sample_os [])) s2)) =
       fst (readRunMetadata (sample_server\<lparr>SharedPath := ''/md''\<rparr>) ''chaincode.json'' run_os) \<and>
     rBody (fst (ServeHTTP demo_handler run_get s2)) = FileBody (Raw ''output'')"
proof -
  obtain msg s' where run: "Run_Run [''1''] demo_run_conn ''/shared'' [''/out'', ''/md''] run_os = (Ok 0, msg, s')"
    using demo_run_succeeds by blast
  have sp: "SharedPath sample_server = ''/shared''" by (simp add: sample_server_def)
  let ?resp = "fst (ServeHTTP demo_handler run_get run_s2)"
  have ans: "answered demo_handler [run_get] run_s2 run_get ?resp"
    unfolding answered_def by (intro exI [of _ "[]"]) simp
  have q: "qMethod run_get = ''GET''" "qPath run_get = path_Join [''/'', rrChaincodePath (run_request ''run1'')]"
    "rrArtifactsPath (run_request ''run1'') = ''run1/chaincode.json''" "resolve [] ''/out'' = [''out'']"
    "store_of run_os [''out'', ''chaincode-output.tar''] = Some (Raw ''output'')" by code_simp+
  have auth: "authorized demo_handler run_get"
    unfolding authorized_def by (rule exI [of _ "''u''"], rule exI [of _ "''p''"]) code_simp
  have plain: "plain_path run_get" by code_simp
  from run_moves_files [OF e2e_transport_ok run_site_demo [folded sp] _ run [unfolded demo_run_conn_def, folded sp]]
  show ?thesis using run run_start run_steps(3) ans q auth plain by (auto simp: sp)
qed

end
