(* ===== verification/FileConcurrent.thy ===== *)
theory FileConcurrent
  imports FileStore
begin

text \<open>
  Uploads at the same time. \<^verbatim>\<open>net/http\<close> runs the handler of every connection in a goroutine of its
  own. Here the \<^verbatim>\<open>PUT\<close> branch of \<^verbatim>\<open>ServeHTTP\<close> is split where the kernel is called: the checks and
  the exclusive \<^verbatim>\<open>OpenFile\<close>, any number of writes of a part of the body by \<^verbatim>\<open>io.Copy\<close>, and the last
  write with the answer. The goroutines take these steps in any order. They behave as if each upload
  had happened at once when it opened its file.
\<close>

section \<open>The handler in steps\<close>

datatype put_pc = Arrived | Writing key | Answered response

lemma authorized_code [code]:
  "authorized h req = (case request_BasicAuth req of
     Some (username, password) \<Rightarrow> username = hUsername h \<or> password = hPassword h | None \<Rightarrow> False)"
  by (auto simp: authorized_def split: option.split)

definition put_begin :: "Handler \<Rightarrow> request \<Rightarrow> os \<Rightarrow> put_pc \<times> os" where
  "put_begin h req s =
     (let upath = path_Clean (qPath req) in
      if upath \<noteq> ''/healthz'' \<and> authorized h req \<and> \<not> contains_str ''..'' upath \<and> \<not> contains_str [CHR 0x00] upath \<and>
         qMethod req = ''PUT''
      then (case os_OpenFile True (path_Clean (location h req)) 0x1B6 s of
          (Ok output, s') \<Rightarrow> (Writing output, s')
        | (Err e, s') \<Rightarrow> (Answered (sendErrorResponse e), s')
        | (Panic p, s') \<Rightarrow> (Answered (sendErrorResponse (ErrMsg p)), s'))
      else (case ServeHTTP h req s of (resp, s') \<Rightarrow> (Answered resp, s')))"

text \<open>A part of the body arrived and was written: the file holds \<open>c\<close> for now.\<close>

definition put_part :: "Handler \<Rightarrow> request \<Rightarrow> key \<Rightarrow> content \<Rightarrow> os \<Rightarrow> os" where
  "put_part h req output c s = snd (write_handle (path_Clean (location h req)) output c s)"

definition put_end :: "Handler \<Rightarrow> request \<Rightarrow> key \<Rightarrow> os \<Rightarrow> response \<times> os" where
  "put_end h req output s =
     (case seq (write_handle (path_Clean (location h req)) output (fst (qBody req)))
            (\<lambda>_. case snd (qBody req) of None \<Rightarrow> ret () | Some e \<Rightarrow> throw e) s of
        (Ok _, s') \<Rightarrow> (answer 201, s')
      | (Err e, s') \<Rightarrow> (sendErrorResponse e, s')
      | (Panic p, s') \<Rightarrow> (sendErrorResponse (ErrMsg p), s'))"

text \<open>With no other goroutine in between, the steps are the handler.\<close>

lemma steps_are_ServeHTTP:
  "ServeHTTP h req s = (case put_begin h req s of
     (Writing output, s1) \<Rightarrow> put_end h req output s1 | (Answered resp, s1) \<Rightarrow> (resp, s1) | (Arrived, s1) \<Rightarrow> (answer 500, s1))"
proof (cases "path_Clean (qPath req) \<noteq> ''/healthz'' \<and> authorized h req \<and> \<not> contains_str ''..'' (path_Clean (qPath req)) \<and>
    \<not> contains_str [CHR 0x00] (path_Clean (qPath req)) \<and> qMethod req = ''PUT''")
  case True
  have "ServeHTTP h req s = (case upload (location h req) (qBody req) s of
      (Ok _, s') \<Rightarrow> (answer 201, s') | (Err e, s') \<Rightarrow> (sendErrorResponse e, s') | (Panic p, s') \<Rightarrow> (sendErrorResponse (ErrMsg p), s'))"
    using True by (auto simp: ServeHTTP_def authorized_def location_def Let_def split: outcome.split prod.split)
  moreover have "snd (close_handle p k s') = s'" for p k s' by (simp add: close_handle_def split: option.split)
  ultimately show ?thesis using True
    by (simp add: put_begin_def put_end_def upload_def seq_def split: outcome.split prod.split)
next
  case False
  then show ?thesis unfolding put_begin_def Let_def if_not_P [OF False] by (simp split: prod.split)
qed

section \<open>Interleavings\<close>

datatype put_action = Begin nat | Part nat content | End nat

fun put_step :: "Handler \<Rightarrow> request list \<Rightarrow> put_action \<Rightarrow> put_pc list \<times> os \<Rightarrow> (put_pc list \<times> os) option" where
  "put_step h reqs (Begin t) (pcs, s) =
     (if t < length pcs \<and> pcs ! t = Arrived
      then (case put_begin h (reqs ! t) s of (pc, s') \<Rightarrow> Some (pcs[t := pc], s')) else None)"
| "put_step h reqs (Part t c) (pcs, s) =
     (if t < length pcs then (case pcs ! t of
        Writing output \<Rightarrow> Some (pcs, put_part h (reqs ! t) output c s) | _ \<Rightarrow> None) else None)"
| "put_step h reqs (End t) (pcs, s) =
     (if t < length pcs then (case pcs ! t of
        Writing output \<Rightarrow> (case put_end h (reqs ! t) output s of (resp, s') \<Rightarrow> Some (pcs[t := Answered resp], s'))
      | _ \<Rightarrow> None) else None)"

fun put_run :: "Handler \<Rightarrow> request list \<Rightarrow> put_action list \<Rightarrow> put_pc list \<times> os \<Rightarrow> (put_pc list \<times> os) option" where
  "put_run h reqs [] x = Some x"
| "put_run h reqs (a # as) x = (case put_step h reqs a x of None \<Rightarrow> None | Some x' \<Rightarrow> put_run h reqs as x')"

text \<open>The requests in the order in which they opened their files.\<close>

fun begun :: "put_action list \<Rightarrow> nat list" where
  "begun [] = []"
| "begun (Begin t # as) = t # begun as"
| "begun (_ # as) = begun as"

lemma begun_append [simp]: "begun (as @ bs) = begun as @ begun bs"
  by (induction as rule: begun.induct) simp_all

lemma put_run_append:
  "put_run h reqs (as @ bs) x = (case put_run h reqs as x of None \<Rightarrow> None | Some y \<Rightarrow> put_run h reqs bs y)"
  by (induction as arbitrary: x) (auto split: option.splits)

lemma run_all_snoc:
  "run_all step (qs @ [q]) s = (case run_all step qs s of (rs, s1) \<Rightarrow> (case step q s1 of (r, s2) \<Rightarrow> (rs @ [r], s2)))"
  by (induction qs arbitrary: s) (auto split: prod.splits)

section \<open>The invariant\<close>

definition put_place :: "Handler \<Rightarrow> key \<Rightarrow> request \<Rightarrow> key" where
  "put_place h c req = resolve c (location h req)"

text \<open>What the client of a request was told, or will be told.\<close>

definition told :: "put_pc \<Rightarrow> int \<times> content option" where
  "told pc = (case pc of Answered resp \<Rightarrow> answer_of resp | _ \<Rightarrow> (201, None))"

definition upload_ok :: "Handler \<Rightarrow> key \<Rightarrow> os \<Rightarrow> request \<Rightarrow> bool" where
  "upload_ok h c s req \<longleftrightarrow> addressed h c req s \<and> qMethod req = ''PUT''"

text \<open>
  \<open>m\<close> is the store in which every upload that has begun is complete: it differs from the files only
  where an upload is still being written.
\<close>

definition ahead :: "Handler \<Rightarrow> key \<Rightarrow> request list \<Rightarrow> put_pc list \<Rightarrow> os \<Rightarrow> store \<Rightarrow> bool" where
  "ahead h c reqs pcs s m \<longleftrightarrow>
     (\<forall>t k. t < length pcs \<longrightarrow> pcs ! t = Writing k \<longrightarrow>
        k = put_place h c (reqs ! t) \<and> m k = Some (fst (qBody (reqs ! t))) \<and> store_of s k \<noteq> None) \<and>
     (\<forall>k. (\<forall>t < length pcs. pcs ! t \<noteq> Writing k) \<longrightarrow> m k = store_of s k)"

definition put_inv :: "Handler \<Rightarrow> key \<Rightarrow> request list \<Rightarrow> store \<Rightarrow> put_action list \<Rightarrow> put_pc list \<Rightarrow> os \<Rightarrow> bool" where
  "put_inv h c reqs m0 as pcs s \<longleftrightarrow>
     serving h c s \<and> length pcs = length reqs \<and> (\<forall>req \<in> set reqs. upload_ok h c s req) \<and>
     distinct (begun as) \<and> set (begun as) = {t. t < length pcs \<and> pcs ! t \<noteq> Arrived} \<and>
     (\<exists>m. run_all (store_step h c) (map ((!) reqs) (begun as)) m0 = (map (\<lambda>t. told (pcs ! t)) (begun as), m) \<and>
        ahead h c reqs pcs s m)"

lemma ahead_stored: "ahead h c reqs pcs s m \<Longrightarrow> m k = None \<longleftrightarrow> store_of s k = None"
  unfolding ahead_def by (metis option.distinct(1))

text \<open>The two ways an upload that is well addressed begins.\<close>

lemma put_begin_cases:
  assumes "serving h c s" and "upload_ok h c s req" and "put_begin h req s = (pc, s')"
  obtains (opened) "store_of s (put_place h c req) = None" "pc = Writing (put_place h c req)"
      "store_of s' = (store_of s)(put_place h c req \<mapsto> Raw [])" "serving h c s'" "\<And>k. is_dir_at s' k = is_dir_at s k"
  | (refused) "store_of s (put_place h c req) \<noteq> None" "pc = Answered (answer 409)" "s' = s"
proof -
  let ?k = "put_place h c req"
  have a: "authorized h req" "plain_path req" "is_dir_at s (butlast ?k)" "\<not> is_dir_at s ?k" "qMethod req = ''PUT''"
    using assms(2) by (auto simp: upload_ok_def addressed_def put_place_def)
  have ne: "location h req \<noteq> []" using servingD(5) [OF assms(1)] by (simp add: location_def)
  have open': "put_begin h req s = (case os_OpenFile True (path_Clean (location h req)) 0x1B6 s of
      (Ok output, s') \<Rightarrow> (Writing output, s') | (Err e, s') \<Rightarrow> (Answered (sendErrorResponse e), s')
    | (Panic p, s') \<Rightarrow> (Answered (sendErrorResponse (ErrMsg p)), s'))"
    using a by (simp add: put_begin_def plain_path_def Let_def)
  have cl: "path_Clean (location h req) \<noteq> []" "resolve (cwd s) (path_Clean (location h req)) = ?k"
    using ne servingD(3) [OF assms(1)] by (simp_all add: put_place_def)
  show thesis
  proof (cases "file_at s ?k")
    case None
    have s': "pc = Writing ?k" "s' = put_new ?k (new_file s 0x1B6) s"
      using assms(3) None a(3) cl servingD(4) [OF assms(1)]
      by (simp_all add: open' os_OpenFile_def with_key_def)
    have "fs_wf s'" unfolding s'(2) using servingD(2,3) [OF assms(1)] None a(3)
      by (intro fs_wf_put_new) (auto simp: put_place_def dest: fs_wf_resolve)
    then have "serving h c s'"
      using assms(1) None s'(2) by (auto simp: serving_def rooted_def is_dir_at_put_new_file new_file_def put_new_env)
    then show thesis
      using None s' a(3) by (intro opened) (simp_all add: store_of_def [of s] store_of_put_new new_file_def is_dir_at_put_new_file)
  next
    case (Some n)
    then have "kind n \<noteq> KDir" using a(4) by (simp add: is_dir_at_def)
    then show thesis
      using assms(3) Some cl servingD(4) [OF assms(1)]
      by (intro refused) (auto simp: open' os_OpenFile_def with_key_def store_of_def sendErrorResponse_def answer_def)
  qed
qed

text \<open>Writing to a file that is there.\<close>

lemma write_stored:
  assumes "serving h c s" and "store_of s k \<noteq> None"
  shows "\<exists>s'. write_handle path k d s = (Ok (), s') \<and> store_of s' = (store_of s)(k \<mapsto> d) \<and> serving h c s' \<and>
    (\<forall>k'. is_dir_at s' k' = is_dir_at s k')"
proof -
  obtain n where n: "file_at s k = Some n" "kind n \<noteq> KDir"
    using assms(2) by (auto simp: store_of_def split: option.splits if_splits)
  let ?n = "n\<lparr>data := d, mtime := now s\<rparr>"
  have w: "write_handle path k d s = (Ok (), put k ?n s)" using n servingD(4) [OF assms(1)] by (simp add: write_handle_def)
  have dir: "is_dir_at (put k ?n s) k' = is_dir_at s k'" for k' using n by (auto simp: is_dir_at_def)
  have "fs_wf (put k ?n s)" using servingD(2) [OF assms(1)] n by (intro fs_wf_put) simp_all
  moreover have "store_of (put k ?n s) = (store_of s)(k \<mapsto> d)" using n by (auto simp: store_of_def fun_eq_iff)
  ultimately show ?thesis using assms(1) w dir by (simp add: serving_def rooted_def)
qed

lemma upload_ok_dirs: "(\<And>k. is_dir_at s' k = is_dir_at s k) \<Longrightarrow> upload_ok h c s' req = upload_ok h c s req"
  by (simp add: upload_ok_def addressed_def)

lemma put_inv_start:
  assumes "serving h c s" and "\<forall>req \<in> set reqs. upload_ok h c s req"
  shows "put_inv h c reqs (store_of s) [] (replicate (length reqs) Arrived) s"
  using assms by (simp add: put_inv_def ahead_def)

lemma no_writer:
  "\<forall>u < length (pcs[t := pc]). pcs[t := pc] ! u \<noteq> Writing k \<Longrightarrow> pcs ! t \<noteq> Writing k \<Longrightarrow>
   \<forall>u < length pcs. pcs ! u \<noteq> Writing k"
  by (metis length_list_update nth_list_update_neq)

text \<open>A request that is not in the order yet does not change what the others were told.\<close>

lemma told_update: "t \<notin> set ord \<Longrightarrow> map (\<lambda>u. told (pcs[t := pc] ! u)) ord = map (\<lambda>u. told (pcs ! u)) ord"
  by (rule map_cong) (metis nth_list_update_neq)+

text \<open>Once a request has begun, the invariant asks for the step of the store and a store that is ahead.\<close>

lemma put_inv_begun:
  assumes ord: "distinct (begun as)" "set (begun as) = {t. t < length pcs \<and> pcs ! t \<noteq> Arrived}"
    and m: "run_all (store_step h c) (map ((!) reqs) (begun as)) m0 = (map (\<lambda>t. told (pcs ! t)) (begun as), m)"
    and t: "t < length pcs" "pcs ! t = Arrived" "pc \<noteq> Arrived" and len: "length pcs = length reqs"
    and sv: "serving h c s'" "\<forall>req \<in> set reqs. upload_ok h c s' req"
    and step: "store_step h c (reqs ! t) m = (told pc, m')" and ah: "ahead h c reqs (pcs[t := pc]) s' m'"
  shows "put_inv h c reqs m0 (as @ [Begin t]) (pcs[t := pc]) s'"
proof -
  have new: "t \<notin> set (begun as)" using ord(2) t(2) by simp
  have "pcs[t := pc] ! u \<noteq> Arrived \<longleftrightarrow> u = t \<or> pcs ! u \<noteq> Arrived" if "u < length pcs" for u
    using that t by (cases "u = t") auto
  then have "set (begun (as @ [Begin t])) = {u. u < length (pcs[t := pc]) \<and> pcs[t := pc] ! u \<noteq> Arrived}"
    using ord(2) t(1) by auto
  moreover have "run_all (store_step h c) (map ((!) reqs) (begun (as @ [Begin t]))) m0 =
      (map (\<lambda>u. told (pcs[t := pc] ! u)) (begun (as @ [Begin t])), m')"
    using run_all_snoc [of "store_step h c" "map ((!) reqs) (begun as)" "reqs ! t" m0] m told_update [OF new, of pcs pc] step t(1)
    by simp
  moreover have "distinct (begun (as @ [Begin t]))" "length (pcs[t := pc]) = length reqs" using ord(1) new len by simp_all
  ultimately show ?thesis using sv ah unfolding put_inv_def by blast
qed

lemma ahead_opened:
  assumes ah: "ahead h c reqs pcs s m" and t: "t < length pcs" "pcs ! t = Arrived"
    and k: "k = put_place h c (reqs ! t)" "store_of s k = None" "store_of s' = (store_of s)(k \<mapsto> Raw [])"
  shows "ahead h c reqs (pcs[t := Writing k]) s' (m(k \<mapsto> fst (qBody (reqs ! t))))"
  unfolding ahead_def
proof (intro conjI allI impI, goal_cases)
  case (1 u k')
  then show ?case using ah t(1) k(1) unfolding ahead_def by (auto simp: nth_list_update split: if_splits)
next
  case (2 u k')
  then show ?case using ah t(1) k(1,2) unfolding ahead_def by (auto simp: nth_list_update split: if_splits)
next
  case (3 u k')
  then show ?case using ah t(1) k(3) unfolding ahead_def by (auto simp: nth_list_update split: if_splits)
next
  case (4 k')
  have "k' \<noteq> k" using 4 [rule_format, of t] t(1) by auto
  moreover have "\<forall>u < length pcs. pcs ! u \<noteq> Writing k'" by (rule no_writer [OF 4]) (simp add: t(2))
  ultimately show ?case using ah k(3) unfolding ahead_def by simp
qed

lemma ahead_refused:
  assumes "ahead h c reqs pcs s m" and "t < length pcs" "pcs ! t = Arrived"
  shows "ahead h c reqs (pcs[t := Answered resp]) s m"
proof -
  have "pcs[t := Answered resp] ! u = Writing k \<longleftrightarrow> pcs ! u = Writing k" for u k
    using assms(2,3) by (cases "u = t") auto
  then show ?thesis using assms(1) unfolding ahead_def by simp
qed

lemma begin_inv:
  assumes inv: "put_inv h c reqs m0 as pcs s" and step: "put_step h reqs (Begin t) (pcs, s) = Some (pcs', s')"
  shows "put_inv h c reqs m0 (as @ [Begin t]) pcs' s'"
proof -
  let ?q = "reqs ! t" and ?k = "put_place h c (reqs ! t)"
  obtain pc where t: "t < length pcs" "pcs ! t = Arrived" "put_begin h ?q s = (pc, s')" "pcs' = pcs[t := pc]"
    using step by (auto split: if_splits prod.splits)
  have sv: "serving h c s" and len: "length pcs = length reqs" and ok: "\<forall>req \<in> set reqs. upload_ok h c s req"
    and ord: "distinct (begun as)" "set (begun as) = {t. t < length pcs \<and> pcs ! t \<noteq> Arrived}"
    using inv by (auto simp: put_inv_def)
  obtain m where m: "run_all (store_step h c) (map ((!) reqs) (begun as)) m0 = (map (\<lambda>t. told (pcs ! t)) (begun as), m)"
    and ah: "ahead h c reqs pcs s m" using inv by (auto simp: put_inv_def)
  have okq: "upload_ok h c s ?q" and get: "qMethod ?q \<noteq> ''GET''" using ok t(1) len by (simp_all add: upload_ok_def)
  from sv okq t(3) show ?thesis
  proof (cases rule: put_begin_cases)
    case opened
    have "store_step h c ?q m = (told pc, m(?k \<mapsto> fst (qBody ?q)))"
      using opened(1,2) ahead_stored [OF ah, of ?k] get by (simp add: told_def store_step_def put_place_def Let_def)
    moreover have "ahead h c reqs (pcs[t := pc]) s' (m(?k \<mapsto> fst (qBody ?q)))"
      using ahead_opened [OF ah t(1,2) refl opened(1,3)] opened(2) by simp
    ultimately show ?thesis unfolding t(4)
      using put_inv_begun [OF ord m t(1,2) _ len opened(4)] opened(2) ok upload_ok_dirs [of s' s, OF opened(5)] by simp
  next
    case refused
    have "store_step h c ?q m = (told pc, m)"
      using refused(1,2) ahead_stored [OF ah, of ?k] get
      by (auto simp: told_def answer_of_def answer_def store_step_def put_place_def Let_def)
    then show ?thesis unfolding t(4)
      using put_inv_begun [OF ord m t(1,2) _ len sv ok] ahead_refused [OF ah t(1,2)] refused(2,3) by simp
  qed
qed

text \<open>A write, of a part or of everything, keeps the store that is ahead.\<close>

lemma write_inv:
  assumes inv: "put_inv h c reqs m0 as pcs s" and t: "t < length pcs" "pcs ! t = Writing k"
    and w: "store_of s' = (store_of s)(k \<mapsto> d)" "serving h c s'" "\<And>k'. is_dir_at s' k' = is_dir_at s k'"
    and pc: "pc = Writing k \<or> pc = Answered (answer 201) \<and> d = fst (qBody (reqs ! t))" and b: "begun bs = []"
  shows "put_inv h c reqs m0 (as @ bs) (pcs[t := pc]) s'"
proof -
  obtain m where m: "run_all (store_step h c) (map ((!) reqs) (begun as)) m0 = (map (\<lambda>t. told (pcs ! t)) (begun as), m)"
    and ah: "ahead h c reqs pcs s m" using inv by (auto simp: put_inv_def)
  have same: "told (pcs[t := pc] ! u) = told (pcs ! u)" for u
    using t pc by (auto simp: told_def nth_list_update answer_of_def answer_def)
  have mk: "m k = Some (fst (qBody (reqs ! t)))" using ah t by (simp add: ahead_def)
  have "ahead h c reqs (pcs[t := pc]) s' m"
    unfolding ahead_def
  proof (intro conjI allI impI, goal_cases)
    case (1 u k)
    then show ?case using ah t pc unfolding ahead_def by (auto simp: nth_list_update split: if_splits)
  next
    case (2 u k)
    then show ?case using ah t pc unfolding ahead_def by (auto simp: nth_list_update split: if_splits)
  next
    case (3 u k)
    then show ?case using ah t pc w(1) unfolding ahead_def by (auto simp: nth_list_update split: if_splits)
  next
    case (4 k')
    show ?case
    proof (cases "k' = k")
      case True
      then have "pc \<noteq> Writing k" using 4 [rule_format, of t] t by auto
      then show ?thesis using True pc mk w(1) by simp
    next
      case False
      have "\<forall>u < length pcs. pcs ! u \<noteq> Writing k'" by (rule no_writer [OF 4]) (use False t(2) in simp)
      then show ?thesis using ah w(1) False unfolding ahead_def by simp
    qed
  qed
  moreover have "pcs[t := pc] ! u \<noteq> Arrived \<longleftrightarrow> pcs ! u \<noteq> Arrived" for u using t pc by (cases "u = t") auto
  moreover have "serving h c s'" "\<forall>req \<in> set reqs. upload_ok h c s' req"
    using inv w(2) upload_ok_dirs [of s' s, OF w(3)] by (simp_all add: put_inv_def)
  ultimately show ?thesis using inv m b unfolding put_inv_def by (simp add: same)
qed

lemma put_inv_step:
  assumes inv: "put_inv h c reqs m0 as pcs s" and step: "put_step h reqs a (pcs, s) = Some (pcs', s')"
  shows "put_inv h c reqs m0 (as @ [a]) pcs' s'"
proof (cases a)
  case (Begin t)
  then show ?thesis using begin_inv [OF inv] step by blast
next
  case (Part t d)
  then obtain k where t: "t < length pcs" "pcs ! t = Writing k" and s': "s' = put_part h (reqs ! t) k d s" "pcs' = pcs"
    using step by (auto split: if_splits put_pc.splits)
  have "serving h c s" "store_of s k \<noteq> None" using inv t unfolding put_inv_def ahead_def by auto
  then obtain s1 where "write_handle (path_Clean (location h (reqs ! t))) k d s = (Ok (), s1)" and
    w: "store_of s1 = (store_of s)(k \<mapsto> d)" "serving h c s1" "\<And>k'. is_dir_at s1 k' = is_dir_at s k'"
    using write_stored by blast
  then have "s1 = s'" using s' by (simp add: put_part_def)
  then show ?thesis using write_inv [OF inv t w, of "Writing k" "[a]"] Part s'(2) list_update_id [of pcs t] t(2) by simp
next
  case (End t)
  then obtain k resp where t: "t < length pcs" "pcs ! t = Writing k" and e: "put_end h (reqs ! t) k s = (resp, s')"
    and p: "pcs' = pcs[t := Answered resp]"
    using step by (auto split: if_splits put_pc.splits prod.splits)
  have sv: "serving h c s" "store_of s k \<noteq> None" using inv t unfolding put_inv_def ahead_def by auto
  have "reqs ! t \<in> set reqs" using inv t(1) by (simp add: put_inv_def)
  then have full: "snd (qBody (reqs ! t)) = None" using inv by (auto simp: put_inv_def upload_ok_def addressed_def)
  obtain s1 where s1: "write_handle (path_Clean (location h (reqs ! t))) k (fst (qBody (reqs ! t))) s = (Ok (), s1)" and
    w: "store_of s1 = (store_of s)(k \<mapsto> fst (qBody (reqs ! t)))" "serving h c s1" "\<And>k'. is_dir_at s1 k' = is_dir_at s k'"
    using write_stored [OF sv] by blast
  then have "resp = answer 201" "s1 = s'" using e full by (simp_all add: put_end_def seq_def)
  then show ?thesis using write_inv [OF inv t w, of "Answered (answer 201)" "[a]"] End p by simp
qed

lemma put_inv_run:
  "put_inv h c reqs m0 as pcs s \<Longrightarrow> put_run h reqs bs (pcs, s) = Some (pcs', s') \<Longrightarrow> put_inv h c reqs m0 (as @ bs) pcs' s'"
proof (induction bs arbitrary: as pcs s)
  case (Cons a bs)
  obtain pcs1 s1 where 1: "put_step h reqs a (pcs, s) = Some (pcs1, s1)" "put_run h reqs bs (pcs1, s1) = Some (pcs', s')"
    using Cons.prems(2) by (auto split: option.splits)
  show ?case using Cons.IH [OF put_inv_step [OF Cons.prems(1) 1(1)] 1(2)] by simp
qed simp

text \<open>
  A download is not atomic with an upload of the same place: while the upload is being written it is
  answered with 200 and what has arrived so far.
\<close>

lemma download_sees_part:
  assumes "serving h c s" and "upload_ok h c s preq" and "put_begin h preq s = (Writing output, s1)"
    and "plain_path greq" and "qPath greq = qPath preq"
  shows "rStatus (http_ServeFile ct greq (location h greq) (put_part h preq output d s1)) = 200 \<and>
    rBody (http_ServeFile ct greq (location h greq) (put_part h preq output d s1)) = FileBody d"
  using assms(1-3)
proof (cases rule: put_begin_cases)
  case opened
  have loc: "location h greq = location h preq" using assms(5) by (simp add: location_def)
  have "store_of s1 output \<noteq> None" using opened(2,3) by simp
  from write_stored [OF opened(4) this]
  obtain s2 where w: "write_handle (path_Clean (location h preq)) output d s1 = (Ok (), s2)"
    "store_of s2 = (store_of s1)(output \<mapsto> d)" "serving h c s2" by blast
  have "output = resolve c (location h greq)" using opened(2) loc by (simp add: put_place_def)
  then have "store_of s2 (resolve c (location h greq)) = Some d" using w(2) by simp
  then obtain n where "file_at s2 (resolve c (location h greq)) = Some n" "kind n \<noteq> KDir" "data n = d"
    by (auto simp: store_of_def split: option.splits if_splits)
  with get_stored [OF w(3) assms(4)] show ?thesis using w(1) by (simp add: put_part_def)
qed simp

section \<open>Property\<close>

text \<open>Property C10: concurrent uploads are atomic. Let well-addressed uploads be handled by one goroutine
  each, their checks and opens, partial writes and last writes interleaved in any way, until all are
  answered. Then every request has opened exactly once, and handling the requests one after the other
  in the order of the opens gives the same status to each and leaves the same contents; so of several
  uploads to one place the first to open wins and the others are refused.\<close>

theorem concurrent_uploads_atomic:
  assumes "serving h c s" and "\<forall>req \<in> set reqs. addressed h c req s \<and> qMethod req = ''PUT''"
    and "put_run h reqs acts (replicate (length reqs) Arrived, s) = Some (map Answered resps, s')"
  shows "distinct (begun acts) \<and> set (begun acts) = {0..<length reqs} \<and>
    (\<exists>rs s''. run_all (ServeHTTP h) (map ((!) reqs) (begun acts)) s = (rs, s'') \<and>
       map answer_of rs = map (\<lambda>t. answer_of (resps ! t)) (begun acts) \<and> store_of s'' = store_of s')"
proof -
  have ok: "\<forall>req \<in> set reqs. upload_ok h c s req" using assms(2) by (simp add: upload_ok_def)
  have inv: "put_inv h c reqs (store_of s) acts (map Answered resps) s'"
    using put_inv_run [OF put_inv_start [OF assms(1) ok] assms(3)] by simp
  then have len: "length resps = length reqs" and ord: "distinct (begun acts)" "set (begun acts) = {0..<length reqs}"
    by (auto simp: put_inv_def)
  obtain m where m: "run_all (store_step h c) (map ((!) reqs) (begun acts)) (store_of s) =
      (map (\<lambda>t. told (map Answered resps ! t)) (begun acts), m)" "ahead h c reqs (map Answered resps) s' m"
    using inv by (auto simp: put_inv_def)
  have "m = store_of s'" using m(2) by (auto simp: ahead_def)
  moreover have "map (\<lambda>t. told (map Answered resps ! t)) (begun acts) = map (\<lambda>t. answer_of (resps ! t)) (begun acts)"
    using ord(2) len by (auto simp: told_def)
  ultimately have conc: "run_all (store_step h c) (map ((!) reqs) (begun acts)) (store_of s) =
      (map (\<lambda>t. answer_of (resps ! t)) (begun acts), store_of s')" using m(1) by simp
  obtain rs s'' where seq: "run_all (ServeHTTP h) (map ((!) reqs) (begun acts)) s = (rs, s'')" by fastforce
  have "addressed h c q s" if "q \<in> set (map ((!) reqs) (begun acts))" for q
    using that assms(2) ord(2) by auto
  from file_server.run_implements [OF assms(1) this seq] show ?thesis using conc seq ord by simp
qed

definition race_requests :: "request list" where
  "race_requests = [demo_request ''PUT'' ''/out.tar'' ''u:p'', demo_request ''PUT'' ''/out.tar'' ''u:p'']"

theorem concurrent_uploads_atomic_witness:
  "\<exists>s'. put_run demo_handler race_requests [Begin 1, Part 1 (Raw ''out''), Begin 0, End 1] ([Arrived, Arrived], demo_os) =
      Some ([Answered (answer 409), Answered (answer 201)], s') \<and>
    map rStatus (fst (run_all (ServeHTTP demo_handler) (map ((!) race_requests) [1, 0]) demo_os)) = [201, 409]"
proof -
  let ?acts = "[Begin 1, Part 1 (Raw ''out''), Begin 0, End 1]"
  have "map_option fst (put_run demo_handler race_requests ?acts ([Arrived, Arrived], demo_os)) =
      Some [Answered (answer 409), Answered (answer 201)]" by code_simp
  then obtain s' where run: "put_run demo_handler race_requests ?acts ([Arrived, Arrived], demo_os) =
      Some ([Answered (answer 409), Answered (answer 201)], s')" by auto
  have "\<forall>req \<in> set race_requests. addressed demo_handler [] req demo_os \<and> qMethod req = ''PUT''"
    using demo_addressed by (simp add: race_requests_def demo_session_def demo_fields)
  then obtain rs s'' where "run_all (ServeHTTP demo_handler) (map ((!) race_requests) [1, 0]) demo_os = (rs, s'')"
    "map answer_of rs = map answer_of [answer 201, answer 409]"
    using concurrent_uploads_atomic [OF demo_store_serving, of race_requests ?acts "[answer 409, answer 201]" s'] run
    by (auto simp: race_requests_def)
  then have "map fst (map answer_of rs) = [201, 409]" by (simp add: answer_of_def answer_def)
  then show ?thesis using run \<open>run_all _ _ _ = (rs, s'')\<close> by (simp add: answer_of_def comp_def)
qed

end
