(* ===== verification/FsTermination.thy ===== *)
theory FsTermination
  imports FsProps
begin

text \<open>
  Termination of package \<^verbatim>\<open>fs\<close>. \<^verbatim>\<open>CopyDir\<close> and the walk of \<^verbatim>\<open>CreateTar\<close> recurse on the
  directories they find when they read them, and the model bounds the depth of the recursion. Here the
  bound is shown not to matter: a depth above that of the file system is enough, whatever calls fail,
  and any larger depth gives the same result. For \<^verbatim>\<open>CopyDir\<close> this takes a destination that is
  neither inside nor around the source; copying a directory into its own subdirectory recurses
  without end (\<open>CopyDir_into_itself\<close>).
\<close>

section \<open>Programs that return\<close>

definition returned :: "'a outcome \<times> 'b \<Rightarrow> bool" where
  "returned x = (case fst x of Panic p \<Rightarrow> False | _ \<Rightarrow> True)"

lemma returned_simps [simp]: "returned (Ok a, s)" "returned (Err e, s)" "\<not> returned (Panic p, s)"
  by (simp_all add: returned_def)

lemma returned_iff: "returned x \<longleftrightarrow> (\<forall>p. fst x \<noteq> Panic p)"
  by (cases "fst x") (simp_all add: returned_def)

text \<open>Calls that never panic, whatever the state.\<close>

definition calm :: "'a sys \<Rightarrow> bool" where
  "calm m \<longleftrightarrow> (\<forall>s. returned (m s))"

named_theorems calm_rules

lemma calmD: "calm m \<Longrightarrow> returned (m s)"
  by (simp add: calm_def)

lemma returned_seq:
  assumes "returned (m s)" and "\<And>a s'. m s = (Ok a, s') \<Longrightarrow> returned (f a s')"
  shows "returned (seq m f s)"
  using assms by (cases "m s" rule: prod.exhaust) (auto simp: seq_def split: outcome.splits)

lemma calm_seq [calm_rules]: "calm m \<Longrightarrow> (\<And>a. calm (f a)) \<Longrightarrow> calm (seq m f)"
  by (simp add: calm_def returned_seq)

lemma calm_primitives [calm_rules]:
  "calm (ret a)" "calm (throw e)" "calm (lookup_key op oper path k)" "calm (write_handle path k c)"
  "calm (close_handle path k)" "calm (mkdir_key path k mode)" "calm (\<lambda>s. (Ok b, h s))"
  by (simp_all add: calm_def lookup_key_def write_handle_def close_handle_def mkdir_key_def split: option.split)

lemma calm_with_key [calm_rules]: "(\<And>k. calm (f k)) \<Longrightarrow> calm (with_key oper path f)"
  by (simp add: calm_def with_key_def)

lemma calm_if [calm_rules]: "calm m \<Longrightarrow> calm n \<Longrightarrow> calm (if b then m else n)"
  by simp

lemma calm_OpenFile [calm_rules]: "calm (os_OpenFile excl path mode)"
  by (simp add: calm_def os_OpenFile_def with_key_def split: option.split)

lemma calm_reads [calm_rules]: "calm (os_Open path)" "calm (read_handle path k)" "calm (os_Lstat path)"
  "calm (os_Chtimes path at mt)" "calm (writeFileContents path)"
  unfolding os_Open_def read_handle_def os_Lstat_def os_Chtimes_def writeFileContents_def
  by (intro calm_rules)+

lemma calm_mkdirs: "calm (mkdirs path rk mode)"
proof (induction rk arbitrary: path)
  case Nil
  then show ?case by (simp add: calm_def)
next
  case (Cons n rk)
  have "calm (mkdir_last path (rev (n # rk)) mode)"
    by (simp add: calm_def mkdir_last_def mkdir_key_def split: option.split)
  with Cons have "calm (seq (mkdirs (path_Dir path) rk mode) (\<lambda>_. mkdir_last path (rev (n # rk)) mode))"
    by (intro calm_rules)
  then show ?case by (simp add: calm_def split: prod.split outcome.split)
qed

lemma calm_MkdirAll [calm_rules]: "calm (os_MkdirAll path mode)"
  unfolding os_MkdirAll_def by (intro calm_rules calm_mkdirs)

lemma calm_ReadDir [calm_rules]: "calm (ioutil_ReadDir path)"
  unfolding ioutil_ReadDir_def by (intro calm_rules) (simp add: calm_def)

lemma calm_copyClose [calm_rules]: "calm reader \<Longrightarrow> calm (copyClose path k reader)"
  unfolding calm_def
proof
  fix s
  assume "\<forall>s. returned (reader s)"
  then have "calm (seq reader (write_handle path k))" by (intro calm_rules) (simp add: calm_def)
  then have "returned (seq reader (write_handle path k) s)" by (rule calmD)
  then show "returned (copyClose path k reader s)"
    by (cases "seq reader (write_handle path k) s" rule: prod.exhaust)
      (auto simp: copyClose_def calmD [OF calm_primitives(5)] split: outcome.split)
qed

lemma calm_CopyFile [calm_rules]: "calm (CopyFile src dest)" "calm (chtimes path fi)"
  unfolding CopyFile_def chtimes_def by (intro calm_rules)+

section \<open>More depth does not change a result\<close>

lemma seq_more:
  assumes "returned (seq m f s)" and "returned (m s) \<Longrightarrow> m' s = m s"
    and "\<And>a s'. m s = (Ok a, s') \<Longrightarrow> returned (f a s') \<Longrightarrow> f' a s' = f a s'"
  shows "seq m' f' s = seq m f s"
  using assms by (cases "m s" rule: prod.exhaust) (auto simp: seq_def split: outcome.splits)

lemma CopyDir_more:
  "returned (CopyDir d src dest s) \<Longrightarrow> CopyDir (Suc d) src dest s = CopyDir d src dest s"
  "returned (copy_entries d src dest es s) \<Longrightarrow> copy_entries (Suc d) src dest es s = copy_entries d src dest es s"
proof (induction d src dest and d src dest es arbitrary: s and s rule: CopyDir_copy_entries.induct)
  case (2 d src dest)
  then show ?case unfolding CopyDir.simps(2) by (intro seq_more) auto
next
  case (4 d src dest name de rest)
  show ?case
  proof (cases "kind de = KDir")
    case True
    note IH = "4.IH"(1,2) [OF refl refl True]
    show ?thesis using "4.prems" IH unfolding copy_entries.simps Let_def if_P [OF True]
      by (intro seq_more) (assumption | rule refl | blast)+
  next
    case False
    note IH = "4.IH"(3) [OF refl refl False]
    show ?thesis using "4.prems" IH unfolding copy_entries.simps Let_def if_not_P [OF False]
      by (intro seq_more) (assumption | rule refl | blast)+
  qed
qed simp_all

lemma CopyDir_enough:
  assumes "returned (CopyDir d src dest s)" and "d \<le> d'"
  shows "CopyDir d' src dest s = CopyDir d src dest s"
  using assms(2)
proof (induction d' rule: dec_induct)
  case (step n)
  have "returned (CopyDir n src dest s)" using assms(1) step(3) by simp
  then show ?case using CopyDir_more(1) step(3) by simp
qed simp

section \<open>\<^verbatim>\<open>CopyDir\<close> returns\<close>

text \<open>The length of the longest path in a file system.\<close>

definition fs_depth :: "os \<Rightarrow> nat" where
  "fs_depth s = foldr (\<lambda>(k, _) m. max (length k) m) (files s) 0"

lemma fs_depth_ge: "file_at s k \<noteq> None \<Longrightarrow> length k \<le> fs_depth s"
proof -
  have "map_of fs k \<noteq> None \<Longrightarrow> length k \<le> foldr (\<lambda>(k, _) m. max (length k) m) fs 0" for fs :: "(key \<times> inode) list"
    by (induction fs) (auto split: if_splits)
  then show "file_at s k \<noteq> None \<Longrightarrow> length k \<le> fs_depth s" by (simp add: file_at_def fs_depth_def)
qed

text \<open>What the recursion relies on, kept by everything that is written below the destination.\<close>

definition copy_site :: "key \<Rightarrow> key \<Rightarrow> key \<Rightarrow> nat \<Rightarrow> os \<Rightarrow> bool" where
  "copy_site c S D d s \<longleftrightarrow> fs_wf s \<and> cwd s = c \<and> is_dir_at s D \<and> \<not> prefix S D \<and> \<not> prefix D S \<and>
     (\<forall>r. is_dir_at s (S @ r) \<longrightarrow> length r \<le> d)"

lemma copy_site_step:
  assumes "copy_site c S D d s" and "step_below D s s'"
  shows "copy_site c S D d s'"
proof -
  have par: "\<not> prefix S D" "\<not> prefix D S" using assms(1) by (auto simp: copy_site_def)
  have "is_dir_at s' (S @ r) = is_dir_at s (S @ r)" for r
  proof -
    have "\<not> prefix D (S @ r)" by (rule parallel_append [OF par])
    then have "file_at s' (S @ r) = file_at s (S @ r) \<or>
        file_at s' (S @ r) = map_option (\<lambda>n. n\<lparr>mtime := now s\<rparr>) (file_at s (S @ r))"
      using assms(2) by (auto simp: step_below_def)
    then show ?thesis by (elim disjE) (simp_all add: is_dir_at_def split: option.split)
  qed
  then show ?thesis using assms step_below_env [OF assms(2)] by (auto simp: copy_site_def step_below_def)
qed

lemma copy_site_sub:
  assumes "copy_site c S D (Suc d) s" and "is_dir_at s (D @ [n])"
  shows "copy_site c (S @ [n]) (D @ [n]) d s"
proof -
  have par: "\<not> prefix S D" "\<not> prefix D S" and deep: "\<And>r. is_dir_at s (S @ n # r) \<Longrightarrow> length (n # r) \<le> Suc d"
    using assms(1) unfolding copy_site_def by blast+
  have "\<not> prefix (S @ [n]) (D @ [n])" "\<not> prefix (D @ [n]) (S @ [n])"
    using par by (auto dest: append_prefixD)
  then show ?thesis using assms deep by (auto simp: copy_site_def)
qed

lemma copy_site_call:
  assumes "confined c {D} D m" and "copy_site c S D d s" and "m s = (r, s')"
  shows "copy_site c S D d s'"
  using assms by (intro copy_site_step [OF assms(2)] confinedD [OF assms(1)]) (auto simp: copy_site_def)

text \<open>One subdirectory, given that the recursion returns on it and that the rest returns.\<close>

lemma copy_subdir_returned:
  fixes m :: "unit sys"
  assumes sub: "\<And>s. copy_site c (resolve c src @ [n]) (resolve c dest @ [n]) d' s \<Longrightarrow>
      returned (CopyDir d (path_Join [src, n]) (path_Join [dest, n]) s)"
    and ne: "src \<noteq> []" "dest \<noteq> []" and nm: "is_name n" and d: "d = Suc d'"
    and site: "copy_site c (resolve c src) (resolve c dest) d s"
    and rest: "\<And>s. copy_site c (resolve c src) (resolve c dest) d s \<Longrightarrow> returned (m s)"
  shows "returned (seq (os_MkdirAll (path_Join [dest, n]) mode) (\<lambda>_.
    seq (CopyDir d (path_Join [src, n]) (path_Join [dest, n])) (\<lambda>_. seq (chtimes (path_Join [dest, n]) de) (\<lambda>_. m))) s)"
proof (rule returned_seq [OF calmD [OF calm_MkdirAll]])
  let ?S = "resolve c src" and ?D = "resolve c dest" and ?s = "path_Join [src, n]" and ?d = "path_Join [dest, n]"
  fix u s1
  assume mk: "os_MkdirAll ?d mode s = (Ok u, s1)"
  have k: "resolve c ?d = ?D @ [n]" "?s \<noteq> []" "?d \<noteq> []" using ne nm by auto
  have wf: "fs_wf s" "cwd s = c" using site by (auto simp: copy_site_def)
  have s1: "copy_site c ?S ?D d s1" "is_dir_at s1 (?D @ [n])"
    using copy_site_call [OF confined_mono [OF confined_MkdirAll [OF _ ne(2) nm]] site mk]
      os_MkdirAll_Ok_dir [OF wf(1) mk] k(1) wf(2) by auto
  show "returned (seq (CopyDir d ?s ?d) (\<lambda>_. seq (chtimes ?d de) (\<lambda>_. m)) s1)"
  proof (rule returned_seq)
    show "returned (CopyDir d ?s ?d s1)" using sub copy_site_sub s1 d by simp
    fix v s2
    assume cp: "CopyDir d ?s ?d s1 = (Ok v, s2)"
    have "confined c {?D @ [n]} (?D @ [n]) (CopyDir d ?s ?d)" using confined_CopyDir(1) [of ?d ?s c d] k by simp
    from confinedD [OF this _ _ _ cp] have "step_below (?D @ [n]) s1 s2" using s1 unfolding copy_site_def by blast
    then have s2: "copy_site c ?S ?D d s2" using copy_site_step [OF s1(1)] step_below_mono by blast
    have "confined c {?D} ?D (chtimes ?d de)" using confined_chtimes [of c "{?D}" ?d de] k(1) confined_mono by auto
    from rest [OF copy_site_call [OF this s2]] show "returned (seq (chtimes ?d de) (\<lambda>_. m) s2)"
      by (rule returned_seq [OF calmD [OF calm_CopyFile(2)]])
  qed
qed

text \<open>The entries of one directory, given that the recursion returns on its subdirectories.\<close>

lemma copy_entries_returned:
  assumes sub: "\<And>src dest s. 0 < d \<Longrightarrow> copy_site c (resolve c src) (resolve c dest) (d - 1) s \<Longrightarrow>
      src \<noteq> [] \<Longrightarrow> dest \<noteq> [] \<Longrightarrow> returned (CopyDir d src dest s)"
    and ne: "src \<noteq> []" "dest \<noteq> []"
  shows "copy_site c (resolve c src) (resolve c dest) d s \<Longrightarrow>
    (\<And>n de. (n, de) \<in> set es \<Longrightarrow> is_name n \<and> (kind de = KDir \<longrightarrow> 0 < d)) \<Longrightarrow>
    returned (copy_entries d src dest es s)"
proof (induction es arbitrary: s)
  case Nil
  then show ?case by simp
next
  case (Cons e es)
  let ?S = "resolve c src" and ?D = "resolve c dest"
  obtain n de where e: "e = (n, de)" by (cases e)
  let ?s = "path_Join [src, n]" and ?d = "path_Join [dest, n]"
  have nm: "is_name n" and pos: "kind de = KDir \<Longrightarrow> 0 < d" using Cons.prems(2) [of n de] e by auto
  have k: "resolve c ?s = ?S @ [n]" "resolve c ?d = ?D @ [n]" "?s \<noteq> []" "?d \<noteq> []" using ne nm by auto
  have IH: "returned (copy_entries d src dest es s')" if "copy_site c ?S ?D d s'" for s'
    using Cons.IH [OF that] Cons.prems(2) by (meson list.set_intros(2))
  show ?case
  proof (cases "kind de = KDir")
    case True
    then obtain d' where d: "d = Suc d'" using pos by (cases d) auto
    have "returned (CopyDir d ?s ?d s')" if "copy_site c (?S @ [n]) (?D @ [n]) d' s'" for s'
      using sub [of ?s ?d s'] that d k by simp
    from copy_subdir_returned [OF this ne nm d Cons.prems(1) IH] show ?thesis using True e by (simp add: Let_def)
  next
    case False
    have "confined c {?D} ?D (CopyFile ?s ?d)"
      using confined_CopyFile [of c "{?D}" ?d ?s] k(2) confined_mono by auto
    from IH [OF copy_site_call [OF this Cons.prems(1)]]
    have "returned (copy_entries d src dest es s1)" if "CopyFile ?s ?d s = (Ok u, s1)" for u s1
      using that by blast
    then show ?thesis using False e by (simp add: Let_def returned_seq calmD calm_CopyFile)
  qed
qed

lemma CopyDir_returned:
  "copy_site c (resolve c src) (resolve c dest) d s \<Longrightarrow> src \<noteq> [] \<Longrightarrow> dest \<noteq> [] \<Longrightarrow>
   returned (CopyDir (Suc d) src dest s)"
proof (induction d arbitrary: src dest s rule: less_induct)
  case (less d)
  let ?S = "resolve c src"
  have wf: "fs_wf s" "cwd s = c" and deep: "\<And>r. is_dir_at s (?S @ r) \<Longrightarrow> length r \<le> d"
    using less.prems(1) by (auto simp: copy_site_def)
  have sub: "returned (CopyDir d src dest s)"
    if "0 < d" "copy_site c (resolve c src) (resolve c dest) (d - 1) s" "src \<noteq> []" "dest \<noteq> []" for src dest s
    using less.IH [of "d - 1" src dest s] that by simp
  have "returned (copy_entries d src dest es s')" if rd: "ioutil_ReadDir src s = (Ok es, s')" for es s'
  proof -
    have s': "s' = s" using ioutil_ReadDir_state [OF rd] .
    have "is_name n \<and> (kind de = KDir \<longrightarrow> 0 < d)" if "(n, de) \<in> set es" for n de
    proof -
      have "file_at s (?S @ [n]) = Some de" using that rd wf by (auto simp: ioutil_ReadDir_Ok set_children)
      then show ?thesis using deep [of "[n]"] fs_wf_name [OF wf(1)] by (auto simp: is_dir_at_iff)
    qed
    then show ?thesis using copy_entries_returned [OF sub less.prems(2,3)] less.prems(1) s' by blast
  qed
  then show ?case by (simp add: returned_seq calmD calm_ReadDir)
qed

text \<open>Copying a directory into its only, empty, subdirectory: no depth is enough.\<close>

lemma children_single:
  assumes "fs_wf s" and "\<And>n. file_at s (k @ [n]) \<noteq> None \<longleftrightarrow> n = c"
  shows "children s k = [c]"
proof -
  have "set (children s k) = {c}" using assms(2) by (auto simp: set_children)
  then show ?thesis using distinct_children [OF assms(1), of k]
    by (cases "children s k") (auto simp: subset_singleton_iff)
qed

lemma CopyDir_into_itself:
  "fs_wf s \<Longrightarrow> no_faults s \<Longrightarrow> is_name c \<Longrightarrow> src \<noteq> [] \<Longrightarrow> is_dir_at s (resolve (cwd s) src @ [c]) \<Longrightarrow>
   (\<And>n. file_at s (resolve (cwd s) src @ [n]) \<noteq> None \<longleftrightarrow> n = c) \<Longrightarrow>
   (\<And>n. file_at s (resolve (cwd s) src @ [c, n]) = None) \<Longrightarrow>
   \<exists>s'. CopyDir d src (path_Join [src, c]) s = (Panic ''stack overflow'', s')"
proof (induction d arbitrary: src s)
  case 0
  then show ?case by simp
next
  case (Suc d)
  let ?k = "resolve (cwd s) src" and ?t = "path_Join [src, c]"
  obtain nd where nd: "file_at s (?k @ [c]) = Some nd" "kind nd = KDir" using Suc.prems(5) by (auto simp: is_dir_at_iff)
  have dk: "is_dir_at s ?k" using Suc.prems(1) nd(1) by (auto simp: fs_wf_def)
  then have rd: "ioutil_ReadDir src s = (Ok [(c, nd)], s)"
    using Suc.prems(1-4) children_single [OF Suc.prems(1,6)] nd by (simp add: ioutil_ReadDir_Ok)
  have t: "?t \<noteq> []" "resolve (cwd s) ?t = ?k @ [c]" using Suc.prems(3,4) by auto
  define s1 where "s1 = put_new (?k @ [c, c]) (new_dir s (file_mode nd)) s"
  have bl: "butlast (?k @ [c, c]) = ?k @ [c]" by (simp add: butlast_append)
  have mk: "os_MkdirAll (path_Join [?t, c]) (file_mode nd) s = (Ok (), s1)"
    using MkdirAll_exact [OF Suc.prems(1,2) t(1) Suc.prems(3)] Suc.prems(5,7) t(2) by (simp add: s1_def)
  have wf: "fs_wf s1" unfolding s1_def
    using Suc.prems(1,3,5,7) fs_wf_names [OF Suc.prems(1) is_dir_at_exists [OF Suc.prems(5)]]
    by (intro fs_wf_put_new) (auto simp: butlast_append)
  have "\<exists>s'. CopyDir d ?t (path_Join [?t, c]) s1 = (Panic ''stack overflow'', s')"
  proof (rule Suc.IH [OF wf _ Suc.prems(3) t(1)])
    show "no_faults s1" using Suc.prems(2) by (simp add: s1_def)
    show "is_dir_at s1 (resolve (cwd s1) ?t @ [c])" using t by (simp add: s1_def is_dir_at_put_new new_dir_def)
    show "file_at s1 (resolve (cwd s1) ?t @ [n]) \<noteq> None \<longleftrightarrow> n = c" for n
      using t Suc.prems(7) by (auto simp: s1_def file_at_put_new bl)
    have "file_at s (?k @ [c, c, n]) = None" for n
      using fs_wf_prefix_dir [OF Suc.prems(1), of "?k @ [c, c]" "[n]"] Suc.prems(7)
      by (cases "file_at s (?k @ [c, c, n])") (auto simp: is_dir_at_iff)
    then show "file_at s1 (resolve (cwd s1) ?t @ [c, n]) = None" for n
      using t by (auto simp: s1_def file_at_put_new bl)
  qed
  then show ?case using rd mk nd(2) by (auto simp: seq_def Let_def)
qed

section \<open>\<^verbatim>\<open>CreateTar\<close> returns\<close>

lemma path_Rel_returns: "path_Rel a b \<noteq> Panic p"
  by (simp add: path_Rel_def Let_def split: prod.split list.split)

lemma tar_visit_returns: "returned (tar_visit root path info acc s)"
proof -
  have h: "fileInfoHeader r i \<noteq> Panic p" for r i p
    by (simp add: fileInfoHeader_def tar_FileInfoHeader_def split: fkind.split)
  have "returned (writeFileContents path s)" by (rule calmD) (rule calm_rules)
  then show ?thesis using path_Rel_returns h
    by (auto simp: tar_visit_def returned_def split: outcome.split fkind.split)
qed

lemma tar_walk_returns:
  "fs_wf s \<Longrightarrow> path \<noteq> [] \<Longrightarrow> fs_depth s < length (resolve (cwd s) path) + d \<Longrightarrow> 0 < d \<Longrightarrow>
   returned (tar_walk d root path info acc s)"
  "fs_wf s \<Longrightarrow> path \<noteq> [] \<Longrightarrow> fs_depth s \<le> length (resolve (cwd s) path) + d \<Longrightarrow> list_all is_name ns \<Longrightarrow>
   returned (tar_walk_names d root path ns acc s)"
proof (induction d root path info acc s and d root path ns acc s rule: tar_walk_tar_walk_names.induct)
  case (2 d root path info acc s)
  have "returned (tar_walk_names d root path (map fst es) (a, b) s)"
    if k: "kind info = KDir" and r: "ioutil_ReadDir path s = (Ok es, s')"
      and v: "tar_visit root path info acc s = (Ok u, (a, b))" for es s' u a b
  proof -
    have "list_all is_name (map fst es)" using ReadDir_names [OF "2.prems"(1) r] by (auto simp: list_all_iff)
    then show ?thesis using "2.IH" [of "Ok es" s' es "Ok u" "(a, b)" u] k r v "2.prems" by simp
  qed
  moreover have "returned (ioutil_ReadDir path s)" by (rule calmD) (rule calm_rules)
  ultimately show ?case using tar_visit_returns [of root path info acc s]
    by (auto simp: returned_iff split: prod.split outcome.split)
next
  case (4 d root path n ns acc s)
  let ?f = "path_Join [path, n]"
  have k: "resolve (cwd s) ?f = resolve (cwd s) path @ [n]" "?f \<noteq> []" using "4.prems" by auto
  have "returned (tar_walk d root ?f info acc s)" if m: "os_Lstat ?f s = (Ok info, s')" for info s'
  proof (rule "4.IH"(1) [OF refl m [symmetric] refl "4.prems"(1) k(2)])
    have "file_at s (resolve (cwd s) path @ [n]) \<noteq> None"
      using m k by (auto simp: os_Lstat_def with_key_def lookup_key_def split: option.splits if_splits)
    from fs_depth_ge [OF this] show "fs_depth s < length (resolve (cwd s) ?f) + d" "0 < d"
      using "4.prems"(3) k by auto
  qed
  moreover have "returned (tar_walk_names d root path ns (a, b) s)"
    if "os_Lstat ?f s = (Ok info, s')" "tar_walk d root ?f info acc s = (Ok u, (a, b))" for info s' u a b
    using "4.IH"(2) [of ?f "Ok info" s' info "Ok u" "(a, b)" u] that "4.prems" by simp
  moreover have "returned (os_Lstat ?f s)" by (rule calmD) (rule calm_rules)
  ultimately show ?case
    by (auto simp: Let_def returned_iff split: prod.split outcome.split)
qed simp_all

lemma tar_walk_more:
  "returned (tar_walk d root path info acc s) \<Longrightarrow>
   tar_walk (Suc d) root path info acc s = tar_walk d root path info acc s"
  "returned (tar_walk_names d root path ns acc s) \<Longrightarrow>
   tar_walk_names (Suc d) root path ns acc s = tar_walk_names d root path ns acc s"
proof (induction d root path info acc s and d root path ns acc s rule: tar_walk_tar_walk_names.induct)
  case (2 d root path info acc s)
  have "tar_walk_names (Suc d) root path (map fst es) (a, b) s = tar_walk_names d root path (map fst es) (a, b) s"
    if "kind info = KDir" "ioutil_ReadDir path s = (Ok es, s')" "tar_visit root path info acc s = (Ok u, (a, b))" for es s' u a b
    using "2.IH" [of "Ok es" s' es "Ok u" "(a, b)" u] that "2.prems" by simp
  then show ?case by (auto split: prod.split outcome.split)
next
  case (4 d root path n ns acc s)
  let ?f = "path_Join [path, n]"
  have one: "tar_walk (Suc d) root ?f info acc s = tar_walk d root ?f info acc s"
    if "os_Lstat ?f s = (Ok info, s')" for info s'
    using "4.IH"(1) [OF refl that [symmetric] refl] "4.prems" that
    by (cases "fst (tar_walk d root ?f info acc s)") (auto simp: returned_iff split: prod.splits)
  have two: "tar_walk_names (Suc d) root path ns (a, b) s = tar_walk_names d root path ns (a, b) s"
    if "os_Lstat ?f s = (Ok info, s')" "tar_walk d root ?f info acc s = (Ok u, (a, b))" for info s' u a b
    using "4.IH"(2) [of ?f "Ok info" s' info "Ok u" "(a, b)" u] that "4.prems" by simp
  show ?case using one two by (auto simp: Let_def simp del: tar_walk.simps split: prod.split outcome.split)
qed simp_all

lemma tar_walk_enough:
  assumes "returned (tar_walk d root path info acc s)" and "d \<le> d'"
  shows "tar_walk d' root path info acc s = tar_walk d root path info acc s"
  using assms(2)
proof (induction d' rule: dec_induct)
  case (step n)
  have "returned (tar_walk n root path info acc s)" using assms(1) step(3) by simp
  then show ?case using tar_walk_more(1) step(3) by simp
qed simp

section \<open>Properties\<close>

text \<open>Property C14: \<^verbatim>\<open>CopyDir\<close> terminates. Into an existing directory that is neither inside nor
  around the source, on any well-formed file system and whatever system calls fail, it returns with or
  without an error and never exhausts the stack; the depth of the file system bounds its recursion, and
  the result and the files left are the same for every bound above that.\<close>

theorem CopyDir_terminates:
  assumes "fs_wf s" and "src \<noteq> []" and "dest \<noteq> []" and "is_dir_at s (resolve (cwd s) dest)"
    and "\<not> prefix (resolve (cwd s) src) (resolve (cwd s) dest)"
    and "\<not> prefix (resolve (cwd s) dest) (resolve (cwd s) src)"
  shows "\<exists>r s'. (\<forall>p. r \<noteq> Panic p) \<and> (\<forall>d > fs_depth s. CopyDir d src dest s = (r, s'))"
proof -
  let ?x = "CopyDir (Suc (fs_depth s)) src dest s"
  have "copy_site (cwd s) (resolve (cwd s) src) (resolve (cwd s) dest) (fs_depth s) s"
    using assms fs_depth_ge [OF is_dir_at_exists] by (fastforce simp: copy_site_def)
  then have r: "returned ?x" by (rule CopyDir_returned) (use assms(2,3) in simp_all)
  then have "CopyDir d src dest s = ?x" if "fs_depth s < d" for d
    using CopyDir_enough [OF r] that by simp
  then show ?thesis using r by (intro exI [of _ "fst ?x"] exI [of _ "snd ?x"]) (simp add: returned_iff)
qed

theorem CopyDir_terminates_witness:
  "\<exists>r s'. (\<forall>p. r \<noteq> Panic p) \<and>
     (\<forall>d > 2. CopyDir d ''/a'' ''/b'' (tree_os\<lparr>fault := (\<lambda>op k. if op = OpChtimes then Some EACCES else None)\<rparr>) = (r, s'))"
proof -
  let ?s = "tree_os\<lparr>fault := (\<lambda>op k. if op = OpChtimes then Some EACCES else None)\<rparr>"
  have same: "file_at ?s = file_at tree_os" "is_dir_at ?s = is_dir_at tree_os"
    by (simp_all add: fun_eq_iff file_at_def is_dir_at_def)
  have wf: "fs_wf ?s" using tree_wf by (simp add: fs_wf_def same)
  have "fs_depth ?s = 2" by (simp add: fs_depth_def tree_os_def)
  then show ?thesis
    using CopyDir_terminates [of ?s "''/a''" "''/b''"] wf tree_ready tree_resolve by (simp add: copy_ready_def same)
qed

text \<open>Property C15: writing an archive terminates. On any well-formed file system, whatever system calls
  fail and whatever kinds of files the tree holds, \<^verbatim>\<open>CreateTar\<close> returns with or without an error; the
  depth of the file system bounds the recursion of its walk, and the result and the archive are the
  same for every bound above that.\<close>

theorem CreateTar_terminates:
  assumes "fs_wf s"
  shows "\<exists>r s'. (\<forall>p. r \<noteq> Panic p) \<and> (\<forall>d > fs_depth s. CreateTar d wpath w src s = (r, s'))"
proof -
  define m where "m = Suc (fs_depth s)"
  let ?x = "CreateTar m wpath w src s"
  let ?walk = "\<lambda>d. case os_Lstat src s of
      (Ok info, _) \<Rightarrow> tar_walk d src src info ([], None) s
    | (Err e, _) \<Rightarrow> (Err e, ([], None))
    | (Panic p, _) \<Rightarrow> (Panic p, ([], None))"
  have walk: "returned (tar_walk m src src info ([], None) s)" if "os_Lstat src s = (Ok info, s')" for info s'
  proof (rule tar_walk_returns(1) [OF assms])
    show "src \<noteq> []" using that by (auto simp: os_Lstat_def with_key_def split: if_splits)
  qed (simp_all add: m_def)
  have "returned (os_Lstat src s)" by (rule calmD) (rule calm_rules)
  then have w: "returned (?walk m)" using walk by (auto simp: returned_iff split: prod.split outcome.split)
  have "write_handle wpath w c s \<noteq> (Panic p, s')" for c p s' by (simp add: write_handle_def split: option.split)
  with w have "returned ?x"
    by (auto simp: CreateTar_def returned_iff simp del: tar_walk.simps split: prod.split outcome.split)
  moreover have "CreateTar d wpath w src s = ?x" if "fs_depth s < d" for d
  proof -
    have "?walk d = ?walk m"
      using tar_walk_enough [OF walk, of _ _ d] that by (auto simp: m_def split: prod.split outcome.split)
    then show ?thesis by (simp only: CreateTar_def)
  qed
  ultimately show ?thesis by (intro exI [of _ "fst ?x"] exI [of _ "snd ?x"]) (simp add: returned_iff)
qed

theorem CreateTar_terminates_witness:
  "\<exists>r s'. (\<forall>p. r \<noteq> Panic p) \<and> (\<forall>d > 2. CreateTar d ''/b/t'' [''b'', ''t''] ''/'' tree_os = (r, s'))"
proof -
  have "fs_depth tree_os = 2" by (simp add: fs_depth_def tree_os_def)
  then show ?thesis using CreateTar_terminates [OF tree_wf, of "''/b/t''" "[''b'', ''t'']" "''/''"] by simp
qed

end
