(* ===== verification/Doubles.thy ===== *)
theory Doubles
  imports Sidecar
begin

text \<open>
  Test doubles as \<^verbatim>\<open>counterfeiter\<close> generates them. A double keeps, for every method it fakes, the
  stub to call, the arguments of the calls so far, the result to return and the results for particular
  calls, and one record of all invocations. Every operation holds the mutex of the method for its whole
  body, except that a stub is called after the mutex was released; an operation is therefore one step.
  The locales state what the generated methods share: they implement a history, the list of the
  operations so far, from which the recorded calls and the answer to the next call are read off.
\<close>

section \<open>Go maps, slices and values\<close>

text \<open>A map is nil or allocated. A nil map reads as empty; every write follows \<open>made\<close>.\<close>

type_synonym ('k, 'v) gomap = "('k \<rightharpoonup> 'v) option"

definition map_get :: "('k, 'v) gomap \<Rightarrow> 'k \<rightharpoonup> 'v" where
  "map_get m = (case m of None \<Rightarrow> Map.empty | Some f \<Rightarrow> f)"

definition made :: "('k, 'v) gomap \<Rightarrow> ('k, 'v) gomap" where
  "made m = (case m of None \<Rightarrow> Some Map.empty | Some f \<Rightarrow> Some f)"

definition map_put :: "('k, 'v) gomap \<Rightarrow> 'k \<Rightarrow> 'v \<Rightarrow> ('k, 'v) gomap" where
  "map_put m k v = map_option (\<lambda>f. f(k \<mapsto> v)) m"

lemma map_get_put [simp]: "map_get (map_put (made m) k v) = (map_get m)(k \<mapsto> v)"
  "map_get (map_put (map_put (made m) k u) k v) = (map_get m)(k \<mapsto> v)" "map_get (made m) = map_get m"
  by (simp_all add: map_get_def map_put_def made_def split: option.split)

definition slice_index :: "'a list \<Rightarrow> int \<Rightarrow> 'a outcome" where
  "slice_index xs i = (if 0 \<le> i \<and> i < int (length xs) then Ok (xs ! nat i) else Panic ''index out of range'')"

definition the_list :: "'a list option \<Rightarrow> 'a list" where
  "the_list x = (case x of None \<Rightarrow> [] | Some xs \<Rightarrow> xs)"

text \<open>The arguments that are recorded; values of library types are opaque.\<close>

datatype 'x go_value = Opaque 'x | VBuildRequest BuildRequest | VRunRequest RunRequest
  | VBuildResponse BuildResponse | VRunResponse RunResponse

type_synonym 'x recorded = "(string, 'x go_value list list) gomap"

section \<open>One method of a double\<close>

text \<open>A stub is a function of the test; it may change whatever the test can reach, the type \<open>'w\<close>.\<close>

type_synonym ('a, 'r, 'w) stub = "'a \<Rightarrow> 'w \<Rightarrow> 'r \<times> 'w"

record ('a, 'r, 'w) fake_method =
  mStub :: "('a, 'r, 'w) stub option"
  mArgsForCall :: "'a list"
  mReturns :: 'r
  mReturnsOnCall :: "(int, 'r) gomap"

definition no_calls :: "'r \<Rightarrow> ('a, 'r, 'w) fake_method" where
  "no_calls r = \<lparr>mStub = None, mArgsForCall = [], mReturns = r, mReturnsOnCall = None\<rparr>"

text \<open>What a call answers, and what it leaves in the method.\<close>

definition answer_call :: "('a, 'r, 'w) fake_method \<Rightarrow> 'a \<Rightarrow> 'w \<Rightarrow> 'r \<times> 'w" where
  "answer_call m a w = (case mStub m of
      Some stub \<Rightarrow> stub a w
    | None \<Rightarrow> (case map_get (mReturnsOnCall m) (int (length (mArgsForCall m))) of
        Some r \<Rightarrow> (r, w)
      | None \<Rightarrow> (mReturns m, w)))"

definition called :: "'a \<Rightarrow> ('a, 'r, 'w) fake_method \<Rightarrow> ('a, 'r, 'w) fake_method" where
  "called a m = m\<lparr>mArgsForCall := mArgsForCall m @ [a]\<rparr>"

lemmas spy_simps = answer_call_def called_def the_list_def

section \<open>The specification: histories\<close>

datatype ('a, 'r, 'w) fake_op =
  OpCall 'a | OpCalls "('a, 'r, 'w) stub option" | OpReturns 'r | OpReturnsOnCall int 'r

fun history_calls :: "('a, 'r, 'w) fake_op list \<Rightarrow> 'a list" where
  "history_calls [] = []"
| "history_calls (OpCall a # h) = a # history_calls h"
| "history_calls (_ # h) = history_calls h"

text \<open>The stub set last, unless results were set after it.\<close>

fun stub_after :: "('a, 'r, 'w) stub option \<Rightarrow> ('a, 'r, 'w) fake_op list \<Rightarrow> ('a, 'r, 'w) stub option" where
  "stub_after st [] = st"
| "stub_after st (OpCall a # h) = stub_after st h"
| "stub_after st (OpCalls f # h) = stub_after f h"
| "stub_after st (_ # h) = stub_after None h"

fun default_after :: "'r \<Rightarrow> ('a, 'r, 'w) fake_op list \<Rightarrow> 'r" where
  "default_after r [] = r"
| "default_after r (OpReturns r' # h) = default_after r' h"
| "default_after r (_ # h) = default_after r h"

fun on_call_after :: "(int \<rightharpoonup> 'r) \<Rightarrow> ('a, 'r, 'w) fake_op list \<Rightarrow> int \<rightharpoonup> 'r" where
  "on_call_after m [] = m"
| "on_call_after m (OpReturnsOnCall i r # h) = on_call_after (m(i \<mapsto> r)) h"
| "on_call_after m (_ # h) = on_call_after m h"

definition answer_after :: "'r \<Rightarrow> ('a, 'r, 'w) fake_op list \<Rightarrow> 'a \<Rightarrow> 'w \<Rightarrow> 'r \<times> 'w" where
  "answer_after r0 h a w = (case stub_after None h of
      Some stub \<Rightarrow> stub a w
    | None \<Rightarrow> (case on_call_after Map.empty h (int (length (history_calls h))) of
        Some r \<Rightarrow> (r, w)
      | None \<Rightarrow> (default_after r0 h, w)))"

text \<open>Running the operations of a history on a double.\<close>

fun double_run :: "('a \<Rightarrow> 'w \<Rightarrow> 's \<Rightarrow> 'r \<times> 'w \<times> 's) \<Rightarrow> (('a, 'r, 'w) stub option \<Rightarrow> 's \<Rightarrow> 's) \<Rightarrow>
    ('r \<Rightarrow> 's \<Rightarrow> 's) \<Rightarrow> (int \<Rightarrow> 'r \<Rightarrow> 's \<Rightarrow> 's) \<Rightarrow> ('a, 'r, 'w) fake_op list \<Rightarrow> 'w \<Rightarrow> 's \<Rightarrow> 'w \<times> 's" where
  "double_run call use_stub returns returns_on [] w s = (w, s)"
| "double_run call use_stub returns returns_on (OpCall a # h) w s =
     (case call a w s of (r, w', s') \<Rightarrow> double_run call use_stub returns returns_on h w' s')"
| "double_run call use_stub returns returns_on (OpCalls f # h) w s =
     double_run call use_stub returns returns_on h w (use_stub f s)"
| "double_run call use_stub returns returns_on (OpReturns r # h) w s =
     double_run call use_stub returns returns_on h w (returns r s)"
| "double_run call use_stub returns returns_on (OpReturnsOnCall i r # h) w s =
     double_run call use_stub returns returns_on h w (returns_on i r s)"

section \<open>The interfaces\<close>

text \<open>A method that records its calls. \<open>enc\<close> is what of the arguments is kept among the invocations.\<close>

locale spy =
  fixes call :: "'a \<Rightarrow> 'w \<Rightarrow> 's \<Rightarrow> 'r \<times> 'w \<times> 's" and count :: "'s \<Rightarrow> nat"
    and use_stub :: "('a, 'r, 'w) stub option \<Rightarrow> 's \<Rightarrow> 's" and meth :: "'s \<Rightarrow> ('a, 'r, 'w) fake_method"
    and seen :: "'s \<Rightarrow> 'v list" and enc :: "'a \<Rightarrow> 'v"
  assumes call_law: "call a w s = (r, w', s') \<Longrightarrow>
      (r, w') = answer_call (meth s) a w \<and> meth s' = called a (meth s) \<and> seen s' = seen s @ [enc a]"
    and count_law: "count s = length (mArgsForCall (meth s))"
    and calls_meth: "meth (use_stub f s) = (meth s)\<lparr>mStub := f\<rparr>" and calls_seen: "seen (use_stub f s) = seen s"
begin

text \<open>Calls one after the other, when no operation comes between: all are recorded, in order.\<close>

lemma fold_calls:
  "mArgsForCall (meth (snd (fold (\<lambda>a s. snd (call a (fst s) (snd s))) as s))) = mArgsForCall (meth (snd s)) @ as"
proof (induction as arbitrary: s)
  case (Cons a as)
  obtain r w' s' where c: "call a (fst s) (snd s) = (r, w', s')" by (metis prod_cases3)
  then have "meth s' = called a (meth (snd s))" using call_law by blast
  then show ?case using Cons [of "(w', s')"] c by (simp add: called_def)
qed simp

end

locale arguing_spy = spy call count use_stub meth seen enc
  for call :: "'a \<Rightarrow> 'w \<Rightarrow> 's \<Rightarrow> 'r \<times> 'w \<times> 's" and count :: "'s \<Rightarrow> nat"
    and use_stub :: "('a, 'r, 'w) stub option \<Rightarrow> 's \<Rightarrow> 's" and meth :: "'s \<Rightarrow> ('a, 'r, 'w) fake_method"
    and seen :: "'s \<Rightarrow> 'v list" and enc :: "'a \<Rightarrow> 'v" +
  fixes args :: "int \<Rightarrow> 's \<Rightarrow> 'a outcome"
  assumes args_law: "args i s = slice_index (mArgsForCall (meth s)) i"
begin

lemma args_recorded: "j < count s \<Longrightarrow> args (int j) s = Ok (mArgsForCall (meth s) ! j)"
  by (simp add: args_law count_law slice_index_def)

lemma all_args: "map (\<lambda>j. args (int j) s) [0..<count s] = map Ok (mArgsForCall (meth s))"
  by (rule nth_equalityI) (auto simp: args_recorded count_law)

end

locale returning_spy = spy call count use_stub meth seen enc
  for call :: "'a \<Rightarrow> 'w \<Rightarrow> 's \<Rightarrow> 'r \<times> 'w \<times> 's" and count :: "'s \<Rightarrow> nat"
    and use_stub :: "('a, 'r, 'w) stub option \<Rightarrow> 's \<Rightarrow> 's" and meth :: "'s \<Rightarrow> ('a, 'r, 'w) fake_method"
    and seen :: "'s \<Rightarrow> 'v list" and enc :: "'a \<Rightarrow> 'v" +
  fixes returns :: "'r \<Rightarrow> 's \<Rightarrow> 's" and returns_on :: "int \<Rightarrow> 'r \<Rightarrow> 's \<Rightarrow> 's"
  assumes returns_meth: "meth (returns r s) = (meth s)\<lparr>mStub := None, mReturns := r\<rparr>"
    and returns_seen: "seen (returns r s) = seen s"
    and returns_on_meth: "meth (returns_on i r s) = (meth s)\<lparr>mStub := None,
        mReturnsOnCall := map_put (made (mReturnsOnCall (meth s))) i r\<rparr>"
    and returns_on_seen: "seen (returns_on i r s) = seen s"
begin

lemma run_history:
  "double_run call use_stub returns returns_on h w s = (w', s') \<Longrightarrow>
   mArgsForCall (meth s') = mArgsForCall (meth s) @ history_calls h \<and>
   mStub (meth s') = stub_after (mStub (meth s)) h \<and>
   mReturns (meth s') = default_after (mReturns (meth s)) h \<and>
   map_get (mReturnsOnCall (meth s')) = on_call_after (map_get (mReturnsOnCall (meth s))) h \<and>
   seen s' = seen s @ map enc (history_calls h)"
proof (induction h arbitrary: w s)
  case (Cons oper h)
  then show ?case
  proof (cases oper)
    case (OpCall a)
    obtain r w1 s1 where c: "call a w s = (r, w1, s1)" by (metis prod_cases3)
    then show ?thesis using Cons OpCall call_law [OF c] by (auto simp: called_def)
  qed (auto simp: calls_meth calls_seen returns_meth returns_seen returns_on_meth returns_on_seen fun_upd_def)
qed simp

lemma answer_history:
  assumes "meth s = no_calls r0" and "double_run call use_stub returns returns_on h w s = (w', s')"
    and "call a w'' s' = (r, v, s'')"
  shows "(r, v) = answer_after r0 h a w''"
  using run_history [OF assms(2)] call_law [OF assms(3)] assms(1)
  by (auto simp: answer_call_def answer_after_def no_calls_def map_get_def split: option.split)

lemma count_history:
  assumes "meth s = no_calls r0" and "seen s = []" and "double_run call use_stub returns returns_on h w s = (w', s')"
  shows "count s' = length (history_calls h)" and "seen s' = map enc (history_calls h)"
    and "mArgsForCall (meth s') = history_calls h"
  using run_history [OF assms(3)] assms(1,2) by (simp_all add: count_law no_calls_def)

end

locale double = arguing_spy call count use_stub meth seen enc args + returning_spy call count use_stub meth seen enc returns returns_on
  for call :: "'a \<Rightarrow> 'w \<Rightarrow> 's \<Rightarrow> 'r \<times> 'w \<times> 's" and count :: "'s \<Rightarrow> nat"
    and use_stub :: "('a, 'r, 'w) stub option \<Rightarrow> 's \<Rightarrow> 's" and meth :: "'s \<Rightarrow> ('a, 'r, 'w) fake_method"
    and seen :: "'s \<Rightarrow> 'v list" and enc :: "'a \<Rightarrow> 'v" and args :: "int \<Rightarrow> 's \<Rightarrow> 'a outcome"
    and returns :: "'r \<Rightarrow> 's \<Rightarrow> 's" and returns_on :: "int \<Rightarrow> 'r \<Rightarrow> 's \<Rightarrow> 's"
begin

lemma args_history:
  assumes "meth s = no_calls r0" and "seen s = []" and "double_run call use_stub returns returns_on h w s = (w', s')"
  shows "args i s' = slice_index (history_calls h) i"
  using count_history(3) [OF assms] by (simp add: args_law)

end

end
