(* ===== verification/FakeStreams.thy ===== *)
theory FakeStreams
  imports Doubles
begin

text \<open>
  The test doubles of the two gRPC streams, \<^verbatim>\<open>pkg/k8sbuilder/fakes/buildstream.go\<close> and
  \<^verbatim>\<open>runstream.go\<close>: one definition per Go method, under the name of the struct and the method. Each
  method that is faked is shown to be a double in the sense of \<open>Doubles\<close>, so that what was proved
  there holds of it.
\<close>

section \<open>\<^verbatim>\<open>BuildStream\<close>\<close>

record ('x, 'w) BuildStream =
  bsContext :: "(unit, 'x option, 'w) fake_method"
  bsRecvMsg :: "('x, nilerr, 'w) fake_method"
  bsSend :: "(BuildResponse, nilerr, 'w) fake_method"
  bsSendHeader :: "('x, nilerr, 'w) fake_method"
  bsSendMsg :: "('x, nilerr, 'w) fake_method"
  bsSetHeader :: "('x, nilerr, 'w) fake_method"
  bsSetTrailer :: "('x, unit, 'w) fake_method"
  bsinvocations :: "'x recorded"

definition BuildStream_zero :: "('x, 'w) BuildStream" where
  "BuildStream_zero = \<lparr>bsContext = no_calls None, bsRecvMsg = no_calls None, bsSend = no_calls None, bsSendHeader = no_calls None, bsSendMsg = no_calls None, bsSetHeader = no_calls None, bsSetTrailer = no_calls (), bsinvocations = None\<rparr>"

definition BuildStream_recordInvocation :: "string \<Rightarrow> 'x go_value list \<Rightarrow> ('x, 'w) BuildStream \<Rightarrow> ('x, 'w) BuildStream" where
  "BuildStream_recordInvocation key args fake =
     (let m = made (bsinvocations fake);
          m = (case map_get m key of None \<Rightarrow> map_put m key [] | Some _ \<Rightarrow> m)
      in fake\<lparr>bsinvocations := map_put m key (the (map_get m key) @ [args])\<rparr>)"

definition BuildStream_Invocations :: "('x, 'w) BuildStream \<Rightarrow> string \<rightharpoonup> 'x go_value list list" where
  "BuildStream_Invocations fake = map_get (bsinvocations fake)"

definition BuildStream_Context :: "'w \<Rightarrow> ('x, 'w) BuildStream \<Rightarrow> 'x option \<times> 'w \<times> ('x, 'w) BuildStream" where
  "BuildStream_Context w fake =
     (let ret = map_get (mReturnsOnCall (bsContext fake)) (int (length (mArgsForCall (bsContext fake))));
          fake' = fake\<lparr>bsContext := (bsContext fake)\<lparr>mArgsForCall := mArgsForCall (bsContext fake) @ [()]\<rparr>\<rparr>;
          fakeReturns = mReturns (bsContext fake');
          fake'' = BuildStream_recordInvocation ''Context'' [] fake'
      in case mStub (bsContext fake') of
           Some stub \<Rightarrow> (case stub () w of (result1, w') \<Rightarrow> (result1, w', fake''))
         | None \<Rightarrow> (case ret of Some result1 \<Rightarrow> (result1, w, fake'') | None \<Rightarrow> (fakeReturns, w, fake'')))"

definition BuildStream_ContextCallCount :: "('x, 'w) BuildStream \<Rightarrow> nat" where
  "BuildStream_ContextCallCount fake = length (mArgsForCall (bsContext fake))"

definition BuildStream_ContextCalls :: "(unit, 'x option, 'w) stub option \<Rightarrow> ('x, 'w) BuildStream \<Rightarrow> ('x, 'w) BuildStream" where
  "BuildStream_ContextCalls stub fake = fake\<lparr>bsContext := (bsContext fake)\<lparr>mStub := stub\<rparr>\<rparr>"

definition BuildStream_ContextReturns :: "'x option \<Rightarrow> ('x, 'w) BuildStream \<Rightarrow> ('x, 'w) BuildStream" where
  "BuildStream_ContextReturns result1 fake =
     fake\<lparr>bsContext := (bsContext fake)\<lparr>mStub := None, mReturns := result1\<rparr>\<rparr>"

definition BuildStream_ContextReturnsOnCall :: "int \<Rightarrow> 'x option \<Rightarrow> ('x, 'w) BuildStream \<Rightarrow> ('x, 'w) BuildStream" where
  "BuildStream_ContextReturnsOnCall i result1 fake =
     fake\<lparr>bsContext := (bsContext fake)\<lparr>mStub := None,
       mReturnsOnCall := map_put (made (mReturnsOnCall (bsContext fake))) i result1\<rparr>\<rparr>"

definition BuildStream_RecvMsg :: "'x \<Rightarrow> 'w \<Rightarrow> ('x, 'w) BuildStream \<Rightarrow> nilerr \<times> 'w \<times> ('x, 'w) BuildStream" where
  "BuildStream_RecvMsg arg1 w fake =
     (let ret = map_get (mReturnsOnCall (bsRecvMsg fake)) (int (length (mArgsForCall (bsRecvMsg fake))));
          fake' = fake\<lparr>bsRecvMsg := (bsRecvMsg fake)\<lparr>mArgsForCall := mArgsForCall (bsRecvMsg fake) @ [arg1]\<rparr>\<rparr>;
          fakeReturns = mReturns (bsRecvMsg fake');
          fake'' = BuildStream_recordInvocation ''RecvMsg'' [Opaque arg1] fake'
      in case mStub (bsRecvMsg fake') of
           Some stub \<Rightarrow> (case stub arg1 w of (result1, w') \<Rightarrow> (result1, w', fake''))
         | None \<Rightarrow> (case ret of Some result1 \<Rightarrow> (result1, w, fake'') | None \<Rightarrow> (fakeReturns, w, fake'')))"

definition BuildStream_RecvMsgCallCount :: "('x, 'w) BuildStream \<Rightarrow> nat" where
  "BuildStream_RecvMsgCallCount fake = length (mArgsForCall (bsRecvMsg fake))"

definition BuildStream_RecvMsgCalls :: "('x, nilerr, 'w) stub option \<Rightarrow> ('x, 'w) BuildStream \<Rightarrow> ('x, 'w) BuildStream" where
  "BuildStream_RecvMsgCalls stub fake = fake\<lparr>bsRecvMsg := (bsRecvMsg fake)\<lparr>mStub := stub\<rparr>\<rparr>"

definition BuildStream_RecvMsgArgsForCall :: "int \<Rightarrow> ('x, 'w) BuildStream \<Rightarrow> ('x) outcome" where
  "BuildStream_RecvMsgArgsForCall i fake = slice_index (mArgsForCall (bsRecvMsg fake)) i"

definition BuildStream_RecvMsgReturns :: "nilerr \<Rightarrow> ('x, 'w) BuildStream \<Rightarrow> ('x, 'w) BuildStream" where
  "BuildStream_RecvMsgReturns result1 fake =
     fake\<lparr>bsRecvMsg := (bsRecvMsg fake)\<lparr>mStub := None, mReturns := result1\<rparr>\<rparr>"

definition BuildStream_RecvMsgReturnsOnCall :: "int \<Rightarrow> nilerr \<Rightarrow> ('x, 'w) BuildStream \<Rightarrow> ('x, 'w) BuildStream" where
  "BuildStream_RecvMsgReturnsOnCall i result1 fake =
     fake\<lparr>bsRecvMsg := (bsRecvMsg fake)\<lparr>mStub := None,
       mReturnsOnCall := map_put (made (mReturnsOnCall (bsRecvMsg fake))) i result1\<rparr>\<rparr>"

definition BuildStream_Send :: "BuildResponse \<Rightarrow> 'w \<Rightarrow> ('x, 'w) BuildStream \<Rightarrow> nilerr \<times> 'w \<times> ('x, 'w) BuildStream" where
  "BuildStream_Send arg1 w fake =
     (let ret = map_get (mReturnsOnCall (bsSend fake)) (int (length (mArgsForCall (bsSend fake))));
          fake' = fake\<lparr>bsSend := (bsSend fake)\<lparr>mArgsForCall := mArgsForCall (bsSend fake) @ [arg1]\<rparr>\<rparr>;
          fakeReturns = mReturns (bsSend fake');
          fake'' = BuildStream_recordInvocation ''Send'' [VBuildResponse arg1] fake'
      in case mStub (bsSend fake') of
           Some stub \<Rightarrow> (case stub arg1 w of (result1, w') \<Rightarrow> (result1, w', fake''))
         | None \<Rightarrow> (case ret of Some result1 \<Rightarrow> (result1, w, fake'') | None \<Rightarrow> (fakeReturns, w, fake'')))"

definition BuildStream_SendCallCount :: "('x, 'w) BuildStream \<Rightarrow> nat" where
  "BuildStream_SendCallCount fake = length (mArgsForCall (bsSend fake))"

definition BuildStream_SendCalls :: "(BuildResponse, nilerr, 'w) stub option \<Rightarrow> ('x, 'w) BuildStream \<Rightarrow> ('x, 'w) BuildStream" where
  "BuildStream_SendCalls stub fake = fake\<lparr>bsSend := (bsSend fake)\<lparr>mStub := stub\<rparr>\<rparr>"

definition BuildStream_SendArgsForCall :: "int \<Rightarrow> ('x, 'w) BuildStream \<Rightarrow> (BuildResponse) outcome" where
  "BuildStream_SendArgsForCall i fake = slice_index (mArgsForCall (bsSend fake)) i"

definition BuildStream_SendReturns :: "nilerr \<Rightarrow> ('x, 'w) BuildStream \<Rightarrow> ('x, 'w) BuildStream" where
  "BuildStream_SendReturns result1 fake =
     fake\<lparr>bsSend := (bsSend fake)\<lparr>mStub := None, mReturns := result1\<rparr>\<rparr>"

definition BuildStream_SendReturnsOnCall :: "int \<Rightarrow> nilerr \<Rightarrow> ('x, 'w) BuildStream \<Rightarrow> ('x, 'w) BuildStream" where
  "BuildStream_SendReturnsOnCall i result1 fake =
     fake\<lparr>bsSend := (bsSend fake)\<lparr>mStub := None,
       mReturnsOnCall := map_put (made (mReturnsOnCall (bsSend fake))) i result1\<rparr>\<rparr>"

definition BuildStream_SendHeader :: "'x \<Rightarrow> 'w \<Rightarrow> ('x, 'w) BuildStream \<Rightarrow> nilerr \<times> 'w \<times> ('x, 'w) BuildStream" where
  "BuildStream_SendHeader arg1 w fake =
     (let ret = map_get (mReturnsOnCall (bsSendHeader fake)) (int (length (mArgsForCall (bsSendHeader fake))));
          fake' = fake\<lparr>bsSendHeader := (bsSendHeader fake)\<lparr>mArgsForCall := mArgsForCall (bsSendHeader fake) @ [arg1]\<rparr>\<rparr>;
          fakeReturns = mReturns (bsSendHeader fake');
          fake'' = BuildStream_recordInvocation ''SendHeader'' [Opaque arg1] fake'
      in case mStub (bsSendHeader fake') of
           Some stub \<Rightarrow> (case stub arg1 w of (result1, w') \<Rightarrow> (result1, w', fake''))
         | None \<Rightarrow> (case ret of Some result1 \<Rightarrow> (result1, w, fake'') | None \<Rightarrow> (fakeReturns, w, fake'')))"

definition BuildStream_SendHeaderCallCount :: "('x, 'w) BuildStream \<Rightarrow> nat" where
  "BuildStream_SendHeaderCallCount fake = length (mArgsForCall (bsSendHeader fake))"

definition BuildStream_SendHeaderCalls :: "('x, nilerr, 'w) stub option \<Rightarrow> ('x, 'w) BuildStream \<Rightarrow> ('x, 'w) BuildStream" where
  "BuildStream_SendHeaderCalls stub fake = fake\<lparr>bsSendHeader := (bsSendHeader fake)\<lparr>mStub := stub\<rparr>\<rparr>"

definition BuildStream_SendHeaderArgsForCall :: "int \<Rightarrow> ('x, 'w) BuildStream \<Rightarrow> ('x) outcome" where
  "BuildStream_SendHeaderArgsForCall i fake = slice_index (mArgsForCall (bsSendHeader fake)) i"

definition BuildStream_SendHeaderReturns :: "nilerr \<Rightarrow> ('x, 'w) BuildStream \<Rightarrow> ('x, 'w) BuildStream" where
  "BuildStream_SendHeaderReturns result1 fake =
     fake\<lparr>bsSendHeader := (bsSendHeader fake)\<lparr>mStub := None, mReturns := result1\<rparr>\<rparr>"

definition BuildStream_SendHeaderReturnsOnCall :: "int \<Rightarrow> nilerr \<Rightarrow> ('x, 'w) BuildStream \<Rightarrow> ('x, 'w) BuildStream" where
  "BuildStream_SendHeaderReturnsOnCall i result1 fake =
     fake\<lparr>bsSendHeader := (bsSendHeader fake)\<lparr>mStub := None,
       mReturnsOnCall := map_put (made (mReturnsOnCall (bsSendHeader fake))) i result1\<rparr>\<rparr>"

definition BuildStream_SendMsg :: "'x \<Rightarrow> 'w \<Rightarrow> ('x, 'w) BuildStream \<Rightarrow> nilerr \<times> 'w \<times> ('x, 'w) BuildStream" where
  "BuildStream_SendMsg arg1 w fake =
     (let ret = map_get (mReturnsOnCall (bsSendMsg fake)) (int (length (mArgsForCall (bsSendMsg fake))));
          fake' = fake\<lparr>bsSendMsg := (bsSendMsg fake)\<lparr>mArgsForCall := mArgsForCall (bsSendMsg fake) @ [arg1]\<rparr>\<rparr>;
          fakeReturns = mReturns (bsSendMsg fake');
          fake'' = BuildStream_recordInvocation ''SendMsg'' [Opaque arg1] fake'
      in case mStub (bsSendMsg fake') of
           Some stub \<Rightarrow> (case stub arg1 w of (result1, w') \<Rightarrow> (result1, w', fake''))
         | None \<Rightarrow> (case ret of Some result1 \<Rightarrow> (result1, w, fake'') | None \<Rightarrow> (fakeReturns, w, fake'')))"

definition BuildStream_SendMsgCallCount :: "('x, 'w) BuildStream \<Rightarrow> nat" where
  "BuildStream_SendMsgCallCount fake = length (mArgsForCall (bsSendMsg fake))"

definition BuildStream_SendMsgCalls :: "('x, nilerr, 'w) stub option \<Rightarrow> ('x, 'w) BuildStream \<Rightarrow> ('x, 'w) BuildStream" where
  "BuildStream_SendMsgCalls stub fake = fake\<lparr>bsSendMsg := (bsSendMsg fake)\<lparr>mStub := stub\<rparr>\<rparr>"

definition BuildStream_SendMsgArgsForCall :: "int \<Rightarrow> ('x, 'w) BuildStream \<Rightarrow> ('x) outcome" where
  "BuildStream_SendMsgArgsForCall i fake = slice_index (mArgsForCall (bsSendMsg fake)) i"

definition BuildStream_SendMsgReturns :: "nilerr \<Rightarrow> ('x, 'w) BuildStream \<Rightarrow> ('x, 'w) BuildStream" where
  "BuildStream_SendMsgReturns result1 fake =
     fake\<lparr>bsSendMsg := (bsSendMsg fake)\<lparr>mStub := None, mReturns := result1\<rparr>\<rparr>"

definition BuildStream_SendMsgReturnsOnCall :: "int \<Rightarrow> nilerr \<Rightarrow> ('x, 'w) BuildStream \<Rightarrow> ('x, 'w) BuildStream" where
  "BuildStream_SendMsgReturnsOnCall i result1 fake =
     fake\<lparr>bsSendMsg := (bsSendMsg fake)\<lparr>mStub := None,
       mReturnsOnCall := map_put (made (mReturnsOnCall (bsSendMsg fake))) i result1\<rparr>\<rparr>"

definition BuildStream_SetHeader :: "'x \<Rightarrow> 'w \<Rightarrow> ('x, 'w) BuildStream \<Rightarrow> nilerr \<times> 'w \<times> ('x, 'w) BuildStream" where
  "BuildStream_SetHeader arg1 w fake =
     (let ret = map_get (mReturnsOnCall (bsSetHeader fake)) (int (length (mArgsForCall (bsSetHeader fake))));
          fake' = fake\<lparr>bsSetHeader := (bsSetHeader fake)\<lparr>mArgsForCall := mArgsForCall (bsSetHeader fake) @ [arg1]\<rparr>\<rparr>;
          fakeReturns = mReturns (bsSetHeader fake');
          fake'' = BuildStream_recordInvocation ''SetHeader'' [Opaque arg1] fake'
      in case mStub (bsSetHeader fake') of
           Some stub \<Rightarrow> (case stub arg1 w of (result1, w') \<Rightarrow> (result1, w', fake''))
         | None \<Rightarrow> (case ret of Some result1 \<Rightarrow> (result1, w, fake'') | None \<Rightarrow> (fakeReturns, w, fake'')))"

definition BuildStream_SetHeaderCallCount :: "('x, 'w) BuildStream \<Rightarrow> nat" where
  "BuildStream_SetHeaderCallCount fake = length (mArgsForCall (bsSetHeader fake))"

definition BuildStream_SetHeaderCalls :: "('x, nilerr, 'w) stub option \<Rightarrow> ('x, 'w) BuildStream \<Rightarrow> ('x, 'w) BuildStream" where
  "BuildStream_SetHeaderCalls stub fake = fake\<lparr>bsSetHeader := (bsSetHeader fake)\<lparr>mStub := stub\<rparr>\<rparr>"

definition BuildStream_SetHeaderArgsForCall :: "int \<Rightarrow> ('x, 'w) BuildStream \<Rightarrow> ('x) outcome" where
  "BuildStream_SetHeaderArgsForCall i fake = slice_index (mArgsForCall (bsSetHeader fake)) i"

definition BuildStream_SetHeaderReturns :: "nilerr \<Rightarrow> ('x, 'w) BuildStream \<Rightarrow> ('x, 'w) BuildStream" where
  "BuildStream_SetHeaderReturns result1 fake =
     fake\<lparr>bsSetHeader := (bsSetHeader fake)\<lparr>mStub := None, mReturns := result1\<rparr>\<rparr>"

definition BuildStream_SetHeaderReturnsOnCall :: "int \<Rightarrow> nilerr \<Rightarrow> ('x, 'w) BuildStream \<Rightarrow> ('x, 'w) BuildStream" where
  "BuildStream_SetHeaderReturnsOnCall i result1 fake =
     fake\<lparr>bsSetHeader := (bsSetHeader fake)\<lparr>mStub := None,
       mReturnsOnCall := map_put (made (mReturnsOnCall (bsSetHeader fake))) i result1\<rparr>\<rparr>"

definition BuildStream_SetTrailer_locked :: "'x \<Rightarrow> ('x, 'w) BuildStream \<Rightarrow> ('x, 'w) BuildStream" where
  "BuildStream_SetTrailer_locked arg1 fake =
     BuildStream_recordInvocation ''SetTrailer'' [Opaque arg1]
       (fake\<lparr>bsSetTrailer := (bsSetTrailer fake)\<lparr>mArgsForCall := mArgsForCall (bsSetTrailer fake) @ [arg1]\<rparr>\<rparr>)"

definition BuildStream_SetTrailer_unlocked :: "('x, unit, 'w) stub option \<Rightarrow> 'x \<Rightarrow> 'w \<Rightarrow> ('x, 'w) BuildStream \<Rightarrow> (unit \<times> 'w) outcome" where
  "BuildStream_SetTrailer_unlocked seen arg1 w fake =
     (case seen of
        None \<Rightarrow> Ok ((), w)
      | Some _ \<Rightarrow> (case mStub (bsSetTrailer fake) of
          Some stub \<Rightarrow> Ok (stub arg1 w) | None \<Rightarrow> Panic ''nil pointer dereference''))"

definition BuildStream_SetTrailer :: "'x \<Rightarrow> 'w \<Rightarrow> ('x, 'w) BuildStream \<Rightarrow> (unit \<times> 'w) outcome \<times> ('x, 'w) BuildStream" where
  "BuildStream_SetTrailer arg1 w fake =
     (let fake' = BuildStream_SetTrailer_locked arg1 fake in
      (BuildStream_SetTrailer_unlocked (mStub (bsSetTrailer fake)) arg1 w fake', fake'))"

definition BuildStream_SetTrailerCallCount :: "('x, 'w) BuildStream \<Rightarrow> nat" where
  "BuildStream_SetTrailerCallCount fake = length (mArgsForCall (bsSetTrailer fake))"

definition BuildStream_SetTrailerCalls :: "('x, unit, 'w) stub option \<Rightarrow> ('x, 'w) BuildStream \<Rightarrow> ('x, 'w) BuildStream" where
  "BuildStream_SetTrailerCalls stub fake = fake\<lparr>bsSetTrailer := (bsSetTrailer fake)\<lparr>mStub := stub\<rparr>\<rparr>"

definition BuildStream_SetTrailerArgsForCall :: "int \<Rightarrow> ('x, 'w) BuildStream \<Rightarrow> ('x) outcome" where
  "BuildStream_SetTrailerArgsForCall i fake = slice_index (mArgsForCall (bsSetTrailer fake)) i"

lemma BuildStream_recorded [simp]:
  "the_list (BuildStream_Invocations (BuildStream_recordInvocation key args fake) key) = the_list (BuildStream_Invocations fake key) @ [args]"
  by (simp add: BuildStream_recordInvocation_def BuildStream_Invocations_def the_list_def Let_def split: option.split)

lemma BuildStream_recorded_frame [simp]:
  "bsContext (BuildStream_recordInvocation key args fake) = bsContext fake"
  "bsRecvMsg (BuildStream_recordInvocation key args fake) = bsRecvMsg fake"
  "bsSend (BuildStream_recordInvocation key args fake) = bsSend fake"
  "bsSendHeader (BuildStream_recordInvocation key args fake) = bsSendHeader fake"
  "bsSendMsg (BuildStream_recordInvocation key args fake) = bsSendMsg fake"
  "bsSetHeader (BuildStream_recordInvocation key args fake) = bsSetHeader fake"
  "bsSetTrailer (BuildStream_recordInvocation key args fake) = bsSetTrailer fake"
  by (simp_all add: BuildStream_recordInvocation_def Let_def)

lemma BuildStream_seen_frame [simp]:
  "BuildStream_Invocations (fake\<lparr>bsContext := x0\<rparr>) = BuildStream_Invocations fake"
  "BuildStream_Invocations (fake\<lparr>bsRecvMsg := x1\<rparr>) = BuildStream_Invocations fake"
  "BuildStream_Invocations (fake\<lparr>bsSend := x2\<rparr>) = BuildStream_Invocations fake"
  "BuildStream_Invocations (fake\<lparr>bsSendHeader := x3\<rparr>) = BuildStream_Invocations fake"
  "BuildStream_Invocations (fake\<lparr>bsSendMsg := x4\<rparr>) = BuildStream_Invocations fake"
  "BuildStream_Invocations (fake\<lparr>bsSetHeader := x5\<rparr>) = BuildStream_Invocations fake"
  "BuildStream_Invocations (fake\<lparr>bsSetTrailer := x6\<rparr>) = BuildStream_Invocations fake"
  by (simp_all add: BuildStream_Invocations_def)

lemmas bsdefs = BuildStream_Context_def BuildStream_ContextCallCount_def BuildStream_ContextCalls_def
  BuildStream_ContextReturns_def BuildStream_ContextReturnsOnCall_def BuildStream_RecvMsg_def
  BuildStream_RecvMsgCallCount_def BuildStream_RecvMsgCalls_def BuildStream_RecvMsgArgsForCall_def
  BuildStream_RecvMsgReturns_def BuildStream_RecvMsgReturnsOnCall_def BuildStream_Send_def
  BuildStream_SendCallCount_def BuildStream_SendCalls_def BuildStream_SendArgsForCall_def
  BuildStream_SendReturns_def BuildStream_SendReturnsOnCall_def BuildStream_SendHeader_def
  BuildStream_SendHeaderCallCount_def BuildStream_SendHeaderCalls_def BuildStream_SendHeaderArgsForCall_def
  BuildStream_SendHeaderReturns_def BuildStream_SendHeaderReturnsOnCall_def BuildStream_SendMsg_def
  BuildStream_SendMsgCallCount_def BuildStream_SendMsgCalls_def BuildStream_SendMsgArgsForCall_def
  BuildStream_SendMsgReturns_def BuildStream_SendMsgReturnsOnCall_def BuildStream_SetHeader_def
  BuildStream_SetHeaderCallCount_def BuildStream_SetHeaderCalls_def BuildStream_SetHeaderArgsForCall_def
  BuildStream_SetHeaderReturns_def BuildStream_SetHeaderReturnsOnCall_def BuildStream_SetTrailer_locked_def
  BuildStream_SetTrailer_unlocked_def BuildStream_SetTrailer_def BuildStream_SetTrailerCallCount_def
  BuildStream_SetTrailerCalls_def BuildStream_SetTrailerArgsForCall_def

interpretation bscontext: returning_spy "\<lambda>_. BuildStream_Context" BuildStream_ContextCallCount BuildStream_ContextCalls bsContext
    "\<lambda>fake. the_list (BuildStream_Invocations fake ''Context'')" "\<lambda>_. []" BuildStream_ContextReturns BuildStream_ContextReturnsOnCall
  by unfold_locales
    (auto simp: bsdefs Let_def answer_call_def called_def split: prod.splits option.splits)

interpretation bsrecvmsg: double "BuildStream_RecvMsg" BuildStream_RecvMsgCallCount BuildStream_RecvMsgCalls bsRecvMsg
    "\<lambda>fake. the_list (BuildStream_Invocations fake ''RecvMsg'')" "\<lambda>a. [Opaque a]" BuildStream_RecvMsgArgsForCall BuildStream_RecvMsgReturns BuildStream_RecvMsgReturnsOnCall
  by unfold_locales
    (auto simp: bsdefs Let_def answer_call_def called_def split: prod.splits option.splits)

interpretation bssend: double "BuildStream_Send" BuildStream_SendCallCount BuildStream_SendCalls bsSend
    "\<lambda>fake. the_list (BuildStream_Invocations fake ''Send'')" "\<lambda>a. [VBuildResponse a]" BuildStream_SendArgsForCall BuildStream_SendReturns BuildStream_SendReturnsOnCall
  by unfold_locales
    (auto simp: bsdefs Let_def answer_call_def called_def split: prod.splits option.splits)

interpretation bssendheader: double "BuildStream_SendHeader" BuildStream_SendHeaderCallCount BuildStream_SendHeaderCalls bsSendHeader
    "\<lambda>fake. the_list (BuildStream_Invocations fake ''SendHeader'')" "\<lambda>a. [Opaque a]" BuildStream_SendHeaderArgsForCall BuildStream_SendHeaderReturns BuildStream_SendHeaderReturnsOnCall
  by unfold_locales
    (auto simp: bsdefs Let_def answer_call_def called_def split: prod.splits option.splits)

interpretation bssendmsg: double "BuildStream_SendMsg" BuildStream_SendMsgCallCount BuildStream_SendMsgCalls bsSendMsg
    "\<lambda>fake. the_list (BuildStream_Invocations fake ''SendMsg'')" "\<lambda>a. [Opaque a]" BuildStream_SendMsgArgsForCall BuildStream_SendMsgReturns BuildStream_SendMsgReturnsOnCall
  by unfold_locales
    (auto simp: bsdefs Let_def answer_call_def called_def split: prod.splits option.splits)

interpretation bssetheader: double "BuildStream_SetHeader" BuildStream_SetHeaderCallCount BuildStream_SetHeaderCalls bsSetHeader
    "\<lambda>fake. the_list (BuildStream_Invocations fake ''SetHeader'')" "\<lambda>a. [Opaque a]" BuildStream_SetHeaderArgsForCall BuildStream_SetHeaderReturns BuildStream_SetHeaderReturnsOnCall
  by unfold_locales
    (auto simp: bsdefs Let_def answer_call_def called_def split: prod.splits option.splits)

interpretation bssettrailer: arguing_spy "\<lambda>a w fake. (case BuildStream_SetTrailer a w fake of (r, fake') \<Rightarrow> (case r of Ok (u, w') \<Rightarrow> (u, w', fake') | _ \<Rightarrow> ((), w, fake')))" BuildStream_SetTrailerCallCount BuildStream_SetTrailerCalls bsSetTrailer
    "\<lambda>fake. the_list (BuildStream_Invocations fake ''SetTrailer'')" "\<lambda>a. [Opaque a]" BuildStream_SetTrailerArgsForCall
  by unfold_locales
    (auto simp: bsdefs Let_def answer_call_def called_def split: prod.splits option.splits)

section \<open>\<^verbatim>\<open>RunStream\<close>\<close>

record ('x, 'w) RunStream =
  rsContext :: "(unit, 'x option, 'w) fake_method"
  rsRecvMsg :: "('x, nilerr, 'w) fake_method"
  rsSend :: "(RunResponse, nilerr, 'w) fake_method"
  rsSendHeader :: "('x, nilerr, 'w) fake_method"
  rsSendMsg :: "('x, nilerr, 'w) fake_method"
  rsSetHeader :: "('x, nilerr, 'w) fake_method"
  rsSetTrailer :: "('x, unit, 'w) fake_method"
  rsinvocations :: "'x recorded"

definition RunStream_zero :: "('x, 'w) RunStream" where
  "RunStream_zero = \<lparr>rsContext = no_calls None, rsRecvMsg = no_calls None, rsSend = no_calls None, rsSendHeader = no_calls None, rsSendMsg = no_calls None, rsSetHeader = no_calls None, rsSetTrailer = no_calls (), rsinvocations = None\<rparr>"

definition RunStream_recordInvocation :: "string \<Rightarrow> 'x go_value list \<Rightarrow> ('x, 'w) RunStream \<Rightarrow> ('x, 'w) RunStream" where
  "RunStream_recordInvocation key args fake =
     (let m = made (rsinvocations fake);
          m = (case map_get m key of None \<Rightarrow> map_put m key [] | Some _ \<Rightarrow> m)
      in fake\<lparr>rsinvocations := map_put m key (the (map_get m key) @ [args])\<rparr>)"

definition RunStream_Invocations :: "('x, 'w) RunStream \<Rightarrow> string \<rightharpoonup> 'x go_value list list" where
  "RunStream_Invocations fake = map_get (rsinvocations fake)"

definition RunStream_Context :: "'w \<Rightarrow> ('x, 'w) RunStream \<Rightarrow> 'x option \<times> 'w \<times> ('x, 'w) RunStream" where
  "RunStream_Context w fake =
     (let ret = map_get (mReturnsOnCall (rsContext fake)) (int (length (mArgsForCall (rsContext fake))));
          fake' = fake\<lparr>rsContext := (rsContext fake)\<lparr>mArgsForCall := mArgsForCall (rsContext fake) @ [()]\<rparr>\<rparr>;
          fakeReturns = mReturns (rsContext fake');
          fake'' = RunStream_recordInvocation ''Context'' [] fake'
      in case mStub (rsContext fake') of
           Some stub \<Rightarrow> (case stub () w of (result1, w') \<Rightarrow> (result1, w', fake''))
         | None \<Rightarrow> (case ret of Some result1 \<Rightarrow> (result1, w, fake'') | None \<Rightarrow> (fakeReturns, w, fake'')))"

definition RunStream_ContextCallCount :: "('x, 'w) RunStream \<Rightarrow> nat" where
  "RunStream_ContextCallCount fake = length (mArgsForCall (rsContext fake))"

definition RunStream_ContextCalls :: "(unit, 'x option, 'w) stub option \<Rightarrow> ('x, 'w) RunStream \<Rightarrow> ('x, 'w) RunStream" where
  "RunStream_ContextCalls stub fake = fake\<lparr>rsContext := (rsContext fake)\<lparr>mStub := stub\<rparr>\<rparr>"

definition RunStream_ContextReturns :: "'x option \<Rightarrow> ('x, 'w) RunStream \<Rightarrow> ('x, 'w) RunStream" where
  "RunStream_ContextReturns result1 fake =
     fake\<lparr>rsContext := (rsContext fake)\<lparr>mStub := None, mReturns := result1\<rparr>\<rparr>"

definition RunStream_ContextReturnsOnCall :: "int \<Rightarrow> 'x option \<Rightarrow> ('x, 'w) RunStream \<Rightarrow> ('x, 'w) RunStream" where
  "RunStream_ContextReturnsOnCall i result1 fake =
     fake\<lparr>rsContext := (rsContext fake)\<lparr>mStub := None,
       mReturnsOnCall := map_put (made (mReturnsOnCall (rsContext fake))) i result1\<rparr>\<rparr>"

definition RunStream_RecvMsg :: "'x \<Rightarrow> 'w \<Rightarrow> ('x, 'w) RunStream \<Rightarrow> nilerr \<times> 'w \<times> ('x, 'w) RunStream" where
  "RunStream_RecvMsg arg1 w fake =
     (let ret = map_get (mReturnsOnCall (rsRecvMsg fake)) (int (length (mArgsForCall (rsRecvMsg fake))));
          fake' = fake\<lparr>rsRecvMsg := (rsRecvMsg fake)\<lparr>mArgsForCall := mArgsForCall (rsRecvMsg fake) @ [arg1]\<rparr>\<rparr>;
          fakeReturns = mReturns (rsRecvMsg fake');
          fake'' = RunStream_recordInvocation ''RecvMsg'' [Opaque arg1] fake'
      in case mStub (rsRecvMsg fake') of
           Some stub \<Rightarrow> (case stub arg1 w of (result1, w') \<Rightarrow> (result1, w', fake''))
         | None \<Rightarrow> (case ret of Some result1 \<Rightarrow> (result1, w, fake'') | None \<Rightarrow> (fakeReturns, w, fake'')))"

definition RunStream_RecvMsgCallCount :: "('x, 'w) RunStream \<Rightarrow> nat" where
  "RunStream_RecvMsgCallCount fake = length (mArgsForCall (rsRecvMsg fake))"

definition RunStream_RecvMsgCalls :: "('x, nilerr, 'w) stub option \<Rightarrow> ('x, 'w) RunStream \<Rightarrow> ('x, 'w) RunStream" where
  "RunStream_RecvMsgCalls stub fake = fake\<lparr>rsRecvMsg := (rsRecvMsg fake)\<lparr>mStub := stub\<rparr>\<rparr>"

definition RunStream_RecvMsgArgsForCall :: "int \<Rightarrow> ('x, 'w) RunStream \<Rightarrow> ('x) outcome" where
  "RunStream_RecvMsgArgsForCall i fake = slice_index (mArgsForCall (rsRecvMsg fake)) i"

definition RunStream_RecvMsgReturns :: "nilerr \<Rightarrow> ('x, 'w) RunStream \<Rightarrow> ('x, 'w) RunStream" where
  "RunStream_RecvMsgReturns result1 fake =
     fake\<lparr>rsRecvMsg := (rsRecvMsg fake)\<lparr>mStub := None, mReturns := result1\<rparr>\<rparr>"

definition RunStream_RecvMsgReturnsOnCall :: "int \<Rightarrow> nilerr \<Rightarrow> ('x, 'w) RunStream \<Rightarrow> ('x, 'w) RunStream" where
  "RunStream_RecvMsgReturnsOnCall i result1 fake =
     fake\<lparr>rsRecvMsg := (rsRecvMsg fake)\<lparr>mStub := None,
       mReturnsOnCall := map_put (made (mReturnsOnCall (rsRecvMsg fake))) i result1\<rparr>\<rparr>"

definition RunStream_Send :: "RunResponse \<Rightarrow> 'w \<Rightarrow> ('x, 'w) RunStream \<Rightarrow> nilerr \<times> 'w \<times> ('x, 'w) RunStream" where
  "RunStream_Send arg1 w fake =
     (let ret = map_get (mReturnsOnCall (rsSend fake)) (int (length (mArgsForCall (rsSend fake))));
          fake' = fake\<lparr>rsSend := (rsSend fake)\<lparr>mArgsForCall := mArgsForCall (rsSend fake) @ [arg1]\<rparr>\<rparr>;
          fakeReturns = mReturns (rsSend fake');
          fake'' = RunStream_recordInvocation ''Send'' [VRunResponse arg1] fake'
      in case mStub (rsSend fake') of
           Some stub \<Rightarrow> (case stub arg1 w of (result1, w') \<Rightarrow> (result1, w', fake''))
         | None \<Rightarrow> (case ret of Some result1 \<Rightarrow> (result1, w, fake'') | None \<Rightarrow> (fakeReturns, w, fake'')))"

definition RunStream_SendCallCount :: "('x, 'w) RunStream \<Rightarrow> nat" where
  "RunStream_SendCallCount fake = length (mArgsForCall (rsSend fake))"

definition RunStream_SendCalls :: "(RunResponse, nilerr, 'w) stub option \<Rightarrow> ('x, 'w) RunStream \<Rightarrow> ('x, 'w) RunStream" where
  "RunStream_SendCalls stub fake = fake\<lparr>rsSend := (rsSend fake)\<lparr>mStub := stub\<rparr>\<rparr>"

definition RunStream_SendArgsForCall :: "int \<Rightarrow> ('x, 'w) RunStream \<Rightarrow> (RunResponse) outcome" where
  "RunStream_SendArgsForCall i fake = slice_index (mArgsForCall (rsSend fake)) i"

definition RunStream_SendReturns :: "nilerr \<Rightarrow> ('x, 'w) RunStream \<Rightarrow> ('x, 'w) RunStream" where
  "RunStream_SendReturns result1 fake =
     fake\<lparr>rsSend := (rsSend fake)\<lparr>mStub := None, mReturns := result1\<rparr>\<rparr>"

definition RunStream_SendReturnsOnCall :: "int \<Rightarrow> nilerr \<Rightarrow> ('x, 'w) RunStream \<Rightarrow> ('x, 'w) RunStream" where
  "RunStream_SendReturnsOnCall i result1 fake =
     fake\<lparr>rsSend := (rsSend fake)\<lparr>mStub := None,
       mReturnsOnCall := map_put (made (mReturnsOnCall (rsSend fake))) i result1\<rparr>\<rparr>"

definition RunStream_SendHeader :: "'x \<Rightarrow> 'w \<Rightarrow> ('x, 'w) RunStream \<Rightarrow> nilerr \<times> 'w \<times> ('x, 'w) RunStream" where
  "RunStream_SendHeader arg1 w fake =
     (let ret = map_get (mReturnsOnCall (rsSendHeader fake)) (int (length (mArgsForCall (rsSendHeader fake))));
          fake' = fake\<lparr>rsSendHeader := (rsSendHeader fake)\<lparr>mArgsForCall := mArgsForCall (rsSendHeader fake) @ [arg1]\<rparr>\<rparr>;
          fakeReturns = mReturns (rsSendHeader fake');
          fake'' = RunStream_recordInvocation ''SendHeader'' [Opaque arg1] fake'
      in case mStub (rsSendHeader fake') of
           Some stub \<Rightarrow> (case stub arg1 w of (result1, w') \<Rightarrow> (result1, w', fake''))
         | None \<Rightarrow> (case ret of Some result1 \<Rightarrow> (result1, w, fake'') | None \<Rightarrow> (fakeReturns, w, fake'')))"

definition RunStream_SendHeaderCallCount :: "('x, 'w) RunStream \<Rightarrow> nat" where
  "RunStream_SendHeaderCallCount fake = length (mArgsForCall (rsSendHeader fake))"

definition RunStream_SendHeaderCalls :: "('x, nilerr, 'w) stub option \<Rightarrow> ('x, 'w) RunStream \<Rightarrow> ('x, 'w) RunStream" where
  "RunStream_SendHeaderCalls stub fake = fake\<lparr>rsSendHeader := (rsSendHeader fake)\<lparr>mStub := stub\<rparr>\<rparr>"

definition RunStream_SendHeaderArgsForCall :: "int \<Rightarrow> ('x, 'w) RunStream \<Rightarrow> ('x) outcome" where
  "RunStream_SendHeaderArgsForCall i fake = slice_index (mArgsForCall (rsSendHeader fake)) i"

definition RunStream_SendHeaderReturns :: "nilerr \<Rightarrow> ('x, 'w) RunStream \<Rightarrow> ('x, 'w) RunStream" where
  "RunStream_SendHeaderReturns result1 fake =
     fake\<lparr>rsSendHeader := (rsSendHeader fake)\<lparr>mStub := None, mReturns := result1\<rparr>\<rparr>"

definition RunStream_SendHeaderReturnsOnCall :: "int \<Rightarrow> nilerr \<Rightarrow> ('x, 'w) RunStream \<Rightarrow> ('x, 'w) RunStream" where
  "RunStream_SendHeaderReturnsOnCall i result1 fake =
     fake\<lparr>rsSendHeader := (rsSendHeader fake)\<lparr>mStub := None,
       mReturnsOnCall := map_put (made (mReturnsOnCall (rsSendHeader fake))) i result1\<rparr>\<rparr>"

definition RunStream_SendMsg :: "'x \<Rightarrow> 'w \<Rightarrow> ('x, 'w) RunStream \<Rightarrow> nilerr \<times> 'w \<times> ('x, 'w) RunStream" where
  "RunStream_SendMsg arg1 w fake =
     (let ret = map_get (mReturnsOnCall (rsSendMsg fake)) (int (length (mArgsForCall (rsSendMsg fake))));
          fake' = fake\<lparr>rsSendMsg := (rsSendMsg fake)\<lparr>mArgsForCall := mArgsForCall (rsSendMsg fake) @ [arg1]\<rparr>\<rparr>;
          fakeReturns = mReturns (rsSendMsg fake');
          fake'' = RunStream_recordInvocation ''SendMsg'' [Opaque arg1] fake'
      in case mStub (rsSendMsg fake') of
           Some stub \<Rightarrow> (case stub arg1 w of (result1, w') \<Rightarrow> (result1, w', fake''))
         | None \<Rightarrow> (case ret of Some result1 \<Rightarrow> (result1, w, fake'') | None \<Rightarrow> (fakeReturns, w, fake'')))"

definition RunStream_SendMsgCallCount :: "('x, 'w) RunStream \<Rightarrow> nat" where
  "RunStream_SendMsgCallCount fake = length (mArgsForCall (rsSendMsg fake))"

definition RunStream_SendMsgCalls :: "('x, nilerr, 'w) stub option \<Rightarrow> ('x, 'w) RunStream \<Rightarrow> ('x, 'w) RunStream" where
  "RunStream_SendMsgCalls stub fake = fake\<lparr>rsSendMsg := (rsSendMsg fake)\<lparr>mStub := stub\<rparr>\<rparr>"

definition RunStream_SendMsgArgsForCall :: "int \<Rightarrow> ('x, 'w) RunStream \<Rightarrow> ('x) outcome" where
  "RunStream_SendMsgArgsForCall i fake = slice_index (mArgsForCall (rsSendMsg fake)) i"

definition RunStream_SendMsgReturns :: "nilerr \<Rightarrow> ('x, 'w) RunStream \<Rightarrow> ('x, 'w) RunStream" where
  "RunStream_SendMsgReturns result1 fake =
     fake\<lparr>rsSendMsg := (rsSendMsg fake)\<lparr>mStub := None, mReturns := result1\<rparr>\<rparr>"

definition RunStream_SendMsgReturnsOnCall :: "int \<Rightarrow> nilerr \<Rightarrow> ('x, 'w) RunStream \<Rightarrow> ('x, 'w) RunStream" where
  "RunStream_SendMsgReturnsOnCall i result1 fake =
     fake\<lparr>rsSendMsg := (rsSendMsg fake)\<lparr>mStub := None,
       mReturnsOnCall := map_put (made (mReturnsOnCall (rsSendMsg fake))) i result1\<rparr>\<rparr>"

definition RunStream_SetHeader :: "'x \<Rightarrow> 'w \<Rightarrow> ('x, 'w) RunStream \<Rightarrow> nilerr \<times> 'w \<times> ('x, 'w) RunStream" where
  "RunStream_SetHeader arg1 w fake =
     (let ret = map_get (mReturnsOnCall (rsSetHeader fake)) (int (length (mArgsForCall (rsSetHeader fake))));
          fake' = fake\<lparr>rsSetHeader := (rsSetHeader fake)\<lparr>mArgsForCall := mArgsForCall (rsSetHeader fake) @ [arg1]\<rparr>\<rparr>;
          fakeReturns = mReturns (rsSetHeader fake');
          fake'' = RunStream_recordInvocation ''SetHeader'' [Opaque arg1] fake'
      in case mStub (rsSetHeader fake') of
           Some stub \<Rightarrow> (case stub arg1 w of (result1, w') \<Rightarrow> (result1, w', fake''))
         | None \<Rightarrow> (case ret of Some result1 \<Rightarrow> (result1, w, fake'') | None \<Rightarrow> (fakeReturns, w, fake'')))"

definition RunStream_SetHeaderCallCount :: "('x, 'w) RunStream \<Rightarrow> nat" where
  "RunStream_SetHeaderCallCount fake = length (mArgsForCall (rsSetHeader fake))"

definition RunStream_SetHeaderCalls :: "('x, nilerr, 'w) stub option \<Rightarrow> ('x, 'w) RunStream \<Rightarrow> ('x, 'w) RunStream" where
  "RunStream_SetHeaderCalls stub fake = fake\<lparr>rsSetHeader := (rsSetHeader fake)\<lparr>mStub := stub\<rparr>\<rparr>"

definition RunStream_SetHeaderArgsForCall :: "int \<Rightarrow> ('x, 'w) RunStream \<Rightarrow> ('x) outcome" where
  "RunStream_SetHeaderArgsForCall i fake = slice_index (mArgsForCall (rsSetHeader fake)) i"

definition RunStream_SetHeaderReturns :: "nilerr \<Rightarrow> ('x, 'w) RunStream \<Rightarrow> ('x, 'w) RunStream" where
  "RunStream_SetHeaderReturns result1 fake =
     fake\<lparr>rsSetHeader := (rsSetHeader fake)\<lparr>mStub := None, mReturns := result1\<rparr>\<rparr>"

definition RunStream_SetHeaderReturnsOnCall :: "int \<Rightarrow> nilerr \<Rightarrow> ('x, 'w) RunStream \<Rightarrow> ('x, 'w) RunStream" where
  "RunStream_SetHeaderReturnsOnCall i result1 fake =
     fake\<lparr>rsSetHeader := (rsSetHeader fake)\<lparr>mStub := None,
       mReturnsOnCall := map_put (made (mReturnsOnCall (rsSetHeader fake))) i result1\<rparr>\<rparr>"

definition RunStream_SetTrailer_locked :: "'x \<Rightarrow> ('x, 'w) RunStream \<Rightarrow> ('x, 'w) RunStream" where
  "RunStream_SetTrailer_locked arg1 fake =
     RunStream_recordInvocation ''SetTrailer'' [Opaque arg1]
       (fake\<lparr>rsSetTrailer := (rsSetTrailer fake)\<lparr>mArgsForCall := mArgsForCall (rsSetTrailer fake) @ [arg1]\<rparr>\<rparr>)"

definition RunStream_SetTrailer_unlocked :: "('x, unit, 'w) stub option \<Rightarrow> 'x \<Rightarrow> 'w \<Rightarrow> ('x, 'w) RunStream \<Rightarrow> (unit \<times> 'w) outcome" where
  "RunStream_SetTrailer_unlocked seen arg1 w fake =
     (case seen of
        None \<Rightarrow> Ok ((), w)
      | Some _ \<Rightarrow> (case mStub (rsSetTrailer fake) of
          Some stub \<Rightarrow> Ok (stub arg1 w) | None \<Rightarrow> Panic ''nil pointer dereference''))"

definition RunStream_SetTrailer :: "'x \<Rightarrow> 'w \<Rightarrow> ('x, 'w) RunStream \<Rightarrow> (unit \<times> 'w) outcome \<times> ('x, 'w) RunStream" where
  "RunStream_SetTrailer arg1 w fake =
     (let fake' = RunStream_SetTrailer_locked arg1 fake in
      (RunStream_SetTrailer_unlocked (mStub (rsSetTrailer fake)) arg1 w fake', fake'))"

definition RunStream_SetTrailerCallCount :: "('x, 'w) RunStream \<Rightarrow> nat" where
  "RunStream_SetTrailerCallCount fake = length (mArgsForCall (rsSetTrailer fake))"

definition RunStream_SetTrailerCalls :: "('x, unit, 'w) stub option \<Rightarrow> ('x, 'w) RunStream \<Rightarrow> ('x, 'w) RunStream" where
  "RunStream_SetTrailerCalls stub fake = fake\<lparr>rsSetTrailer := (rsSetTrailer fake)\<lparr>mStub := stub\<rparr>\<rparr>"

definition RunStream_SetTrailerArgsForCall :: "int \<Rightarrow> ('x, 'w) RunStream \<Rightarrow> ('x) outcome" where
  "RunStream_SetTrailerArgsForCall i fake = slice_index (mArgsForCall (rsSetTrailer fake)) i"

lemma RunStream_recorded [simp]:
  "the_list (RunStream_Invocations (RunStream_recordInvocation key args fake) key) = the_list (RunStream_Invocations fake key) @ [args]"
  by (simp add: RunStream_recordInvocation_def RunStream_Invocations_def the_list_def Let_def split: option.split)

lemma RunStream_recorded_frame [simp]:
  "rsContext (RunStream_recordInvocation key args fake) = rsContext fake"
  "rsRecvMsg (RunStream_recordInvocation key args fake) = rsRecvMsg fake"
  "rsSend (RunStream_recordInvocation key args fake) = rsSend fake"
  "rsSendHeader (RunStream_recordInvocation key args fake) = rsSendHeader fake"
  "rsSendMsg (RunStream_recordInvocation key args fake) = rsSendMsg fake"
  "rsSetHeader (RunStream_recordInvocation key args fake) = rsSetHeader fake"
  "rsSetTrailer (RunStream_recordInvocation key args fake) = rsSetTrailer fake"
  by (simp_all add: RunStream_recordInvocation_def Let_def)

lemma RunStream_seen_frame [simp]:
  "RunStream_Invocations (fake\<lparr>rsContext := x0\<rparr>) = RunStream_Invocations fake"
  "RunStream_Invocations (fake\<lparr>rsRecvMsg := x1\<rparr>) = RunStream_Invocations fake"
  "RunStream_Invocations (fake\<lparr>rsSend := x2\<rparr>) = RunStream_Invocations fake"
  "RunStream_Invocations (fake\<lparr>rsSendHeader := x3\<rparr>) = RunStream_Invocations fake"
  "RunStream_Invocations (fake\<lparr>rsSendMsg := x4\<rparr>) = RunStream_Invocations fake"
  "RunStream_Invocations (fake\<lparr>rsSetHeader := x5\<rparr>) = RunStream_Invocations fake"
  "RunStream_Invocations (fake\<lparr>rsSetTrailer := x6\<rparr>) = RunStream_Invocations fake"
  by (simp_all add: RunStream_Invocations_def)

lemmas rsdefs = RunStream_Context_def RunStream_ContextCallCount_def RunStream_ContextCalls_def RunStream_ContextReturns_def
  RunStream_ContextReturnsOnCall_def RunStream_RecvMsg_def RunStream_RecvMsgCallCount_def
  RunStream_RecvMsgCalls_def RunStream_RecvMsgArgsForCall_def RunStream_RecvMsgReturns_def
  RunStream_RecvMsgReturnsOnCall_def RunStream_Send_def RunStream_SendCallCount_def
  RunStream_SendCalls_def RunStream_SendArgsForCall_def RunStream_SendReturns_def RunStream_SendReturnsOnCall_def
  RunStream_SendHeader_def RunStream_SendHeaderCallCount_def RunStream_SendHeaderCalls_def
  RunStream_SendHeaderArgsForCall_def RunStream_SendHeaderReturns_def RunStream_SendHeaderReturnsOnCall_def
  RunStream_SendMsg_def RunStream_SendMsgCallCount_def RunStream_SendMsgCalls_def RunStream_SendMsgArgsForCall_def
  RunStream_SendMsgReturns_def RunStream_SendMsgReturnsOnCall_def RunStream_SetHeader_def
  RunStream_SetHeaderCallCount_def RunStream_SetHeaderCalls_def RunStream_SetHeaderArgsForCall_def
  RunStream_SetHeaderReturns_def RunStream_SetHeaderReturnsOnCall_def RunStream_SetTrailer_locked_def
  RunStream_SetTrailer_unlocked_def RunStream_SetTrailer_def RunStream_SetTrailerCallCount_def
  RunStream_SetTrailerCalls_def RunStream_SetTrailerArgsForCall_def

interpretation rscontext: returning_spy "\<lambda>_. RunStream_Context" RunStream_ContextCallCount RunStream_ContextCalls rsContext
    "\<lambda>fake. the_list (RunStream_Invocations fake ''Context'')" "\<lambda>_. []" RunStream_ContextReturns RunStream_ContextReturnsOnCall
  by unfold_locales
    (auto simp: rsdefs Let_def answer_call_def called_def split: prod.splits option.splits)

interpretation rsrecvmsg: double "RunStream_RecvMsg" RunStream_RecvMsgCallCount RunStream_RecvMsgCalls rsRecvMsg
    "\<lambda>fake. the_list (RunStream_Invocations fake ''RecvMsg'')" "\<lambda>a. [Opaque a]" RunStream_RecvMsgArgsForCall RunStream_RecvMsgReturns RunStream_RecvMsgReturnsOnCall
  by unfold_locales
    (auto simp: rsdefs Let_def answer_call_def called_def split: prod.splits option.splits)

interpretation rssend: double "RunStream_Send" RunStream_SendCallCount RunStream_SendCalls rsSend
    "\<lambda>fake. the_list (RunStream_Invocations fake ''Send'')" "\<lambda>a. [VRunResponse a]" RunStream_SendArgsForCall RunStream_SendReturns RunStream_SendReturnsOnCall
  by unfold_locales
    (auto simp: rsdefs Let_def answer_call_def called_def split: prod.splits option.splits)

interpretation rssendheader: double "RunStream_SendHeader" RunStream_SendHeaderCallCount RunStream_SendHeaderCalls rsSendHeader
    "\<lambda>fake. the_list (RunStream_Invocations fake ''SendHeader'')" "\<lambda>a. [Opaque a]" RunStream_SendHeaderArgsForCall RunStream_SendHeaderReturns RunStream_SendHeaderReturnsOnCall
  by unfold_locales
    (auto simp: rsdefs Let_def answer_call_def called_def split: prod.splits option.splits)

interpretation rssendmsg: double "RunStream_SendMsg" RunStream_SendMsgCallCount RunStream_SendMsgCalls rsSendMsg
    "\<lambda>fake. the_list (RunStream_Invocations fake ''SendMsg'')" "\<lambda>a. [Opaque a]" RunStream_SendMsgArgsForCall RunStream_SendMsgReturns RunStream_SendMsgReturnsOnCall
  by unfold_locales
    (auto simp: rsdefs Let_def answer_call_def called_def split: prod.splits option.splits)

interpretation rssetheader: double "RunStream_SetHeader" RunStream_SetHeaderCallCount RunStream_SetHeaderCalls rsSetHeader
    "\<lambda>fake. the_list (RunStream_Invocations fake ''SetHeader'')" "\<lambda>a. [Opaque a]" RunStream_SetHeaderArgsForCall RunStream_SetHeaderReturns RunStream_SetHeaderReturnsOnCall
  by unfold_locales
    (auto simp: rsdefs Let_def answer_call_def called_def split: prod.splits option.splits)

interpretation rssettrailer: arguing_spy "\<lambda>a w fake. (case RunStream_SetTrailer a w fake of (r, fake') \<Rightarrow> (case r of Ok (u, w') \<Rightarrow> (u, w', fake') | _ \<Rightarrow> ((), w, fake')))" RunStream_SetTrailerCallCount RunStream_SetTrailerCalls rsSetTrailer
    "\<lambda>fake. the_list (RunStream_Invocations fake ''SetTrailer'')" "\<lambda>a. [Opaque a]" RunStream_SetTrailerArgsForCall
  by unfold_locales
    (auto simp: rsdefs Let_def answer_call_def called_def split: prod.splits option.splits)

end
