(* ===== verification/FakeServers.thy ===== *)
theory FakeServers
  imports Doubles
begin

text \<open>
  The test doubles of the gRPC servers: \<^verbatim>\<open>pkg/command/fakes/builder.go\<close> and \<^verbatim>\<open>runner.go\<close> stand for
  the sidecar in the tests of the client commands, \<^verbatim>\<open>integration/fakes/chaincode_server.go\<close> for the
  peer. One definition per Go method, as in \<open>FakeStreams\<close>.
\<close>

section \<open>\<^verbatim>\<open>BuilderServer\<close>\<close>

record ('x, 'w) BuilderServer =
  bdBuild :: "(BuildRequest \<times> 'x, nilerr, 'w) fake_method"
  bdinvocations :: "'x recorded"

definition BuilderServer_zero :: "('x, 'w) BuilderServer" where
  "BuilderServer_zero = \<lparr>bdBuild = no_calls None, bdinvocations = None\<rparr>"

definition BuilderServer_recordInvocation :: "string \<Rightarrow> 'x go_value list \<Rightarrow> ('x, 'w) BuilderServer \<Rightarrow> ('x, 'w) BuilderServer" where
  "BuilderServer_recordInvocation key args fake =
     (let m = made (bdinvocations fake);
          m = (case map_get m key of None \<Rightarrow> map_put m key [] | Some _ \<Rightarrow> m)
      in fake\<lparr>bdinvocations := map_put m key (the (map_get m key) @ [args])\<rparr>)"

definition BuilderServer_Invocations :: "('x, 'w) BuilderServer \<Rightarrow> string \<rightharpoonup> 'x go_value list list" where
  "BuilderServer_Invocations fake = map_get (bdinvocations fake)"

definition BuilderServer_Build :: "BuildRequest \<Rightarrow> 'x \<Rightarrow> 'w \<Rightarrow> ('x, 'w) BuilderServer \<Rightarrow> nilerr \<times> 'w \<times> ('x, 'w) BuilderServer" where
  "BuilderServer_Build arg1 arg2 w fake =
     (let ret = map_get (mReturnsOnCall (bdBuild fake)) (int (length (mArgsForCall (bdBuild fake))));
          fake' = fake\<lparr>bdBuild := (bdBuild fake)\<lparr>mArgsForCall := mArgsForCall (bdBuild fake) @ [(arg1, arg2)]\<rparr>\<rparr>;
          fakeReturns = mReturns (bdBuild fake');
          fake'' = BuilderServer_recordInvocation ''Build'' [VBuildRequest arg1, Opaque arg2] fake'
      in case mStub (bdBuild fake') of
           Some stub \<Rightarrow> (case stub (arg1, arg2) w of (result1, w') \<Rightarrow> (result1, w', fake''))
         | None \<Rightarrow> (case ret of Some result1 \<Rightarrow> (result1, w, fake'') | None \<Rightarrow> (fakeReturns, w, fake'')))"

definition BuilderServer_BuildCallCount :: "('x, 'w) BuilderServer \<Rightarrow> nat" where
  "BuilderServer_BuildCallCount fake = length (mArgsForCall (bdBuild fake))"

definition BuilderServer_BuildCalls :: "(BuildRequest \<times> 'x, nilerr, 'w) stub option \<Rightarrow> ('x, 'w) BuilderServer \<Rightarrow> ('x, 'w) BuilderServer" where
  "BuilderServer_BuildCalls stub fake = fake\<lparr>bdBuild := (bdBuild fake)\<lparr>mStub := stub\<rparr>\<rparr>"

definition BuilderServer_BuildArgsForCall :: "int \<Rightarrow> ('x, 'w) BuilderServer \<Rightarrow> (BuildRequest \<times> 'x) outcome" where
  "BuilderServer_BuildArgsForCall i fake = slice_index (mArgsForCall (bdBuild fake)) i"

definition BuilderServer_BuildReturns :: "nilerr \<Rightarrow> ('x, 'w) BuilderServer \<Rightarrow> ('x, 'w) BuilderServer" where
  "BuilderServer_BuildReturns result1 fake =
     fake\<lparr>bdBuild := (bdBuild fake)\<lparr>mStub := None, mReturns := result1\<rparr>\<rparr>"

definition BuilderServer_BuildReturnsOnCall :: "int \<Rightarrow> nilerr \<Rightarrow> ('x, 'w) BuilderServer \<Rightarrow> ('x, 'w) BuilderServer" where
  "BuilderServer_BuildReturnsOnCall i result1 fake =
     fake\<lparr>bdBuild := (bdBuild fake)\<lparr>mStub := None,
       mReturnsOnCall := map_put (made (mReturnsOnCall (bdBuild fake))) i result1\<rparr>\<rparr>"

lemma BuilderServer_recorded [simp]:
  "the_list (BuilderServer_Invocations (BuilderServer_recordInvocation key args fake) key) = the_list (BuilderServer_Invocations fake key) @ [args]"
  by (simp add: BuilderServer_recordInvocation_def BuilderServer_Invocations_def the_list_def Let_def split: option.split)

lemma BuilderServer_recorded_frame [simp]:
  "bdBuild (BuilderServer_recordInvocation key args fake) = bdBuild fake"
  by (simp_all add: BuilderServer_recordInvocation_def Let_def)

lemma BuilderServer_seen_frame [simp]:
  "BuilderServer_Invocations (fake\<lparr>bdBuild := x\<rparr>) = BuilderServer_Invocations fake"
  by (simp_all add: BuilderServer_Invocations_def)

lemmas bddefs = BuilderServer_Build_def BuilderServer_BuildCallCount_def BuilderServer_BuildCalls_def
  BuilderServer_BuildArgsForCall_def BuilderServer_BuildReturns_def BuilderServer_BuildReturnsOnCall_def

interpretation bdbuild: double "\<lambda>(a, b). BuilderServer_Build a b" BuilderServer_BuildCallCount BuilderServer_BuildCalls bdBuild
    "\<lambda>fake. the_list (BuilderServer_Invocations fake ''Build'')" "\<lambda>(a, b). [VBuildRequest a, Opaque b]" BuilderServer_BuildArgsForCall BuilderServer_BuildReturns BuilderServer_BuildReturnsOnCall
  by unfold_locales
    (auto simp: bddefs Let_def answer_call_def called_def split: prod.splits option.splits)

section \<open>\<^verbatim>\<open>RunnerServer\<close>\<close>

record ('x, 'w) RunnerServer =
  rnRun :: "(RunRequest \<times> 'x, nilerr, 'w) fake_method"
  rninvocations :: "'x recorded"

definition RunnerServer_zero :: "('x, 'w) RunnerServer" where
  "RunnerServer_zero = \<lparr>rnRun = no_calls None, rninvocations = None\<rparr>"

definition RunnerServer_recordInvocation :: "string \<Rightarrow> 'x go_value list \<Rightarrow> ('x, 'w) RunnerServer \<Rightarrow> ('x, 'w) RunnerServer" where
  "RunnerServer_recordInvocation key args fake =
     (let m = made (rninvocations fake);
          m = (case map_get m key of None \<Rightarrow> map_put m key [] | Some _ \<Rightarrow> m)
      in fake\<lparr>rninvocations := map_put m key (the (map_get m key) @ [args])\<rparr>)"

definition RunnerServer_Invocations :: "('x, 'w) RunnerServer \<Rightarrow> string \<rightharpoonup> 'x go_value list list" where
  "RunnerServer_Invocations fake = map_get (rninvocations fake)"

definition RunnerServer_Run :: "RunRequest \<Rightarrow> 'x \<Rightarrow> 'w \<Rightarrow> ('x, 'w) RunnerServer \<Rightarrow> nilerr \<times> 'w \<times> ('x, 'w) RunnerServer" where
  "RunnerServer_Run arg1 arg2 w fake =
     (let ret = map_get (mReturnsOnCall (rnRun fake)) (int (length (mArgsForCall (rnRun fake))));
          fake' = fake\<lparr>rnRun := (rnRun fake)\<lparr>mArgsForCall := mArgsForCall (rnRun fake) @ [(arg1, arg2)]\<rparr>\<rparr>;
          fakeReturns = mReturns (rnRun fake');
          fake'' = RunnerServer_recordInvocation ''Run'' [VRunRequest arg1, Opaque arg2] fake'
      in case mStub (rnRun fake') of
           Some stub \<Rightarrow> (case stub (arg1, arg2) w of (result1, w') \<Rightarrow> (result1, w', fake''))
         | None \<Rightarrow> (case ret of Some result1 \<Rightarrow> (result1, w, fake'') | None \<Rightarrow> (fakeReturns, w, fake'')))"

definition RunnerServer_RunCallCount :: "('x, 'w) RunnerServer \<Rightarrow> nat" where
  "RunnerServer_RunCallCount fake = length (mArgsForCall (rnRun fake))"

definition RunnerServer_RunCalls :: "(RunRequest \<times> 'x, nilerr, 'w) stub option \<Rightarrow> ('x, 'w) RunnerServer \<Rightarrow> ('x, 'w) RunnerServer" where
  "RunnerServer_RunCalls stub fake = fake\<lparr>rnRun := (rnRun fake)\<lparr>mStub := stub\<rparr>\<rparr>"

definition RunnerServer_RunArgsForCall :: "int \<Rightarrow> ('x, 'w) RunnerServer \<Rightarrow> (RunRequest \<times> 'x) outcome" where
  "RunnerServer_RunArgsForCall i fake = slice_index (mArgsForCall (rnRun fake)) i"

definition RunnerServer_RunReturns :: "nilerr \<Rightarrow> ('x, 'w) RunnerServer \<Rightarrow> ('x, 'w) RunnerServer" where
  "RunnerServer_RunReturns result1 fake =
     fake\<lparr>rnRun := (rnRun fake)\<lparr>mStub := None, mReturns := result1\<rparr>\<rparr>"

definition RunnerServer_RunReturnsOnCall :: "int \<Rightarrow> nilerr \<Rightarrow> ('x, 'w) RunnerServer \<Rightarrow> ('x, 'w) RunnerServer" where
  "RunnerServer_RunReturnsOnCall i result1 fake =
     fake\<lparr>rnRun := (rnRun fake)\<lparr>mStub := None,
       mReturnsOnCall := map_put (made (mReturnsOnCall (rnRun fake))) i result1\<rparr>\<rparr>"

lemma RunnerServer_recorded [simp]:
  "the_list (RunnerServer_Invocations (RunnerServer_recordInvocation key args fake) key) = the_list (RunnerServer_Invocations fake key) @ [args]"
  by (simp add: RunnerServer_recordInvocation_def RunnerServer_Invocations_def the_list_def Let_def split: option.split)

lemma RunnerServer_recorded_frame [simp]:
  "rnRun (RunnerServer_recordInvocation key args fake) = rnRun fake"
  by (simp_all add: RunnerServer_recordInvocation_def Let_def)

lemma RunnerServer_seen_frame [simp]:
  "RunnerServer_Invocations (fake\<lparr>rnRun := x\<rparr>) = RunnerServer_Invocations fake"
  by (simp_all add: RunnerServer_Invocations_def)

lemmas rndefs = RunnerServer_Run_def RunnerServer_RunCallCount_def RunnerServer_RunCalls_def RunnerServer_RunArgsForCall_def
  RunnerServer_RunReturns_def RunnerServer_RunReturnsOnCall_def

interpretation rnrun: double "\<lambda>(a, b). RunnerServer_Run a b" RunnerServer_RunCallCount RunnerServer_RunCalls rnRun
    "\<lambda>fake. the_list (RunnerServer_Invocations fake ''Run'')" "\<lambda>(a, b). [VRunRequest a, Opaque b]" RunnerServer_RunArgsForCall RunnerServer_RunReturns RunnerServer_RunReturnsOnCall
  by unfold_locales
    (auto simp: rndefs Let_def answer_call_def called_def split: prod.splits option.splits)

section \<open>\<^verbatim>\<open>ChaincodeSupportServer\<close>\<close>

record ('x, 'w) ChaincodeSupportServer =
  csRegister :: "('x, nilerr, 'w) fake_method"
  csinvocations :: "'x recorded"

definition ChaincodeSupportServer_zero :: "('x, 'w) ChaincodeSupportServer" where
  "ChaincodeSupportServer_zero = \<lparr>csRegister = no_calls None, csinvocations = None\<rparr>"

definition ChaincodeSupportServer_recordInvocation :: "string \<Rightarrow> 'x go_value list \<Rightarrow> ('x, 'w) ChaincodeSupportServer \<Rightarrow> ('x, 'w) ChaincodeSupportServer" where
  "ChaincodeSupportServer_recordInvocation key args fake =
     (let m = made (csinvocations fake);
          m = (case map_get m key of None \<Rightarrow> map_put m key [] | Some _ \<Rightarrow> m)
      in fake\<lparr>csinvocations := map_put m key (the (map_get m key) @ [args])\<rparr>)"

definition ChaincodeSupportServer_Invocations :: "('x, 'w) ChaincodeSupportServer \<Rightarrow> string \<rightharpoonup> 'x go_value list list" where
  "ChaincodeSupportServer_Invocations fake = map_get (csinvocations fake)"

definition ChaincodeSupportServer_Register :: "'x \<Rightarrow> 'w \<Rightarrow> ('x, 'w) ChaincodeSupportServer \<Rightarrow> nilerr \<times> 'w \<times> ('x, 'w) ChaincodeSupportServer" where
  "ChaincodeSupportServer_Register arg1 w fake =
     (let ret = map_get (mReturnsOnCall (csRegister fake)) (int (length (mArgsForCall (csRegister fake))));
          fake' = fake\<lparr>csRegister := (csRegister fake)\<lparr>mArgsForCall := mArgsForCall (csRegister fake) @ [arg1]\<rparr>\<rparr>;
          fakeReturns = mReturns (csRegister fake');
          fake'' = ChaincodeSupportServer_recordInvocation ''Register'' [Opaque arg1] fake'
      in case mStub (csRegister fake') of
           Some stub \<Rightarrow> (case stub arg1 w of (result1, w') \<Rightarrow> (result1, w', fake''))
         | None \<Rightarrow> (case ret of Some result1 \<Rightarrow> (result1, w, fake'') | None \<Rightarrow> (fakeReturns, w, fake'')))"

definition ChaincodeSupportServer_RegisterCallCount :: "('x, 'w) ChaincodeSupportServer \<Rightarrow> nat" where
  "ChaincodeSupportServer_RegisterCallCount fake = length (mArgsForCall (csRegister fake))"

definition ChaincodeSupportServer_RegisterCalls :: "('x, nilerr, 'w) stub option \<Rightarrow> ('x, 'w) ChaincodeSupportServer \<Rightarrow> ('x, 'w) ChaincodeSupportServer" where
  "ChaincodeSupportServer_RegisterCalls stub fake = fake\<lparr>csRegister := (csRegister fake)\<lparr>mStub := stub\<rparr>\<rparr>"

definition ChaincodeSupportServer_RegisterArgsForCall :: "int \<Rightarrow> ('x, 'w) ChaincodeSupportServer \<Rightarrow> ('x) outcome" where
  "ChaincodeSupportServer_RegisterArgsForCall i fake = slice_index (mArgsForCall (csRegister fake)) i"

definition ChaincodeSupportServer_RegisterReturns :: "nilerr \<Rightarrow> ('x, 'w) ChaincodeSupportServer \<Rightarrow> ('x, 'w) ChaincodeSupportServer" where
  "ChaincodeSupportServer_RegisterReturns result1 fake =
     fake\<lparr>csRegister := (csRegister fake)\<lparr>mStub := None, mReturns := result1\<rparr>\<rparr>"

definition ChaincodeSupportServer_RegisterReturnsOnCall :: "int \<Rightarrow> nilerr \<Rightarrow> ('x, 'w) ChaincodeSupportServer \<Rightarrow> ('x, 'w) ChaincodeSupportServer" where
  "ChaincodeSupportServer_RegisterReturnsOnCall i result1 fake =
     fake\<lparr>csRegister := (csRegister fake)\<lparr>mStub := None,
       mReturnsOnCall := map_put (made (mReturnsOnCall (csRegister fake))) i result1\<rparr>\<rparr>"

lemma ChaincodeSupportServer_recorded [simp]:
  "the_list (ChaincodeSupportServer_Invocations (ChaincodeSupportServer_recordInvocation key args fake) key) = the_list (ChaincodeSupportServer_Invocations fake key) @ [args]"
  by (simp add: ChaincodeSupportServer_recordInvocation_def ChaincodeSupportServer_Invocations_def the_list_def Let_def split: option.split)

lemma ChaincodeSupportServer_recorded_frame [simp]:
  "csRegister (ChaincodeSupportServer_recordInvocation key args fake) = csRegister fake"
  by (simp_all add: ChaincodeSupportServer_recordInvocation_def Let_def)

lemma ChaincodeSupportServer_seen_frame [simp]:
  "ChaincodeSupportServer_Invocations (fake\<lparr>csRegister := x\<rparr>) = ChaincodeSupportServer_Invocations fake"
  by (simp_all add: ChaincodeSupportServer_Invocations_def)

lemmas csdefs = ChaincodeSupportServer_Register_def ChaincodeSupportServer_RegisterCallCount_def
  ChaincodeSupportServer_RegisterCalls_def ChaincodeSupportServer_RegisterArgsForCall_def
  ChaincodeSupportServer_RegisterReturns_def ChaincodeSupportServer_RegisterReturnsOnCall_def

interpretation csregister: double "ChaincodeSupportServer_Register" ChaincodeSupportServer_RegisterCallCount ChaincodeSupportServer_RegisterCalls csRegister
    "\<lambda>fake. the_list (ChaincodeSupportServer_Invocations fake ''Register'')" "\<lambda>a. [Opaque a]" ChaincodeSupportServer_RegisterArgsForCall ChaincodeSupportServer_RegisterReturns ChaincodeSupportServer_RegisterReturnsOnCall
  by unfold_locales
    (auto simp: csdefs Let_def answer_call_def called_def split: prod.splits option.splits)

end
