(* ===== verification/DoubleProps.thy ===== *)
theory DoubleProps
  imports FakeStreams FakeServers LogStreams
begin

text \<open>
  What a test may conclude from a double: the recorded calls and the answers are those of the history
  of operations, and a stream double behind the serialized stream of \<^verbatim>\<open>server.go\<close> sees what the
  goroutines logged.
\<close>

section \<open>A double as the embedded stream\<close>

definition fake_build_stream :: "BuildResponse \<Rightarrow> 'w \<times> ('x, 'w) BuildStream \<Rightarrow> nilerr \<times> 'w \<times> ('x, 'w) BuildStream" where
  "fake_build_stream m s = BuildStream_Send m (fst s) (snd s)"

definition fake_run_stream :: "RunResponse \<Rightarrow> 'w \<times> ('x, 'w) RunStream \<Rightarrow> nilerr \<times> 'w \<times> ('x, 'w) RunStream" where
  "fake_run_stream m s = RunStream_Send m (fst s) (snd s)"

text \<open>The calls that the double of the embedded stream recorded are the calls made to it.\<close>

lemma fold_map: "fold (\<lambda>c. f (g c)) xs s = fold f (map g xs) s"
  by (induction xs arbitrary: s) simp_all

lemma build_stream_records:
  "mArgsForCall (bsSend (snd (fold (\<lambda>c. snd \<circ> fake_build_stream (snd c)) cs (w, BuildStream_zero)))) = map snd cs"
  using bssend.fold_calls [of "map snd cs" "(w, BuildStream_zero)"]
  by (simp add: fake_build_stream_def comp_def fold_map BuildStream_zero_def no_calls_def flip: fold_map [of _ snd])

lemma run_stream_records:
  "mArgsForCall (rsSend (snd (fold (\<lambda>c. snd \<circ> fake_run_stream (snd c)) cs (w, RunStream_zero)))) = map snd cs"
  using rssend.fold_calls [of "map snd cs" "(w, RunStream_zero)"]
  by (simp add: fake_run_stream_def comp_def RunStream_zero_def no_calls_def flip: fold_map [of _ snd])

text \<open>
  \<^verbatim>\<open>SetTrailer\<close> tests the stub it read under the mutex, but calls the one the field holds afterwards: if
  another goroutine removes the stub in between, the call goes through a nil function.
\<close>

lemma SetTrailer_race:
  assumes "mStub (bsSetTrailer fake) = Some stub"
  shows "BuildStream_SetTrailer_unlocked (mStub (bsSetTrailer fake)) md w
      (BuildStream_SetTrailerCalls None (BuildStream_SetTrailer_locked md fake)) = Panic ''nil pointer dereference''"
  using assms by (simp add: bsdefs)

section \<open>Properties\<close>

text \<open>Property C40: the stream double implements its history. After any sequence of calls of \<^verbatim>\<open>Send\<close>,
  settings of a stub and settings of results, the call count, the arguments of every call (a panic for
  an index without a call) and the invocations are those of the calls in the sequence; and the next call
  answers with the stub that was set last if no result was set since, else with the result set for its
  number, else with the default set last, else nil.\<close>

theorem Send_double_history:
  assumes "double_run BuildStream_Send BuildStream_SendCalls BuildStream_SendReturns BuildStream_SendReturnsOnCall
      h w BuildStream_zero = (w', fake)"
  shows "BuildStream_SendCallCount fake = length (history_calls h) \<and>
    (\<forall>i. BuildStream_SendArgsForCall i fake = slice_index (history_calls h) i) \<and>
    the_list (BuildStream_Invocations fake ''Send'') = map (\<lambda>m. [VBuildResponse m]) (history_calls h) \<and>
    (\<forall>m v. \<exists>fake'. BuildStream_Send m v fake =
       (fst (answer_after None h m v), snd (answer_after None h m v), fake'))"
proof -
  have z: "bsSend BuildStream_zero = no_calls None" "the_list (BuildStream_Invocations BuildStream_zero ''Send'') = []"
    by (simp_all add: BuildStream_zero_def BuildStream_Invocations_def map_get_def the_list_def)
  have "\<exists>fake'. BuildStream_Send m v fake = (fst (answer_after None h m v), snd (answer_after None h m v), fake')" for m v
  proof -
    obtain r v' fake' where c: "BuildStream_Send m v fake = (r, v', fake')" by (metis prod_cases3)
    from bssend.answer_history [OF z(1) assms c] show ?thesis using c by (metis fst_conv snd_conv)
  qed
  then show ?thesis using bssend.count_history [OF z assms] bssend.args_history [OF z assms] by blast
qed

definition demo_history :: "(BuildResponse, nilerr, nat) fake_op list" where
  "demo_history = [OpCalls (Some (\<lambda>m n. (Some EOFError, Suc n))), OpCall (build_Log ''a''),
     OpReturnsOnCall 1 (Some EOFError), OpCall (build_Log ''b'')]"

theorem Send_double_history_witness:
  "\<exists>w (fake :: (unit, nat) BuildStream). double_run BuildStream_Send BuildStream_SendCalls BuildStream_SendReturns
      BuildStream_SendReturnsOnCall demo_history 0 BuildStream_zero = (w, fake) \<and>
    BuildStream_SendCallCount fake = 2 \<and> BuildStream_SendArgsForCall 1 fake = Ok (build_Log ''b'') \<and>
    fst (BuildStream_Send (build_Log ''c'') 7 fake) = None"
proof -
  obtain w and fake :: "(unit, nat) BuildStream" where run: "double_run BuildStream_Send BuildStream_SendCalls
      BuildStream_SendReturns BuildStream_SendReturnsOnCall demo_history 0 BuildStream_zero = (w, fake)" by fastforce
  have h: "history_calls demo_history = [build_Log ''a'', build_Log ''b'']"
    "answer_after None demo_history (build_Log ''c'') 7 = (None, 7)"
    by (simp_all add: demo_history_def answer_after_def)
  note p = Send_double_history [OF run]
  have "\<exists>fake'. BuildStream_Send (build_Log ''c'') 7 fake = (None, 7, fake')"
    using p h(2) by (metis fst_conv snd_conv)
  moreover have "BuildStream_SendArgsForCall 1 fake = Ok (build_Log ''b'')" "BuildStream_SendCallCount fake = 2"
    using p h(1) by (simp_all add: slice_index_def)
  ultimately show ?thesis using run by fastforce
qed

text \<open>The double of the build service implements its history in the same way, with both
  arguments of every call and a \<^verbatim>\<open>nil\<close> error by default.\<close>

lemma Build_double_history:
  assumes "double_run (\<lambda>(a, b). BuilderServer_Build a b) BuilderServer_BuildCalls BuilderServer_BuildReturns
      BuilderServer_BuildReturnsOnCall h w BuilderServer_zero = (w', fake)"
  shows "BuilderServer_BuildCallCount fake = length (history_calls h) \<and>
    (\<forall>i. BuilderServer_BuildArgsForCall i fake = slice_index (history_calls h) i) \<and>
    the_list (BuilderServer_Invocations fake ''Build'') = map (\<lambda>(req, srv). [VBuildRequest req, Opaque srv]) (history_calls h) \<and>
    (\<forall>req srv v. \<exists>fake'. BuilderServer_Build req srv v fake =
       (fst (answer_after None h (req, srv) v), snd (answer_after None h (req, srv) v), fake'))"
proof -
  have z: "bdBuild BuilderServer_zero = no_calls None" "the_list (BuilderServer_Invocations BuilderServer_zero ''Build'') = []"
    by (simp_all add: BuilderServer_zero_def BuilderServer_Invocations_def map_get_def the_list_def)
  have "\<exists>fake'. BuilderServer_Build req srv v fake =
      (fst (answer_after None h (req, srv) v), snd (answer_after None h (req, srv) v), fake')" for req srv v
  proof -
    obtain r v' fake' where c: "(case (req, srv) of (a, b) \<Rightarrow> BuilderServer_Build a b) v fake = (r, v', fake')"
      by (metis prod_cases3)
    from bdbuild.answer_history [OF z(1) assms c] show ?thesis using c by (metis (no_types) fst_conv old.prod.case snd_conv)
  qed
  then show ?thesis using bdbuild.count_history [OF z assms] bdbuild.args_history [OF z assms] by blast
qed

text \<open>The order in which the messages of the goroutines were sent.\<close>

definition interleaved :: "string list list \<Rightarrow> (nat \<times> string) list \<Rightarrow> bool" where
  "interleaved msgs ord \<longleftrightarrow> (\<forall>t < length msgs. calls_of t ord = msgs ! t) \<and> (\<forall>c \<in> set ord. fst c < length msgs)"

lemma send_interleaved:
  assumes "logger mk message" and "send_run mk inner ts (send_start i msgs) = Some st" and "all_left st = 0"
  obtains ord where "ssCalls st = map (apsnd mk) ord" "interleaved msgs ord"
    "ssInner st = fold (\<lambda>c. snd \<circ> inner (snd c)) (ssCalls st) i"
proof -
  obtain ord where ord: "ssCalls st = map (apsnd mk) ord" "\<And>t. t < length msgs \<Longrightarrow> calls_of t ord = msgs ! t"
    by (rule logger.send_order [OF assms]) blast
  have inv: "ssInner st = fold (\<lambda>c. snd \<circ> inner (snd c)) (ssCalls st) i" "\<forall>c \<in> set (ssCalls st). fst c < length msgs"
    using send_run_inv [OF assms(2)] by (auto simp: send_inv_def)
  show thesis by (rule that [OF ord(1) _ inv(1)]) (use ord inv(2) in \<open>auto simp: interleaved_def\<close>)
qed

text \<open>A stream double behind the serialized stream sees all that was logged. When the
  goroutines of a build have sent their messages, in whatever interleaving, the double of the stream has
  recorded, in the order of the calls, the responses for the messages, those of each goroutine in its
  own order; likewise for runs.\<close>

lemma doubles_see_the_logs:
  assumes "send_run build_Log fake_build_stream ts (send_start (w, BuildStream_zero) msgs) = Some b" and "all_left b = 0"
    and "send_run run_Log fake_run_stream us (send_start (v, RunStream_zero) msgs) = Some r" and "all_left r = 0"
  shows "(\<exists>ord. interleaved msgs ord \<and> map (\<lambda>j. BuildStream_SendArgsForCall (int j) (snd (ssInner b)))
        [0..<BuildStream_SendCallCount (snd (ssInner b))] = map (\<lambda>c. Ok (build_Log (snd c))) ord) \<and>
    (\<exists>ord. interleaved msgs ord \<and> map (\<lambda>j. RunStream_SendArgsForCall (int j) (snd (ssInner r)))
        [0..<RunStream_SendCallCount (snd (ssInner r))] = map (\<lambda>c. Ok (run_Log (snd c))) ord)"
proof (intro conjI)
  obtain ord where ord: "ssCalls b = map (apsnd build_Log) ord" "interleaved msgs ord"
    "ssInner b = fold (\<lambda>c. snd \<circ> fake_build_stream (snd c)) (ssCalls b) (w, BuildStream_zero)"
    by (rule send_interleaved [OF build_stream.logger_axioms assms(1,2)])
  from this have "mArgsForCall (bsSend (snd (ssInner b))) = map build_Log (map snd ord)"
    unfolding ord(3) build_stream_records ord(1) by (simp add: comp_def)
  then show "\<exists>ord. interleaved msgs ord \<and> map (\<lambda>j. BuildStream_SendArgsForCall (int j) (snd (ssInner b)))
      [0..<BuildStream_SendCallCount (snd (ssInner b))] = map (\<lambda>c. Ok (build_Log (snd c))) ord"
    using bssend.all_args [of "snd (ssInner b)"] ord(2) by (intro exI [of _ ord]) (simp add: comp_def)
  obtain ord' where ord': "ssCalls r = map (apsnd run_Log) ord'" "interleaved msgs ord'"
    "ssInner r = fold (\<lambda>c. snd \<circ> fake_run_stream (snd c)) (ssCalls r) (v, RunStream_zero)"
    by (rule send_interleaved [OF run_stream.logger_axioms assms(3,4)])
  from this have "mArgsForCall (rsSend (snd (ssInner r))) = map run_Log (map snd ord')"
    unfolding ord'(3) run_stream_records ord'(1) by (simp add: comp_def)
  then show "\<exists>ord. interleaved msgs ord \<and> map (\<lambda>j. RunStream_SendArgsForCall (int j) (snd (ssInner r)))
      [0..<RunStream_SendCallCount (snd (ssInner r))] = map (\<lambda>c. Ok (run_Log (snd c))) ord"
    using rssend.all_args [of "snd (ssInner r)"] ord'(2) by (intro exI [of _ ord']) (simp add: comp_def)
qed

end
