(* ===== verification/Gzip.thy ===== *)
theory Gzip
  imports Prelude
begin

text \<open>
  The part of \<^verbatim>\<open>compress/gzip\<close> and \<^verbatim>\<open>compress/flate\<close> of the standard library that reads the embedded
  descriptors of \<^verbatim>\<open>pkg/sidecar\<close>: a gzip member without optional header fields, whose data are stored,
  fixed and dynamic blocks, with the check of length and CRC-32 at its end. Bytes are numbers below
  256; the bits of a stream are a list, the lowest bit of a byte first; output is kept in reverse.
\<close>

section \<open>Bits\<close>

type_synonym bits = "bool list"

definition byte_bits :: "nat \<Rightarrow> bits" where
  "byte_bits b = [odd b, odd (b div 2), odd (b div 4), odd (b div 8), odd (b div 16), odd (b div 32), odd (b div 64),
     odd (b div 128)]"

text \<open>The bits of the \<open>n\<close> bytes from position \<open>k\<close> on.\<close>

definition bits_of :: "nat list \<Rightarrow> nat \<Rightarrow> nat \<Rightarrow> bits" where
  "bits_of bs k n = concat (map byte_bits (take n (drop k bs)))"

lemma bits_of_append: "k' = k + n \<Longrightarrow> bits_of bs k n @ bits_of bs k' m = bits_of bs k (n + m)"
proof -
  have "take n (drop k bs) @ take m (drop (k + n) bs) = take (n + m) (drop k bs)" by (simp add: take_add [of n m] add.commute [of n k])
  then show "k' = k + n \<Longrightarrow> bits_of bs k n @ bits_of bs k' m = bits_of bs k (n + m)"
    unfolding bits_of_def by (metis concat_append map_append)
qed

lemma bits_of_all: "length bs = n \<Longrightarrow> concat (map byte_bits bs) = bits_of bs 0 n"
  by (simp add: bits_of_def)

text \<open>Reading \<open>n\<close> bits as a number.\<close>

fun take_bits :: "nat \<Rightarrow> bits \<Rightarrow> (nat \<times> bits) option" where
  "take_bits 0 bs = Some (0, bs)"
| "take_bits (Suc n) [] = None"
| "take_bits (Suc n) (b # bs) = (case take_bits n bs of
      None \<Rightarrow> None | Some (v, r) \<Rightarrow> Some ((if b then 1 else 0) + 2 * v, r))"

lemma take_bits_numeral [simp]:
  "take_bits (numeral k) (b # bs) = (case take_bits (pred_numeral k) bs of
     None \<Rightarrow> None | Some (v, r) \<Rightarrow> Some ((if b then 1 else 0) + 2 * v, r))"
  by (simp add: numeral_eq_Suc)

lemma take_bits_length: "take_bits n bs = Some (v, r) \<Longrightarrow> length bs = length r + n"
  by (induction n bs arbitrary: v r rule: take_bits.induct) (auto split: option.splits)

text \<open>The rest of the byte is skipped; a stream of bytes has a multiple of eight bits.\<close>

definition align_bits :: "bits \<Rightarrow> bits" where
  "align_bits bs = drop (length bs mod 8) bs"

lemma align_bits_length: "length (align_bits bs) \<le> length bs"
  by (simp add: align_bits_def)

fun take_bytes :: "nat \<Rightarrow> bits \<Rightarrow> nat list \<Rightarrow> (nat list \<times> bits) option" where
  "take_bytes 0 bs out = Some (out, bs)"
| "take_bytes (Suc n) bs out = (case take_bits 8 bs of None \<Rightarrow> None | Some (b, r) \<Rightarrow> take_bytes n r (b # out))"

lemma take_bytes_length: "take_bytes n bs out = Some (out', r) \<Longrightarrow> length r \<le> length bs"
  by (induction n bs out rule: take_bytes.induct) (fastforce split: option.splits dest: take_bits_length)+

section \<open>Codes\<close>

text \<open>
  The canonical code of a list of code lengths: symbols with shorter codes, and lower symbols among
  those of the same length, lie further left in the tree. No code is longer than 15 bits.
\<close>

datatype code_tree = NoCode | Leaf nat | Node code_tree code_tree

fun fill_tree :: "nat \<Rightarrow> nat \<Rightarrow> (nat \<times> nat) list \<Rightarrow> code_tree \<times> (nat \<times> nat) list" where
  "fill_tree k d [] = (NoCode, [])"
| "fill_tree k d ((l, s) # items) =
     (if l = d then (Leaf s, items)
      else (case k of
          0 \<Rightarrow> (NoCode, (l, s) # items)
        | Suc k' \<Rightarrow> (case fill_tree k' (d + 1) ((l, s) # items) of (t0, r0) \<Rightarrow>
            (case fill_tree k' (d + 1) r0 of (t1, r1) \<Rightarrow> (Node t0 t1, r1)))))"

fun used_symbols :: "nat \<Rightarrow> nat list \<Rightarrow> (nat \<times> nat) list" where
  "used_symbols s [] = []"
| "used_symbols s (l # ls) = (if l = 0 then used_symbols (s + 1) ls else (l, s) # used_symbols (s + 1) ls)"

definition by_length :: "(nat \<times> nat) list \<Rightarrow> (nat \<times> nat) list" where
  "by_length us = concat (map (\<lambda>l. filter (\<lambda>(l', _). l' = l) us) [1, 2, 3, 4, 5, 6, 7, 8, 9, 10, 11, 12, 13, 14, 15])"

definition code_of :: "nat list \<Rightarrow> code_tree" where
  "code_of ls = fst (fill_tree 15 0 (by_length (used_symbols 0 ls)))"

fun decode_symbol :: "code_tree \<Rightarrow> bits \<Rightarrow> (nat \<times> bits) option" where
  "decode_symbol (Leaf s) bs = Some (s, bs)"
| "decode_symbol (Node t0 t1) (b # bs) = (if b then decode_symbol t1 bs else decode_symbol t0 bs)"
| "decode_symbol _ _ = None"

text \<open>The next symbol of a stream; a code of a single empty word is refused.\<close>

fun next_symbol :: "code_tree \<Rightarrow> bits \<Rightarrow> (nat \<times> bits) option" where
  "next_symbol (Node t0 t1) bs = decode_symbol (Node t0 t1) bs"
| "next_symbol _ _ = None"

lemma decode_symbol_length: "decode_symbol t bs = Some (s, r) \<Longrightarrow> length r \<le> length bs"
  by (induction t bs rule: decode_symbol.induct) (fastforce split: if_splits)+

lemma next_symbol_length: "next_symbol t bs = Some (s, r) \<Longrightarrow> length r < length bs"
  by (cases t; cases bs) (auto split: if_splits dest!: decode_symbol_length)

section \<open>Compressed data\<close>

definition length_base :: "nat list" where
  "length_base = [3, 4, 5, 6, 7, 8, 9, 10, 11, 13, 15, 17, 19, 23, 27, 31, 35, 43, 51, 59, 67, 83, 99, 115, 131, 163, 195, 227, 258]"

definition length_extra :: "nat list" where
  "length_extra = [0, 0, 0, 0, 0, 0, 0, 0, 1, 1, 1, 1, 2, 2, 2, 2, 3, 3, 3, 3, 4, 4, 4, 4, 5, 5, 5, 5, 0]"

definition distance_base :: "nat list" where
  "distance_base = [1, 2, 3, 4, 5, 7, 9, 13, 17, 25, 33, 49, 65, 97, 129, 193, 257, 385, 513, 769, 1025, 1537, 2049, 3073, 4097, 6145,
     8193, 12289, 16385, 24577]"

definition distance_extra :: "nat list" where
  "distance_extra = [0, 0, 0, 0, 1, 1, 2, 2, 3, 3, 4, 4, 5, 5, 6, 6, 7, 7, 8, 8, 9, 9, 10, 10, 11, 11, 12, 12, 13, 13]"

text \<open>The length and distance of a repetition whose symbol was \<open>s\<close>.\<close>

definition read_match :: "code_tree \<Rightarrow> nat \<Rightarrow> bits \<Rightarrow> (nat \<times> nat \<times> bits) option" where
  "read_match dt s bs =
     (if 286 \<le> s then None
      else (case take_bits (length_extra ! (s - 257)) bs of
        None \<Rightarrow> None
      | Some (e, r1) \<Rightarrow> (case next_symbol dt r1 of
          None \<Rightarrow> None
        | Some (d, r2) \<Rightarrow>
            (if 30 \<le> d then None
             else (case take_bits (distance_extra ! d) r2 of
               None \<Rightarrow> None
             | Some (f, r3) \<Rightarrow> Some (length_base ! (s - 257) + e, distance_base ! d + f, r3))))))"

lemma read_match_length: "read_match dt s bs = Some (l, d, r) \<Longrightarrow> length r < length bs"
  by (auto simp: read_match_def split: if_splits option.splits dest!: take_bits_length next_symbol_length)

text \<open>Repeating \<open>n\<close> bytes, each \<open>d + 1\<close> bytes back, which may be bytes just repeated.\<close>

fun copy_back :: "nat \<Rightarrow> nat \<Rightarrow> nat list \<Rightarrow> nat list option" where
  "copy_back 0 d out = Some out"
| "copy_back (Suc n) d out = (case drop d out of [] \<Rightarrow> None | v # _ \<Rightarrow> copy_back n d (v # out))"

lemma copy_back_numeral [simp]:
  "copy_back (numeral k) d out = (case drop d out of [] \<Rightarrow> None | v # _ \<Rightarrow> copy_back (pred_numeral k) d (v # out))"
  by (simp add: numeral_eq_Suc)

function inflate_codes :: "code_tree \<Rightarrow> code_tree \<Rightarrow> bits \<Rightarrow> nat list \<Rightarrow> (nat list \<times> bits) option" where
  "inflate_codes lt dt bs out =
     (case next_symbol lt bs of
        None \<Rightarrow> None
      | Some (s, r) \<Rightarrow>
          (if s < 256 then inflate_codes lt dt r (s # out)
           else if s = 256 then Some (out, r)
           else (case read_match dt s r of
               None \<Rightarrow> None
             | Some (l, d, r') \<Rightarrow> (case copy_back l (d - 1) out of
                 None \<Rightarrow> None
               | Some out' \<Rightarrow> inflate_codes lt dt r' out'))))"
  by pat_completeness auto
termination
  by (relation "measure (\<lambda>(_, _, bs, _). length bs)") (fastforce dest!: next_symbol_length read_match_length)+

declare inflate_codes.simps [simp del]

lemma inflate_codes_length: "inflate_codes lt dt bs out = Some (out', r) \<Longrightarrow> length r \<le> length bs"
proof (induction lt dt bs out rule: inflate_codes.induct)
  case (1 lt dt bs out)
  show ?case
    using 1 by (subst (asm) (3) inflate_codes.simps)
      (fastforce split: option.splits if_splits prod.splits dest: next_symbol_length read_match_length)
qed

section \<open>Blocks\<close>

definition fixed_lengths :: "nat list" where
  "fixed_lengths = replicate 144 8 @ replicate 112 9 @ replicate 24 7 @ replicate 8 8"

text \<open>The code lengths of a dynamic block, themselves coded: symbols above 15 are repetitions.\<close>

definition read_repeat :: "nat \<Rightarrow> nat list \<Rightarrow> bits \<Rightarrow> (nat \<times> nat \<times> bits) option" where
  "read_repeat s acc bs =
     (if s = 16 then (case acc of [] \<Rightarrow> None | v # _ \<Rightarrow> map_option (\<lambda>(k, r). (v, k + 3, r)) (take_bits 2 bs))
      else if s = 17 then map_option (\<lambda>(k, r). (0, k + 3, r)) (take_bits 3 bs)
      else map_option (\<lambda>(k, r). (0, k + 11, r)) (take_bits 7 bs))"

lemma read_repeat_length: "read_repeat s acc bs = Some (v, k, r) \<Longrightarrow> length r \<le> length bs"
  by (auto simp: read_repeat_def split: if_splits list.splits dest!: take_bits_length)

function read_lengths :: "code_tree \<Rightarrow> nat \<Rightarrow> nat list \<Rightarrow> bits \<Rightarrow> (nat list \<times> bits) option" where
  "read_lengths t n acc bs =
     (if n = 0 then Some (rev acc, bs)
      else (case next_symbol t bs of
        None \<Rightarrow> None
      | Some (s, r) \<Rightarrow>
          (if s < 16 then read_lengths t (n - 1) (s # acc) r
           else (case read_repeat s acc r of
               None \<Rightarrow> None
             | Some (v, k, r') \<Rightarrow> (if k \<le> n then read_lengths t (n - k) (replicate k v @ acc) r' else None)))))"
  by pat_completeness auto
termination
  by (relation "measure (\<lambda>(_, _, _, bs). length bs)") (fastforce dest!: next_symbol_length read_repeat_length)+

declare read_lengths.simps [simp del]

lemma read_lengths_length: "read_lengths t n acc bs = Some (ls, r) \<Longrightarrow> length r \<le> length bs"
proof (induction t n acc bs rule: read_lengths.induct)
  case (1 t n acc bs)
  show ?case
    using 1 by (subst (asm) (3) read_lengths.simps)
      (fastforce split: option.splits if_splits prod.splits dest: next_symbol_length read_repeat_length)
qed

fun read_triples :: "nat \<Rightarrow> bits \<Rightarrow> (nat list \<times> bits) option" where
  "read_triples 0 bs = Some ([], bs)"
| "read_triples (Suc n) bs = (case take_bits 3 bs of
      None \<Rightarrow> None
    | Some (v, r) \<Rightarrow> map_option (\<lambda>(vs, r'). (v # vs, r')) (read_triples n r))"

lemma read_triples_numeral [simp]:
  "read_triples (numeral k) bs = (case take_bits 3 bs of
      None \<Rightarrow> None
    | Some (v, r) \<Rightarrow> map_option (\<lambda>(vs, r'). (v # vs, r')) (read_triples (pred_numeral k) r))"
  by (simp add: numeral_eq_Suc)

lemma read_triples_length: "read_triples n bs = Some (vs, r) \<Longrightarrow> length r \<le> length bs"
  by (induction n bs arbitrary: vs r rule: read_triples.induct) (fastforce split: option.splits dest!: take_bits_length)+

definition triple_order :: "nat list" where
  "triple_order = [16, 17, 18, 0, 8, 7, 9, 6, 10, 5, 11, 4, 12, 3, 13, 2, 14, 1, 15]"

definition length_code :: "nat list \<Rightarrow> code_tree" where
  "length_code vs = code_of (map (\<lambda>i. case map_of (zip triple_order vs) i of Some v \<Rightarrow> v | None \<Rightarrow> 0)
     [0, 1, 2, 3, 4, 5, 6, 7, 8, 9, 10, 11, 12, 13, 14, 15, 16, 17, 18])"

definition dynamic_block :: "bits \<Rightarrow> nat list \<Rightarrow> (nat list \<times> bits) option" where
  "dynamic_block bs out =
     (case take_bits 5 bs of None \<Rightarrow> None | Some (hlit, r1) \<Rightarrow>
     (case take_bits 5 r1 of None \<Rightarrow> None | Some (hdist, r2) \<Rightarrow>
     (case take_bits 4 r2 of None \<Rightarrow> None | Some (hclen, r3) \<Rightarrow>
     (case read_triples (hclen + 4) r3 of None \<Rightarrow> None | Some (vs, r4) \<Rightarrow>
     (case read_lengths (length_code vs) (hlit + 257 + (hdist + 1)) [] r4 of None \<Rightarrow> None | Some (ls, r5) \<Rightarrow>
        inflate_codes (code_of (take (hlit + 257) ls)) (code_of (drop (hlit + 257) ls)) r5 out)))))"

definition stored_block :: "bits \<Rightarrow> nat list \<Rightarrow> (nat list \<times> bits) option" where
  "stored_block bs out =
     (case take_bits 16 (align_bits bs) of None \<Rightarrow> None | Some (len, r1) \<Rightarrow>
     (case take_bits 16 r1 of None \<Rightarrow> None | Some (nlen, r2) \<Rightarrow>
        (if len + nlen = 65535 then take_bytes len r2 out else None)))"

definition inflate_block :: "nat \<Rightarrow> bits \<Rightarrow> nat list \<Rightarrow> (nat list \<times> bits) option" where
  "inflate_block kind bs out =
     (if kind = 0 then stored_block bs out
      else if kind = 1 then inflate_codes (code_of fixed_lengths) (code_of (replicate 30 5)) bs out
      else if kind = 2 then dynamic_block bs out else None)"

lemma inflate_block_length: "inflate_block kind bs out = Some (out', r) \<Longrightarrow> length r \<le> length bs"
  using align_bits_length [of bs]
  by (auto simp: inflate_block_def stored_block_def dynamic_block_def split: if_splits option.splits
      dest!: take_bits_length take_bytes_length inflate_codes_length read_triples_length read_lengths_length)

text \<open>The blocks of a stream, up to one marked as the last.\<close>

function inflate :: "bits \<Rightarrow> nat list \<Rightarrow> (nat list \<times> bits) option" where
  "inflate bs out =
     (case take_bits 3 bs of
        None \<Rightarrow> None
      | Some (hdr, r) \<Rightarrow> (case inflate_block (hdr div 2) r out of
          None \<Rightarrow> None
        | Some (out', r') \<Rightarrow> (if odd hdr then Some (out', r') else inflate r' out')))"
  by pat_completeness auto
termination
  by (relation "measure (\<lambda>(bs, _). length bs)") (fastforce dest!: take_bits_length inflate_block_length)+

declare inflate.simps [simp del]

section \<open>Members\<close>

fun crc_shift :: "nat \<Rightarrow> nat \<Rightarrow> nat" where
  "crc_shift 0 c = c"
| "crc_shift (Suc n) c = crc_shift n (if odd c then xor (c div 2) 0xEDB88320 else c div 2)"

lemma crc_shift_numeral [simp]:
  "crc_shift (numeral k) c = crc_shift (pred_numeral k) (if odd c then xor (c div 2) 0xEDB88320 else c div 2)"
  by (simp add: numeral_eq_Suc)

fun crc_update :: "nat \<Rightarrow> nat list \<Rightarrow> nat" where
  "crc_update c [] = c"
| "crc_update c (b # bs) = crc_update (crc_shift 8 (xor c b)) bs"

definition crc32 :: "nat list \<Rightarrow> nat" where
  "crc32 bs = xor (crc_update 0xFFFFFFFF bs) 0xFFFFFFFF"

definition gunzip :: "nat list \<Rightarrow> nat list option" where
  "gunzip bs = (case bs of
      id1 # id2 # cm # flg # _ # _ # _ # _ # _ # _ # body \<Rightarrow>
        (if id1 = 0x1F \<and> id2 = 0x8B \<and> cm = 8 \<and> flg = 0
         then (case inflate (concat (map byte_bits body)) [] of
             None \<Rightarrow> None
           | Some (out, r) \<Rightarrow> (case take_bits 32 (align_bits r) of
               None \<Rightarrow> None
             | Some (crc, r1) \<Rightarrow> (case take_bits 32 r1 of
                 None \<Rightarrow> None
               | Some (isize, r2) \<Rightarrow>
                   (if crc = crc32 (rev out) \<and> isize = length out mod 2 ^ 32 \<and> r2 = [] then Some (rev out) else None))))
         else None)
    | _ \<Rightarrow> None)"

lemma replicate_num: "replicate (numeral k) x = x # replicate (pred_numeral k) x"
  by (simp add: numeral_eq_Suc)

text \<open>
  What evaluates the functions on concrete bytes. The congruence rules keep the simplifier from going
  through the bits again and again, which are in normal form already.
\<close>

lemma gzip_cong:
  "decode_symbol t bs = decode_symbol t bs" "t = t' \<Longrightarrow> next_symbol t bs = next_symbol t' bs"
  "n = n' \<Longrightarrow> take_bits n bs = take_bits n' bs" "s = s' \<Longrightarrow> used_symbols s ls = used_symbols s' ls"
  "lt = lt' \<Longrightarrow> dt = dt' \<Longrightarrow> out = out' \<Longrightarrow> inflate_codes lt dt bs out = inflate_codes lt' dt' bs out'"
  by simp_all

lemmas gzip_eval = align_bits_def by_length_def code_of_def length_base_def length_extra_def distance_base_def distance_extra_def
  read_match_def inflate_codes.simps read_repeat_def read_lengths.simps triple_order_def length_code_def dynamic_block_def
  stored_block_def inflate_block_def inflate.simps crc32_def gunzip_def numeral_2_eq_2 [symmetric] replicate_num

end
