(* ===== verification/Descriptor.thy ===== *)
theory Descriptor
  imports Sidecar Gzip
begin

text \<open>
  The interface definitions \<^verbatim>\<open>protos/builder.proto\<close> and \<^verbatim>\<open>protos/runner.proto\<close>, what the code generated
  from them (\<^verbatim>\<open>pkg/sidecar\<close>) says about itself at run time (struct tags, registered names, embedded
  descriptors), and the methods through which the protobuf library works on the messages. The two must
  agree for the client and the server to understand each other.
\<close>

section \<open>Interface definitions\<close>

text \<open>The parts of the interface language the two files use: all fields are strings.\<close>

record field_proto =
  pfName :: string
  pfNumber :: nat
  pfOneof :: "nat option"

record message_proto =
  pmName :: string
  pmFields :: "field_proto list"
  pmOneofs :: "string list"

record method_proto =
  pcName :: string
  pcInput :: string
  pcOutput :: string
  pcServerStreaming :: bool

record file_proto =
  ptName :: string
  ptPackage :: string
  ptMessages :: "message_proto list"
  ptService :: string
  ptMethods :: "method_proto list"

definition string_field :: "string \<Rightarrow> nat \<Rightarrow> field_proto" where
  "string_field name number = \<lparr>pfName = name, pfNumber = number, pfOneof = None\<rparr>"

definition oneof_field :: "string \<Rightarrow> nat \<Rightarrow> field_proto" where
  "oneof_field name number = \<lparr>pfName = name, pfNumber = number, pfOneof = Some 0\<rparr>"

definition response_proto :: "string \<Rightarrow> message_proto" where
  "response_proto name = \<lparr>pmName = name,
     pmFields = [oneof_field ''standard_out'' 1, oneof_field ''standard_error'' 2], pmOneofs = [''message'']\<rparr>"

definition builder_proto :: file_proto where
  "builder_proto = \<lparr>ptName = ''builder.proto'', ptPackage = ''sidecar'',
     ptMessages = [
       \<lparr>pmName = ''BuildRequest'',
        pmFields = [string_field ''source_path'' 1, string_field ''metadata_path'' 2, string_field ''output_path'' 3], pmOneofs = []\<rparr>,
       response_proto ''BuildResponse''],
     ptService = ''Builder'',
     ptMethods = [\<lparr>pcName = ''Build'', pcInput = ''BuildRequest'', pcOutput = ''BuildResponse'', pcServerStreaming = True\<rparr>]\<rparr>"

definition runner_proto :: file_proto where
  "runner_proto = \<lparr>ptName = ''runner.proto'', ptPackage = ''sidecar'',
     ptMessages = [
       \<lparr>pmName = ''RunRequest'',
        pmFields = [string_field ''chaincode_path'' 1, string_field ''metadata_path'' 2, string_field ''artifacts_path'' 3], pmOneofs = []\<rparr>,
       response_proto ''RunResponse''],
     ptService = ''Runner'',
     ptMethods = [\<lparr>pcName = ''Run'', pcInput = ''RunRequest'', pcOutput = ''RunResponse'', pcServerStreaming = True\<rparr>]\<rparr>"

section \<open>Descriptors\<close>

text \<open>
  The serialized \<^verbatim>\<open>FileDescriptorProto\<close> of a definition: numbers in groups of seven bits, strings and
  nested messages with their length, fields in the order of their numbers.
\<close>

function varint :: "nat \<Rightarrow> nat list" where
  "varint n = (if n < 128 then [n] else (n mod 128 + 128) # varint (n div 128))"
  by pat_completeness auto
termination by (relation "measure id") auto

declare varint.simps [simp del]

definition number_at :: "nat \<Rightarrow> nat \<Rightarrow> nat list" where
  "number_at field n = varint (field * 8) @ varint n"

definition bytes_at :: "nat \<Rightarrow> nat list \<Rightarrow> nat list" where
  "bytes_at field bs = varint (field * 8 + 2) @ varint (length bs) @ bs"

definition text_at :: "nat \<Rightarrow> string \<Rightarrow> nat list" where
  "text_at field s = bytes_at field (map of_char s)"

text \<open>The name of a field in JSON, and the name of the struct field generated for it.\<close>

fun json_name :: "string \<Rightarrow> string" where
  "json_name [] = []"
| "json_name (c # cs) = (if c = CHR ''_'' then (case cs of [] \<Rightarrow> [] | c' # cs' \<Rightarrow> char_of (of_char c' - 32 :: nat) # json_name cs')
     else c # json_name cs)"

definition go_name :: "string \<Rightarrow> string" where
  "go_name name = json_name (CHR ''_'' # name)"

definition encode_field :: "field_proto \<Rightarrow> nat list" where
  "encode_field f = text_at 1 (pfName f) @ number_at 3 (pfNumber f) @ number_at 4 1 @ number_at 5 9 @
     (case pfOneof f of None \<Rightarrow> [] | Some i \<Rightarrow> number_at 9 i) @ text_at 10 (json_name (pfName f))"

definition encode_message :: "message_proto \<Rightarrow> nat list" where
  "encode_message m = text_at 1 (pmName m) @ concat (map (\<lambda>f. bytes_at 2 (encode_field f)) (pmFields m)) @
     concat (map (\<lambda>name. bytes_at 8 (text_at 1 name)) (pmOneofs m))"

definition full_name :: "file_proto \<Rightarrow> string \<Rightarrow> string" where
  "full_name p name = ptPackage p @ ''.'' @ name"

definition encode_method :: "file_proto \<Rightarrow> method_proto \<Rightarrow> nat list" where
  "encode_method p c = text_at 1 (pcName c) @ text_at 2 (''.'' @ full_name p (pcInput c)) @
     text_at 3 (''.'' @ full_name p (pcOutput c)) @ (if pcServerStreaming c then number_at 6 1 else [])"

definition encode_file :: "file_proto \<Rightarrow> nat list" where
  "encode_file p = text_at 1 (ptName p) @ text_at 2 (ptPackage p) @
     concat (map (\<lambda>m. bytes_at 4 (encode_message m)) (ptMessages p)) @
     bytes_at 6 (text_at 1 (ptService p) @ concat (map (\<lambda>c. bytes_at 2 (encode_method p c)) (ptMethods p))) @
     text_at 12 ''proto3''"

text \<open>The tags of a generated struct field: the wire form, and the key in JSON outside alternatives.\<close>

definition decimal :: "nat \<Rightarrow> string" where
  "decimal n = [char_of (48 + n)]"

definition protobuf_tag :: "field_proto \<Rightarrow> string" where
  "protobuf_tag f = ''bytes,'' @ decimal (pfNumber f) @ '',opt,name='' @ pfName f @ '',json='' @ json_name (pfName f) @ '',proto3'' @
     (if pfOneof f = None then [] else '',oneof'')"

definition json_tag :: "field_proto \<Rightarrow> string" where
  "json_tag f = (if pfOneof f = None then pfName f @ '',omitempty'' else [])"

definition struct_fields :: "message_proto \<Rightarrow> (string \<times> string \<times> string) list" where
  "struct_fields m = map (\<lambda>f. (go_name (pfName f), protobuf_tag f, json_tag f)) (pmFields m)"

lemmas proto_eval = string_field_def oneof_field_def response_proto_def builder_proto_def runner_proto_def varint.simps
  number_at_def bytes_at_def text_at_def go_name_def encode_field_def encode_message_def full_name_def encode_method_def
  encode_file_def decimal_def protobuf_tag_def json_tag_def struct_fields_def

section \<open>What the generated code says about itself\<close>

text \<open>The descriptors embedded in \<^verbatim>\<open>builder.pb.go\<close> and \<^verbatim>\<open>runner.pb.go\<close>.\<close>

definition fileDescriptor_68a5e6cb4f7c8dc9 :: "8 word list" where
  "fileDescriptor_68a5e6cb4f7c8dc9 = [
     0x1f, 0x8b, 0x08, 0x00, 0x00, 0x00, 0x00, 0x00, 0x02, 0xff, 0x5c, 0x90, 0xc1, 0x4a, 0xc3, 0x40,
     0x10, 0x86, 0x1b, 0x45, 0x43, 0x27, 0x89, 0x87, 0x05, 0x45, 0xbc, 0x54, 0xda, 0x83, 0x9e, 0x82,
     0xe8, 0xc5, 0x73, 0x44, 0xe8, 0x4d, 0xc9, 0x0b, 0x94, 0x69, 0x77, 0x30, 0x05, 0xdb, 0x8d, 0x3b,
     0x33, 0xef, 0x2f, 0xd9, 0x49, 0x44, 0x7a, 0x5b, 0xbe, 0xfd, 0x98, 0x7f, 0xfe, 0x81, 0x6a, 0xab,
     0xfb, 0x6f, 0x4f, 0xb1, 0xee, 0x63, 0x90, 0xe0, 0x72, 0xde, 0x7b, 0xda, 0x61, 0x5c, 0x2a, 0x94,
     0xcd, 0xf0, 0xd3, 0xd2, 0x8f, 0x12, 0x8b, 0x5b, 0x40, 0xc1, 0x41, 0xe3, 0x8e, 0x36, 0x3d, 0x4a,
     0x77, 0x9b, 0xdd, 0x67, 0x8f, 0xf3, 0x16, 0x0c, 0x7d, 0xa2, 0x74, 0x6e, 0x05, 0xd5, 0x81, 0x04,
     0x3d, 0x0a, 0x9a, 0x72, 0x96, 0x94, 0x72, 0x82, 0x49, 0x5a, 0x40, 0x11, 0x54, 0x7a, 0x15, 0x53,
     0xce, 0x6d, 0x8a, 0xa1, 0x41, 0x58, 0x76, 0x50, 0x8d, 0xb1, 0xdc, 0x87, 0x23, 0x93, 0x5b, 0x41,
     0xc9, 0x82, 0x47, 0x8f, 0xd1, 0x6f, 0x82, 0x8a, 0x05, 0xaf, 0x67, 0x6d, 0x31, 0xd1, 0x0f, 0x15,
     0xf7, 0x00, 0x57, 0x7f, 0x12, 0xc5, 0x18, 0xa2, 0x85, 0xaf, 0x67, 0x6d, 0x35, 0xf1, 0xf7, 0x01,
     0x37, 0x73, 0xc8, 0x0f, 0xc4, 0x8c, 0x5f, 0xf4, 0xfc, 0x06, 0x79, 0x63, 0xd5, 0xdd, 0x2b, 0x5c,
     0xa4, 0xa7, 0xbb, 0xae, 0xc7, 0xfa, 0xf5, 0xff, 0xee, 0x77, 0x37, 0xa7, 0xd8, 0x76, 0x7b, 0xca,
     0xb6, 0x97, 0xe9, 0x6a, 0x2f, 0xbf, 0x01, 0x00, 0x00, 0xff, 0xff, 0x83, 0x2c, 0x77, 0x1f, 0x46,
     0x01, 0x00, 0x00]"

definition fileDescriptor_48eceea7e2abc593 :: "8 word list" where
  "fileDescriptor_48eceea7e2abc593 = [
     0x1f, 0x8b, 0x08, 0x00, 0x00, 0x00, 0x00, 0x00, 0x02, 0xff, 0x54, 0x90, 0x41, 0x4b, 0xc3, 0x40,
     0x10, 0x46, 0x1b, 0x0b, 0x2d, 0x9d, 0x26, 0x39, 0xac, 0x1e, 0xc4, 0x93, 0xb4, 0x14, 0x3d, 0x05,
     0xa9, 0x57, 0x4f, 0x82, 0xd0, 0x9b, 0xb2, 0x7f, 0xa0, 0x8c, 0xbb, 0x53, 0x93, 0x43, 0x77, 0xe3,
     0xec, 0xec, 0xd9, 0xbf, 0x2e, 0xd9, 0x35, 0x91, 0x5e, 0x1f, 0x8f, 0x99, 0x8f, 0x07, 0x25, 0x47,
     0xe7, 0x88, 0x9b, 0x9e, 0xbd, 0x78, 0xb5, 0x0c, 0x9d, 0x25, 0x83, 0xbc, 0xf9, 0x01, 0xd0, 0xd1,
     0x69, 0xfa, 0x8e, 0x14, 0x44, 0xed, 0xa0, 0x36, 0x2d, 0x76, 0xce, 0x78, 0x4b, 0xc7, 0x1e, 0xa5,
     0xbd, 0x2d, 0xee, 0x8b, 0xc7, 0x95, 0xae, 0x26, 0xfa, 0x81, 0xd2, 0xaa, 0x2d, 0x54, 0x67, 0x12,
     0xb4, 0x28, 0x98, 0xad, 0xab, 0x64, 0x95, 0x23, 0x4c, 0xd2, 0x0e, 0x6a, 0x64, 0xe9, 0x4e, 0x68,
     0x24, 0x64, 0x6b, 0x9e, 0x6f, 0x4d, 0x74, 0xd0, 0x36, 0x27, 0x58, 0xa7, 0x01, 0xa1, 0xf7, 0x2e,
     0x90, 0xda, 0x42, 0x19, 0x04, 0x9d, 0x45, 0xb6, 0x47, 0x1f, 0x25, 0xff, 0x3f, 0xcc, 0xf4, 0x7a,
     0xa4, 0xef, 0x51, 0xd4, 0x03, 0xd4, 0x93, 0x44, 0xcc, 0x9e, 0xf3, 0x80, 0xc3, 0x4c, 0x57, 0x23,
     0x7f, 0x1b, 0xf0, 0xeb, 0x0a, 0x96, 0x67, 0x0a, 0x01, 0xbf, 0x68, 0xff, 0x02, 0x0b, 0x9d, 0x0a,
     0xa8, 0x3d, 0xcc, 0x75, 0x74, 0xea, 0xba, 0xf9, 0x6b, 0xd0, 0xfc, 0x07, 0xb8, 0xbb, 0xb9, 0x84,
     0x79, 0xd4, 0x53, 0xf1, 0xb9, 0x48, 0xd9, 0x9e, 0x7f, 0x03, 0x00, 0x00, 0xff, 0xff, 0x5e, 0x07,
     0x59, 0xdc, 0x46, 0x01, 0x00, 0x00]"

text \<open>The names and tags of the fields of a struct; a field outside JSON has no key there.\<close>

type_synonym struct_tags = "(string \<times> string \<times> string) list"

definition BuildRequest_struct :: struct_tags where
  "BuildRequest_struct = [
     (''SourcePath'', ''bytes,1,opt,name=source_path,json=sourcePath,proto3'', ''source_path,omitempty''),
     (''MetadataPath'', ''bytes,2,opt,name=metadata_path,json=metadataPath,proto3'', ''metadata_path,omitempty''),
     (''OutputPath'', ''bytes,3,opt,name=output_path,json=outputPath,proto3'', ''output_path,omitempty'')]"

definition RunRequest_struct :: struct_tags where
  "RunRequest_struct = [
     (''ChaincodePath'', ''bytes,1,opt,name=chaincode_path,json=chaincodePath,proto3'', ''chaincode_path,omitempty''),
     (''MetadataPath'', ''bytes,2,opt,name=metadata_path,json=metadataPath,proto3'', ''metadata_path,omitempty''),
     (''ArtifactsPath'', ''bytes,3,opt,name=artifacts_path,json=artifactsPath,proto3'', ''artifacts_path,omitempty'')]"

text \<open>The alternatives of a response are structs of one field each, which \<^verbatim>\<open>XXX_OneofWrappers\<close> lists.\<close>

definition BuildResponse_StandardOut_struct :: "string \<times> string \<times> string" where
  "BuildResponse_StandardOut_struct = (''StandardOut'', ''bytes,1,opt,name=standard_out,json=standardOut,proto3,oneof'', [])"

definition BuildResponse_StandardError_struct :: "string \<times> string \<times> string" where
  "BuildResponse_StandardError_struct = (''StandardError'', ''bytes,2,opt,name=standard_error,json=standardError,proto3,oneof'', [])"

definition BuildResponse_XXX_OneofWrappers :: struct_tags where
  "BuildResponse_XXX_OneofWrappers = [BuildResponse_StandardOut_struct, BuildResponse_StandardError_struct]"

definition RunResponse_StandardOut_struct :: "string \<times> string \<times> string" where
  "RunResponse_StandardOut_struct = (''StandardOut'', ''bytes,1,opt,name=standard_out,json=standardOut,proto3,oneof'', [])"

definition RunResponse_StandardError_struct :: "string \<times> string \<times> string" where
  "RunResponse_StandardError_struct = (''StandardError'', ''bytes,2,opt,name=standard_error,json=standardError,proto3,oneof'', [])"

definition RunResponse_XXX_OneofWrappers :: struct_tags where
  "RunResponse_XXX_OneofWrappers = [RunResponse_StandardOut_struct, RunResponse_StandardError_struct]"

text \<open>\<^verbatim>\<open>Descriptor\<close>: the file's descriptor and the position of the message in it.\<close>

definition BuildRequest_Descriptor :: "8 word list \<times> nat list" where
  "BuildRequest_Descriptor = (fileDescriptor_68a5e6cb4f7c8dc9, [0])"

definition BuildResponse_Descriptor :: "8 word list \<times> nat list" where
  "BuildResponse_Descriptor = (fileDescriptor_68a5e6cb4f7c8dc9, [1])"

definition RunRequest_Descriptor :: "8 word list \<times> nat list" where
  "RunRequest_Descriptor = (fileDescriptor_48eceea7e2abc593, [0])"

definition RunResponse_Descriptor :: "8 word list \<times> nat list" where
  "RunResponse_Descriptor = (fileDescriptor_48eceea7e2abc593, [1])"

text \<open>The two \<^verbatim>\<open>init\<close> functions of each file register the types and the descriptor with the library.\<close>

datatype message_type = BuildRequest_T | BuildResponse_T | RunRequest_T | RunResponse_T

definition builder_init :: "(message_type \<Rightarrow> string \<Rightarrow> 'g \<Rightarrow> 'g) \<Rightarrow> (string \<Rightarrow> 8 word list \<Rightarrow> 'g \<Rightarrow> 'g) \<Rightarrow> 'g \<Rightarrow> 'g" where
  "builder_init RegisterType RegisterFile g =
     (let g1 = RegisterType BuildRequest_T ''sidecar.BuildRequest'' g;
          g2 = RegisterType BuildResponse_T ''sidecar.BuildResponse'' g1 in
      RegisterFile ''builder.proto'' fileDescriptor_68a5e6cb4f7c8dc9 g2)"

definition runner_init :: "(message_type \<Rightarrow> string \<Rightarrow> 'g \<Rightarrow> 'g) \<Rightarrow> (string \<Rightarrow> 8 word list \<Rightarrow> 'g \<Rightarrow> 'g) \<Rightarrow> 'g \<Rightarrow> 'g" where
  "runner_init RegisterType RegisterFile g =
     (let g1 = RegisterType RunRequest_T ''sidecar.RunRequest'' g;
          g2 = RegisterType RunResponse_T ''sidecar.RunResponse'' g1 in
      RegisterFile ''runner.proto'' fileDescriptor_48eceea7e2abc593 g2)"

section \<open>The library's view of the messages\<close>

text \<open>
  \<^verbatim>\<open>proto.InternalMessageInfo\<close> does the work of these methods; it is the library's. A message that is
  written to is returned.
\<close>

record 'm message_info =
  miUnmarshal :: "'m \<Rightarrow> 8 word list \<Rightarrow> nilerr \<times> 'm"
  miMarshal :: "8 word list \<Rightarrow> 'm \<Rightarrow> bool \<Rightarrow> (8 word list) result"
  miMerge :: "'m \<Rightarrow> 'm \<Rightarrow> 'm"
  miSize :: "'m \<Rightarrow> int"
  miDiscardUnknown :: "'m \<Rightarrow> 'm"

definition BuildRequest_String :: "(BuildRequest \<Rightarrow> string) \<Rightarrow> BuildRequest \<Rightarrow> string" where
  "BuildRequest_String CompactTextString m = CompactTextString m"

definition BuildRequest_XXX_Unmarshal :: "BuildRequest message_info \<Rightarrow> BuildRequest \<Rightarrow> 8 word list \<Rightarrow> nilerr \<times> BuildRequest" where
  "BuildRequest_XXX_Unmarshal info m b = miUnmarshal info m b"

definition BuildRequest_XXX_Marshal :: "BuildRequest message_info \<Rightarrow> BuildRequest \<Rightarrow> 8 word list \<Rightarrow> bool \<Rightarrow> (8 word list) result" where
  "BuildRequest_XXX_Marshal info m b deterministic = miMarshal info b m deterministic"

definition BuildRequest_XXX_Merge :: "BuildRequest message_info \<Rightarrow> BuildRequest \<Rightarrow> BuildRequest \<Rightarrow> BuildRequest" where
  "BuildRequest_XXX_Merge info m src = miMerge info m src"

definition BuildRequest_XXX_Size :: "BuildRequest message_info \<Rightarrow> BuildRequest \<Rightarrow> int" where
  "BuildRequest_XXX_Size info m = miSize info m"

definition BuildRequest_XXX_DiscardUnknown :: "BuildRequest message_info \<Rightarrow> BuildRequest \<Rightarrow> BuildRequest" where
  "BuildRequest_XXX_DiscardUnknown info m = miDiscardUnknown info m"

definition BuildResponse_String :: "(BuildResponse \<Rightarrow> string) \<Rightarrow> BuildResponse \<Rightarrow> string" where
  "BuildResponse_String CompactTextString m = CompactTextString m"

definition BuildResponse_XXX_Unmarshal :: "BuildResponse message_info \<Rightarrow> BuildResponse \<Rightarrow> 8 word list \<Rightarrow> nilerr \<times> BuildResponse" where
  "BuildResponse_XXX_Unmarshal info m b = miUnmarshal info m b"

definition BuildResponse_XXX_Marshal :: "BuildResponse message_info \<Rightarrow> BuildResponse \<Rightarrow> 8 word list \<Rightarrow> bool \<Rightarrow> (8 word list) result" where
  "BuildResponse_XXX_Marshal info m b deterministic = miMarshal info b m deterministic"

definition BuildResponse_XXX_Merge :: "BuildResponse message_info \<Rightarrow> BuildResponse \<Rightarrow> BuildResponse \<Rightarrow> BuildResponse" where
  "BuildResponse_XXX_Merge info m src = miMerge info m src"

definition BuildResponse_XXX_Size :: "BuildResponse message_info \<Rightarrow> BuildResponse \<Rightarrow> int" where
  "BuildResponse_XXX_Size info m = miSize info m"

definition BuildResponse_XXX_DiscardUnknown :: "BuildResponse message_info \<Rightarrow> BuildResponse \<Rightarrow> BuildResponse" where
  "BuildResponse_XXX_DiscardUnknown info m = miDiscardUnknown info m"

definition RunRequest_String :: "(RunRequest \<Rightarrow> string) \<Rightarrow> RunRequest \<Rightarrow> string" where
  "RunRequest_String CompactTextString m = CompactTextString m"

definition RunRequest_XXX_Unmarshal :: "RunRequest message_info \<Rightarrow> RunRequest \<Rightarrow> 8 word list \<Rightarrow> nilerr \<times> RunRequest" where
  "RunRequest_XXX_Unmarshal info m b = miUnmarshal info m b"

definition RunRequest_XXX_Marshal :: "RunRequest message_info \<Rightarrow> RunRequest \<Rightarrow> 8 word list \<Rightarrow> bool \<Rightarrow> (8 word list) result" where
  "RunRequest_XXX_Marshal info m b deterministic = miMarshal info b m deterministic"

definition RunRequest_XXX_Merge :: "RunRequest message_info \<Rightarrow> RunRequest \<Rightarrow> RunRequest \<Rightarrow> RunRequest" where
  "RunRequest_XXX_Merge info m src = miMerge info m src"

definition RunRequest_XXX_Size :: "RunRequest message_info \<Rightarrow> RunRequest \<Rightarrow> int" where
  "RunRequest_XXX_Size info m = miSize info m"

definition RunRequest_XXX_DiscardUnknown :: "RunRequest message_info \<Rightarrow> RunRequest \<Rightarrow> RunRequest" where
  "RunRequest_XXX_DiscardUnknown info m = miDiscardUnknown info m"

definition RunResponse_String :: "(RunResponse \<Rightarrow> string) \<Rightarrow> RunResponse \<Rightarrow> string" where
  "RunResponse_String CompactTextString m = CompactTextString m"

definition RunResponse_XXX_Unmarshal :: "RunResponse message_info \<Rightarrow> RunResponse \<Rightarrow> 8 word list \<Rightarrow> nilerr \<times> RunResponse" where
  "RunResponse_XXX_Unmarshal info m b = miUnmarshal info m b"

definition RunResponse_XXX_Marshal :: "RunResponse message_info \<Rightarrow> RunResponse \<Rightarrow> 8 word list \<Rightarrow> bool \<Rightarrow> (8 word list) result" where
  "RunResponse_XXX_Marshal info m b deterministic = miMarshal info b m deterministic"

definition RunResponse_XXX_Merge :: "RunResponse message_info \<Rightarrow> RunResponse \<Rightarrow> RunResponse \<Rightarrow> RunResponse" where
  "RunResponse_XXX_Merge info m src = miMerge info m src"

definition RunResponse_XXX_Size :: "RunResponse message_info \<Rightarrow> RunResponse \<Rightarrow> int" where
  "RunResponse_XXX_Size info m = miSize info m"

definition RunResponse_XXX_DiscardUnknown :: "RunResponse message_info \<Rightarrow> RunResponse \<Rightarrow> RunResponse" where
  "RunResponse_XXX_DiscardUnknown info m = miDiscardUnknown info m"

text \<open>
  A request that went over the wire. The documented behaviour of the library is that unmarshalling into a
  message that has been reset what a message was marshalled to gives that message; then the handler passes
  on the request the client sent, whatever the bytes are.
\<close>

lemma handler_gets_request:
  assumes "BuildRequest_XXX_Marshal info req [] False = Inr bytes"
    and "BuildRequest_XXX_Unmarshal info (BuildRequest_Reset m) bytes = (None, req)"
    and "RunRequest_XXX_Marshal info' req' [] False = Inr bytes'"
    and "RunRequest_XXX_Unmarshal info' (RunRequest_Reset m') bytes' = (None, req')"
    and "recv = (\<lambda>st. case BuildRequest_XXX_Unmarshal info (BuildRequest_Reset m) bytes of
      (Some e, _) \<Rightarrow> (Inl e, st) | (None, q) \<Rightarrow> (Inr q, st))"
    and "recv' = (\<lambda>st. case RunRequest_XXX_Unmarshal info' (RunRequest_Reset m') bytes' of
      (Some e, _) \<Rightarrow> (Inl e, st) | (None, q) \<Rightarrow> (Inr q, st))"
  shows "Builder_Build_Handler recv srv st = srv req st" and "Runner_Run_Handler recv' srv' st' = srv' req' st'"
  using assms by (simp_all add: Builder_Build_Handler_def Runner_Run_Handler_def)

end
