(* ===== verification/DescriptorProps.thy ===== *)
theory DescriptorProps
  imports Descriptor
begin

text \<open>
  The embedded descriptors are the interface definitions: they are decompressed part by part, and the
  result is compared with the serialized definition.
\<close>

section \<open>Reading a member\<close>

lemma gunzip_member:
  assumes "bytes = [0x1F, 0x8B, 8, 0, m1, m2, m3, m4, xfl, os] @ body"
    and "take_bits 3 (concat (map byte_bits body)) = Some (4, r1)" and "dynamic_block r1 [] = Some (rev text, r2)"
    and "inflate r2 (rev text) = Some (rev text, r3)" and "take_bits 32 (align_bits r3) = Some (crc32 text, r4)"
    and "take_bits 32 r4 = Some (length text mod 2 ^ 32, [])"
  shows "gunzip bytes = Some text"
proof -
  have "inflate (concat (map byte_bits body)) [] = Some (rev text, r3)"
    using assms(2-4) by (subst inflate.simps) (simp add: inflate_block_def)
  then show ?thesis using assms(1,5,6) by (simp add: gunzip_def)
qed

section \<open>The builder\<close>

text \<open>The compressed bytes, ranges of them as bits, the two codes they begin with, and the state of the
  decompression after \<open>k\<close> bytes of the result.\<close>

definition builder_bytes :: "nat list" where
  "builder_bytes = drop 10 (map unat fileDescriptor_68a5e6cb4f7c8dc9)"

definition builder_bits :: "nat \<Rightarrow> nat \<Rightarrow> bits" where
  "builder_bits = bits_of builder_bytes"

definition builder_literals :: code_tree where
  "builder_literals =
     Node (Node (Node (Node (Leaf 10) (Leaf 97)) (Node (Leaf 101) (Leaf 115))) (Node (Node (Leaf 116) (Leaf 117)) (Node (Leaf
     260) (Node (Leaf 18) (Leaf 100))))) (Node (Node (Node (Node (Leaf 111) (Leaf 114)) (Node (Leaf 259) (Node (Leaf 1) (Leaf
     7)))) (Node (Node (Node (Leaf 11) (Leaf 12)) (Node (Leaf 13) (Leaf 46))) (Node (Node (Leaf 66) (Leaf 82)) (Node (Leaf
     104) (Leaf 112))))) (Node (Node (Node (Node (Leaf 258) (Leaf 261)) (Node (Leaf 262) (Node (Leaf 0) (Leaf 9)))) (Node
     (Node (Node (Leaf 31) (Leaf 34)) (Node (Leaf 35) (Leaf 72))) (Node (Node (Leaf 95) (Leaf 98)) (Node (Leaf 99) (Leaf
     105))))) (Node (Node (Node (Node (Leaf 109) (Leaf 110)) (Node (Leaf 267) (Node (Leaf 2) (Leaf 3)))) (Node (Node (Node
     (Leaf 5) (Leaf 6)) (Node (Leaf 14) (Leaf 21))) (Node (Node (Leaf 22) (Leaf 24)) (Node (Leaf 26) (Leaf 32))))) (Node
     (Node (Node (Node (Leaf 39) (Leaf 40)) (Node (Leaf 48) (Leaf 50))) (Node (Node (Leaf 51) (Leaf 56)) (Node (Leaf 67)
     (Leaf 69)))) (Node (Node (Node (Leaf 79) (Leaf 80)) (Node (Leaf 103) (Leaf 108))) (Node (Node (Leaf 113) (Leaf 256))
     (Node (Leaf 263) (Leaf 265))))))))"

definition builder_distances :: code_tree where
  "builder_distances =
     Node (Node (Leaf 8) (Leaf 10)) (Node (Node (Leaf 13) (Leaf 15)) (Node (Node (Leaf 12) (Leaf 14)) (Node (Leaf 16) (Node
     (Leaf 6) (Leaf 9)))))"

definition builder_codes :: "bits \<Rightarrow> nat \<Rightarrow> (nat list \<times> bits) option" where
  "builder_codes bs k = inflate_codes builder_literals builder_distances bs (rev (take k (encode_file builder_proto)))"

lemmas builder_data = builder_bits_def bits_of_def builder_bytes_def fileDescriptor_68a5e6cb4f7c8dc9_def byte_bits_def

lemmas builder_eval = gzip_eval proto_eval builder_literals_def builder_distances_def builder_codes_def

text \<open>The code lengths at the start of the block, and the codes they give.\<close>

definition builder_lengths :: "nat list" where
  "builder_lengths = [
     7, 6, 8, 8, 0, 8, 8, 6, 0, 7, 4, 6, 6, 6, 8, 0, 0, 0, 5, 0, 0, 8, 8, 0, 8, 0, 8, 0, 0, 0, 0, 7, 8, 0, 7, 7, 0, 0, 0, 8,
     8, 0, 0, 0, 0, 0, 6, 0, 8, 0, 8, 8, 0, 0, 0, 0, 8, 0, 0, 0, 0, 0, 0, 0, 0, 0, 6, 8, 0, 8, 0, 0, 7, 0, 0, 0, 0, 0, 0, 8,
     8, 0, 6, 0, 0, 0, 0, 0, 0, 0, 0, 0, 0, 0, 0, 7, 0, 4, 7, 7, 5, 4, 0, 8, 6, 7, 0, 0, 8, 7, 7, 5, 6, 8, 5, 4, 4, 4, 0, 0,
     0, 0, 0, 0, 0, 0, 0, 0, 0, 0, 0, 0, 0, 0, 0, 0, 0, 0, 0, 0, 0, 0, 0, 0, 0, 0, 0, 0, 0, 0, 0, 0, 0, 0, 0, 0, 0, 0, 0, 0,
     0, 0, 0, 0, 0, 0, 0, 0, 0, 0, 0, 0, 0, 0, 0, 0, 0, 0, 0, 0, 0, 0, 0, 0, 0, 0, 0, 0, 0, 0, 0, 0, 0, 0, 0, 0, 0, 0, 0, 0,
     0, 0, 0, 0, 0, 0, 0, 0, 0, 0, 0, 0, 0, 0, 0, 0, 0, 0, 0, 0, 0, 0, 0, 0, 0, 0, 0, 0, 0, 0, 0, 0, 0, 0, 0, 0, 0, 0, 0, 0,
     0, 0, 0, 0, 0, 0, 0, 0, 0, 0, 0, 0, 0, 0, 0, 0, 8, 0, 6, 5, 4, 6, 6, 8, 0, 8, 0, 7, 0, 0, 0, 0, 0, 0, 5, 0, 2, 5, 2, 0,
     4, 3, 4, 3, 4]"

definition builder_length_code :: code_tree where
  "builder_length_code =
     Node (Node (Leaf 0) (Leaf 8)) (Node (Node (Leaf 6) (Leaf 7)) (Node (Node (Leaf 4) (Leaf 5)) (Node (Leaf 17) (Node (Leaf
     18) (Node (Leaf 2) (Leaf 3))))))"

lemma builder_codes_given:
  "length_code [0, 4, 5, 2, 2, 3, 0, 3, 0, 4, 0, 4, 0, 6, 0, 6] = builder_length_code"
  "code_of (take 268 builder_lengths) = builder_literals" "code_of (drop 268 builder_lengths) = builder_distances"
  by (simp_all add: length_code_def triple_order_def numeral_2_eq_2 [symmetric] builder_lengths_def)
    (simp_all add: gzip_eval builder_length_code_def builder_literals_def builder_distances_def cong: gzip_cong)

lemma builder_lengths_read:
  "read_lengths builder_length_code 285 [] (drop 1 (builder_bits 8 44) @ r) = Some (builder_lengths, drop 3 (builder_bits 51 1) @ r)"
  by (simp add: builder_data) (simp add: gzip_eval builder_length_code_def builder_lengths_def cong: gzip_cong)

lemma builder_counts:
  "take_bits 5 (drop 3 (builder_bits 0 52) @ r) = Some (11, drop 8 (builder_bits 0 52) @ r)" "take_bits 5 (drop 8 (builder_bits 0 52) @ r) = Some (16, drop 13 (builder_bits 0 52) @ r)"
  "take_bits 4 (drop 13 (builder_bits 0 52) @ r) = Some (12, drop 17 (builder_bits 0 52) @ r)"
  "read_triples 16 (drop 17 (builder_bits 0 52) @ r) = Some ([0, 4, 5, 2, 2, 3, 0, 3, 0, 4, 0, 4, 0, 6, 0, 6], drop 1 (builder_bits 8 44) @ r)"
  by (simp_all add: builder_data numeral_2_eq_2 [symmetric])

lemma builder_header:
  "dynamic_block (drop 3 (builder_bits 0 52) @ r) [] = builder_codes (drop 3 (builder_bits 51 1) @ r) 0"
  by (simp add: dynamic_block_def builder_counts builder_codes_given builder_lengths_read builder_codes_def del: read_triples_numeral One_nat_def)

lemma builder_part1:
  "builder_codes (drop 3 (builder_bits 51 1) @ builder_bits 52 32 @ r) 0 = builder_codes r 51"
  by (simp add: builder_data) (simp add: builder_eval cong: gzip_cong)

lemma builder_part2:
  "builder_codes (builder_bits 84 51 @ r) 51 = builder_codes r 165"
  by (simp add: builder_data) (simp add: builder_eval cong: gzip_cong)

lemma builder_part3:
  "builder_codes (builder_bits 135 35 @ r) 165 = builder_codes r 243"
  by (simp add: builder_data) (simp add: builder_eval cong: gzip_cong)

lemma builder_end:
  "builder_codes (builder_bits 170 47) 243 = Some (rev (encode_file builder_proto), drop 0 (builder_bits 204 13))"
  by (simp add: builder_data) (simp add: builder_eval cong: gzip_cong)

lemma builder_trailer:
  "inflate (drop 0 (builder_bits 204 13)) out = Some (out, builder_bits 209 8)"
  by (simp add: builder_data) (simp add: builder_eval)

lemma builder_split:
  "concat (map byte_bits builder_bytes) =
     builder_bits 0 52 @ builder_bits 52 32 @ builder_bits 84 51 @ builder_bits 135 35 @ builder_bits 170 47"
proof -
  have "length builder_bytes = 217" by (simp add: builder_bytes_def fileDescriptor_68a5e6cb4f7c8dc9_def)
  then show ?thesis by (simp add: builder_bits_def bits_of_append bits_of_all)
qed

lemma builder_first: "take_bits 3 (builder_bits 0 52 @ r) = Some (4, drop 3 (builder_bits 0 52) @ r)"
  by (simp add: builder_data)

lemma builder_check:
  "take_bits 32 (align_bits (builder_bits 209 8)) = Some (crc32 (encode_file builder_proto), builder_bits 213 4)"
  "take_bits 32 (builder_bits 213 4) = Some (length (encode_file builder_proto) mod 2 ^ 32, [])"
  by (simp add: builder_data, simp add: gzip_eval proto_eval)+

lemma builder_descriptor: "gunzip (map unat fileDescriptor_68a5e6cb4f7c8dc9) = Some (encode_file builder_proto)"
proof (rule gunzip_member)
  show "map unat fileDescriptor_68a5e6cb4f7c8dc9 = [0x1F, 0x8B, 8, 0, 0, 0, 0, 0, 2, 0xFF] @ builder_bytes"
    by (simp add: builder_bytes_def fileDescriptor_68a5e6cb4f7c8dc9_def)
  let ?rest = "builder_bits 52 32 @ builder_bits 84 51 @ builder_bits 135 35 @ builder_bits 170 47"
  show "take_bits 3 (concat (map byte_bits builder_bytes)) = Some (4, drop 3 (builder_bits 0 52) @ ?rest)"
    unfolding builder_split by (rule builder_first)
  have part1: "builder_codes (drop 3 (builder_bits 51 1) @ builder_bits 52 32 @ r) 0 = builder_codes r 51" for r
    using builder_part1 [of r] by simp
  show "dynamic_block (drop 3 (builder_bits 0 52) @ ?rest) [] = Some (rev (encode_file builder_proto), drop 0 (builder_bits 204 13))"
    by (simp only: builder_header part1 builder_part2 builder_part3 builder_end)
  show "inflate (drop 0 (builder_bits 204 13)) (rev (encode_file builder_proto)) = Some (rev (encode_file builder_proto), builder_bits 209 8)"
    by (rule builder_trailer)
qed (rule builder_check)+

section \<open>The runner\<close>

text \<open>The compressed bytes, ranges of them as bits, the two codes they begin with, and the state of the
  decompression after \<open>k\<close> bytes of the result.\<close>

definition runner_bytes :: "nat list" where
  "runner_bytes = drop 10 (map unat fileDescriptor_48eceea7e2abc593)"

definition runner_bits :: "nat \<Rightarrow> nat \<Rightarrow> bits" where
  "runner_bits = bits_of runner_bytes"

definition runner_literals :: code_tree where
  "runner_literals =
     Node (Node (Node (Node (Leaf 10) (Leaf 97)) (Node (Leaf 101) (Leaf 114))) (Node (Node (Leaf 116) (Node (Leaf 18) (Leaf
     82))) (Node (Node (Leaf 99) (Leaf 100)) (Node (Leaf 110) (Leaf 111))))) (Node (Node (Node (Node (Leaf 115) (Leaf 117))
     (Node (Leaf 259) (Leaf 260))) (Node (Node (Node (Leaf 1) (Leaf 12)) (Node (Leaf 13) (Leaf 14))) (Node (Node (Leaf 46)
     (Leaf 104)) (Node (Leaf 105) (Leaf 112))))) (Node (Node (Node (Node (Leaf 258) (Leaf 262)) (Node (Leaf 263) (Node (Leaf
     0) (Leaf 3)))) (Node (Node (Node (Leaf 6) (Leaf 7)) (Node (Leaf 9) (Leaf 11))) (Node (Node (Leaf 34) (Leaf 35)) (Node
     (Leaf 37) (Leaf 50))))) (Node (Node (Node (Node (Leaf 72) (Leaf 95)) (Node (Leaf 102) (Leaf 109))) (Node (Node (Leaf
     266) (Node (Leaf 2) (Leaf 19))) (Node (Node (Leaf 20) (Leaf 24)) (Node (Leaf 26) (Leaf 32))))) (Node (Node (Node (Node
     (Leaf 39) (Leaf 40)) (Node (Leaf 48) (Leaf 51))) (Node (Node (Leaf 60) (Leaf 66)) (Node (Leaf 69) (Leaf 79)))) (Node
     (Node (Node (Leaf 80) (Leaf 98)) (Node (Leaf 103) (Leaf 113))) (Node (Node (Leaf 127) (Leaf 256)) (Node (Leaf 261) (Leaf
     264))))))))"

definition runner_distances :: code_tree where
  "runner_distances =
     Node (Node (Leaf 8) (Leaf 10)) (Node (Leaf 16) (Node (Leaf 14) (Node (Leaf 12) (Leaf 13))))"

definition runner_codes :: "bits \<Rightarrow> nat \<Rightarrow> (nat list \<times> bits) option" where
  "runner_codes bs k = inflate_codes runner_literals runner_distances bs (rev (take k (encode_file runner_proto)))"

lemmas runner_data = runner_bits_def bits_of_def runner_bytes_def fileDescriptor_48eceea7e2abc593_def byte_bits_def

lemmas runner_eval = gzip_eval proto_eval runner_literals_def runner_distances_def runner_codes_def

text \<open>The code lengths at the start of the block, and the codes they give.\<close>

definition runner_lengths :: "nat list" where
  "runner_lengths = [
     7, 6, 8, 7, 0, 0, 7, 7, 0, 7, 4, 7, 6, 6, 6, 0, 0, 0, 5, 8, 8, 0, 0, 0, 8, 0, 8, 0, 0, 0, 0, 0, 8, 0, 7, 7, 0, 7, 0, 8,
     8, 0, 0, 0, 0, 0, 6, 0, 8, 0, 7, 8, 0, 0, 0, 0, 0, 0, 0, 0, 8, 0, 0, 0, 0, 0, 8, 0, 0, 8, 0, 0, 7, 0, 0, 0, 0, 0, 0, 8,
     8, 0, 5, 0, 0, 0, 0, 0, 0, 0, 0, 0, 0, 0, 0, 7, 0, 4, 8, 5, 5, 4, 7, 8, 6, 6, 0, 0, 0, 7, 5, 5, 6, 8, 4, 5, 4, 5, 0, 0,
     0, 0, 0, 0, 0, 0, 0, 8, 0, 0, 0, 0, 0, 0, 0, 0, 0, 0, 0, 0, 0, 0, 0, 0, 0, 0, 0, 0, 0, 0, 0, 0, 0, 0, 0, 0, 0, 0, 0, 0,
     0, 0, 0, 0, 0, 0, 0, 0, 0, 0, 0, 0, 0, 0, 0, 0, 0, 0, 0, 0, 0, 0, 0, 0, 0, 0, 0, 0, 0, 0, 0, 0, 0, 0, 0, 0, 0, 0, 0, 0,
     0, 0, 0, 0, 0, 0, 0, 0, 0, 0, 0, 0, 0, 0, 0, 0, 0, 0, 0, 0, 0, 0, 0, 0, 0, 0, 0, 0, 0, 0, 0, 0, 0, 0, 0, 0, 0, 0, 0, 0,
     0, 0, 0, 0, 0, 0, 0, 0, 0, 0, 0, 0, 0, 0, 0, 0, 8, 0, 6, 5, 5, 8, 6, 6, 8, 0, 7, 0, 0, 0, 0, 0, 0, 0, 0, 2, 0, 2, 0, 4,
     4, 3, 0, 2]"

definition runner_length_code :: code_tree where
  "runner_length_code =
     Node (Node (Leaf 0) (Leaf 8)) (Node (Node (Leaf 6) (Leaf 7)) (Node (Node (Leaf 4) (Leaf 5)) (Node (Leaf 17) (Node (Leaf
     2) (Node (Leaf 3) (Leaf 18))))))"

lemma runner_codes_given:
  "length_code [0, 4, 6, 2, 2, 3, 0, 3, 0, 4, 0, 4, 0, 6, 0, 5] = runner_length_code"
  "code_of (take 267 runner_lengths) = runner_literals" "code_of (drop 267 runner_lengths) = runner_distances"
  by (simp_all add: length_code_def triple_order_def numeral_2_eq_2 [symmetric] runner_lengths_def)
    (simp_all add: gzip_eval runner_length_code_def runner_literals_def runner_distances_def cong: gzip_cong)

lemma runner_lengths_read:
  "read_lengths runner_length_code 284 [] (drop 1 (runner_bits 8 44) @ r) = Some (runner_lengths, drop 4 (runner_bits 51 1) @ r)"
  by (simp add: runner_data) (simp add: gzip_eval runner_length_code_def runner_lengths_def cong: gzip_cong)

lemma runner_counts:
  "take_bits 5 (drop 3 (runner_bits 0 52) @ r) = Some (10, drop 8 (runner_bits 0 52) @ r)" "take_bits 5 (drop 8 (runner_bits 0 52) @ r) = Some (16, drop 13 (runner_bits 0 52) @ r)"
  "take_bits 4 (drop 13 (runner_bits 0 52) @ r) = Some (12, drop 17 (runner_bits 0 52) @ r)"
  "read_triples 16 (drop 17 (runner_bits 0 52) @ r) = Some ([0, 4, 6, 2, 2, 3, 0, 3, 0, 4, 0, 4, 0, 6, 0, 5], drop 1 (runner_bits 8 44) @ r)"
  by (simp_all add: runner_data numeral_2_eq_2 [symmetric])

lemma runner_header:
  "dynamic_block (drop 3 (runner_bits 0 52) @ r) [] = runner_codes (drop 4 (runner_bits 51 1) @ r) 0"
  by (simp add: dynamic_block_def runner_counts runner_codes_given runner_lengths_read runner_codes_def del: read_triples_numeral One_nat_def)

lemma runner_part1:
  "runner_codes (drop 4 (runner_bits 51 1) @ runner_bits 52 31 @ r) 0 = runner_codes r 50"
  by (simp add: runner_data) (simp add: runner_eval cong: gzip_cong)

lemma runner_part2:
  "runner_codes (runner_bits 83 50 @ r) 50 = runner_codes r 164"
  by (simp add: runner_data) (simp add: runner_eval cong: gzip_cong)

lemma runner_part3:
  "runner_codes (runner_bits 133 39 @ r) 164 = runner_codes r 249"
  by (simp add: runner_data) (simp add: runner_eval cong: gzip_cong)

lemma runner_end:
  "runner_codes (runner_bits 172 48) 249 = Some (rev (encode_file runner_proto), drop 1 (runner_bits 207 13))"
  by (simp add: runner_data) (simp add: runner_eval cong: gzip_cong)

lemma runner_trailer:
  "inflate (drop 1 (runner_bits 207 13)) out = Some (out, runner_bits 212 8)"
  by (simp add: runner_data) (simp add: runner_eval)

lemma runner_split:
  "concat (map byte_bits runner_bytes) =
     runner_bits 0 52 @ runner_bits 52 31 @ runner_bits 83 50 @ runner_bits 133 39 @ runner_bits 172 48"
proof -
  have "length runner_bytes = 220" by (simp add: runner_bytes_def fileDescriptor_48eceea7e2abc593_def)
  then show ?thesis by (simp add: runner_bits_def bits_of_append bits_of_all)
qed

lemma runner_first: "take_bits 3 (runner_bits 0 52 @ r) = Some (4, drop 3 (runner_bits 0 52) @ r)"
  by (simp add: runner_data)

lemma runner_check:
  "take_bits 32 (align_bits (runner_bits 212 8)) = Some (crc32 (encode_file runner_proto), runner_bits 216 4)"
  "take_bits 32 (runner_bits 216 4) = Some (length (encode_file runner_proto) mod 2 ^ 32, [])"
  by (simp add: runner_data, simp add: gzip_eval proto_eval)+

lemma runner_descriptor: "gunzip (map unat fileDescriptor_48eceea7e2abc593) = Some (encode_file runner_proto)"
proof (rule gunzip_member)
  show "map unat fileDescriptor_48eceea7e2abc593 = [0x1F, 0x8B, 8, 0, 0, 0, 0, 0, 2, 0xFF] @ runner_bytes"
    by (simp add: runner_bytes_def fileDescriptor_48eceea7e2abc593_def)
  let ?rest = "runner_bits 52 31 @ runner_bits 83 50 @ runner_bits 133 39 @ runner_bits 172 48"
  show "take_bits 3 (concat (map byte_bits runner_bytes)) = Some (4, drop 3 (runner_bits 0 52) @ ?rest)"
    unfolding runner_split by (rule runner_first)
  have part1: "runner_codes (drop 4 (runner_bits 51 1) @ runner_bits 52 31 @ r) 0 = runner_codes r 50" for r
    using runner_part1 [of r] by simp
  show "dynamic_block (drop 3 (runner_bits 0 52) @ ?rest) [] = Some (rev (encode_file runner_proto), drop 1 (runner_bits 207 13))"
    by (simp only: runner_header part1 runner_part2 runner_part3 runner_end)
  show "inflate (drop 1 (runner_bits 207 13)) (rev (encode_file runner_proto)) = Some (rev (encode_file runner_proto), runner_bits 212 8)"
    by (rule runner_trailer)
qed (rule runner_check)+

section \<open>The property\<close>

text \<open>What a registry of the library would hold.\<close>

record registry =
  rTypes :: "(message_type \<times> string) list"
  rFiles :: "(string \<times> 8 word list) list"

definition register_type :: "message_type \<Rightarrow> string \<Rightarrow> registry \<Rightarrow> registry" where
  "register_type t name g = g\<lparr>rTypes := rTypes g @ [(t, name)]\<rparr>"

definition register_file :: "string \<Rightarrow> 8 word list \<Rightarrow> registry \<Rightarrow> registry" where
  "register_file name fd g = g\<lparr>rFiles := rFiles g @ [(name, fd)]\<rparr>"

text \<open>
  The generated code agrees with an interface definition: the descriptor decompresses to the serialized
  definition and is registered under the name of the file; the messages are registered under their full
  names, in order, and point to their places in the descriptor; the structs carry the field numbers and
  names; and the service has the full name and the streams of the definition.
\<close>

definition agrees :: "file_proto \<Rightarrow> 8 word list \<Rightarrow> registry \<Rightarrow> (8 word list \<times> nat list) list \<Rightarrow> struct_tags list \<Rightarrow>
    service_desc \<Rightarrow> bool" where
  "agrees p fd reg descs structs desc \<longleftrightarrow>
     gunzip (map unat fd) = Some (encode_file p) \<and> rFiles reg = [(ptName p, fd)] \<and>
     map snd (rTypes reg) = map (full_name p \<circ> pmName) (ptMessages p) \<and>
     descs = map (\<lambda>i. (fd, [i])) [0..<length (ptMessages p)] \<and> structs = map struct_fields (ptMessages p) \<and>
     ServiceName desc = full_name p (ptService p) \<and>
     Streams desc = map (\<lambda>c. (pcName c, pcServerStreaming c)) (ptMethods p)"

text \<open>Property C35: the generated code is that of the interface definitions. The descriptors embedded as
  compressed bytes in \<^verbatim>\<open>builder.pb.go\<close> and \<^verbatim>\<open>runner.pb.go\<close> pass the checks of their length and checksum and
  decompress to exactly the serialized form of \<^verbatim>\<open>builder.proto\<close> and \<^verbatim>\<open>runner.proto\<close>; and the registered
  names, the struct tags and the service descriptors say the same, for both files.\<close>

theorem generated_code_agrees:
  "agrees builder_proto fileDescriptor_68a5e6cb4f7c8dc9 (builder_init register_type register_file \<lparr>rTypes = [], rFiles = []\<rparr>)
     [BuildRequest_Descriptor, BuildResponse_Descriptor] [BuildRequest_struct, BuildResponse_XXX_OneofWrappers] Builder_serviceDesc \<and>
   agrees runner_proto fileDescriptor_48eceea7e2abc593 (runner_init register_type register_file \<lparr>rTypes = [], rFiles = []\<rparr>)
     [RunRequest_Descriptor, RunResponse_Descriptor] [RunRequest_struct, RunResponse_XXX_OneofWrappers] Runner_serviceDesc"
proof -
  have structs: "map struct_fields (ptMessages builder_proto) = [BuildRequest_struct, BuildResponse_XXX_OneofWrappers]"
    "map struct_fields (ptMessages runner_proto) = [RunRequest_struct, RunResponse_XXX_OneofWrappers]"
    by code_simp+
  have descs: "map (\<lambda>i. (fd, [i])) [0..<length (ptMessages p)] = [(fd, [0]), (fd, [1])]"
    if "p \<in> {builder_proto, runner_proto}" for p and fd :: "8 word list"
    using that by (auto simp: builder_proto_def runner_proto_def upt_rec)
  show ?thesis
    unfolding agrees_def structs using builder_descriptor runner_descriptor
    by (simp add: descs builder_init_def runner_init_def register_type_def register_file_def BuildRequest_Descriptor_def
        BuildResponse_Descriptor_def RunRequest_Descriptor_def RunResponse_Descriptor_def Builder_serviceDesc_def Runner_serviceDesc_def)
      (simp add: builder_proto_def runner_proto_def response_proto_def full_name_def)
qed

end
