(* ===== verification/Spec2Isabelle.thy ===== *)
theory Spec2Isabelle
  imports MetadataFlow RunFlow FileConcurrent FsTermination DoubleProps DescriptorProps
begin

text \<open>
  A verification development of the chaincode builder: a Fabric peer hands chaincode packages to a
  client program, which passes them over a shared directory and gRPC to a server beside it, which
  builds and runs the chaincode in Kubernetes pods.

  \<^bold>\<open>The program.\<close> The peer calls \<^verbatim>\<open>cmd/ibp-builder-client\<close> under the names detect, build,
  release and run. The commands of \<^verbatim>\<open>pkg/command\<close> read and write files with \<^verbatim>\<open>pkg/fs\<close>; build and
  run make a temporary directory in the shared directory, put archives there and call the server
  with paths relative to the shared directory (\<^verbatim>\<open>pkg/sidecar\<close>). The server, \<^verbatim>\<open>cmd/ibp-builder\<close>,
  deletes the completed pods of earlier runs (\<^verbatim>\<open>pkg/pod\<close>), makes TLS files (\<^verbatim>\<open>pkg/tls\<close>), and serves
  two interfaces on the same directory: gRPC (\<^verbatim>\<open>pkg/k8sbuilder\<close>) for the client, and HTTP
  (\<^verbatim>\<open>pkg/filetransfer\<close>) for the pods. A build handler checks the request, defines a pod that
  downloads the source, builds it and uploads the result, and executes it: it creates the pod, watches
  its phases and streams the logs of its containers back to the client. A run handler also keeps the
  peer's TLS material in a secret that lives as long as the pod.

  \<^bold>\<open>Theories and sources.\<close>
  \<^item> \<^verbatim>\<open>Prelude\<close>: errors and results, Go strings, shared lemmas, and the locale \<open>codec\<close> of encodings
    that can be read back (interpreted for base64, percent-encoding and certificates on one line).
  \<^item> \<^verbatim>\<open>GoPath\<close>, \<^verbatim>\<open>Url\<close>, \<^verbatim>\<open>Encoding\<close>, \<^verbatim>\<open>Json\<close>, \<^verbatim>\<open>JsonFile\<close>: the parts of the standard library the code
    computes with: paths, URLs, hexadecimal and base64, JSON; with \<^verbatim>\<open>UUID\<close> and \<^verbatim>\<open>urlJoin\<close> of
    \<^verbatim>\<open>server.go\<close>.
  \<^item> \<^verbatim>\<open>OsModel\<close>: the operating system as a record with a file system, umask, clock, environment and
    faults; system calls are functions on it that return a value, an error or a panic. Its locale
    \<open>subtree_writer\<close> is the interface of operations that write below one directory, interpreted for
    copying and extracting.
  \<^item> \<^verbatim>\<open>FsCopy\<close> (\<^verbatim>\<open>copy_linux.go\<close>, \<^verbatim>\<open>update.go\<close>), \<^verbatim>\<open>FsCopyOther\<close> (\<^verbatim>\<open>copy.go\<close>), \<^verbatim>\<open>FsTar\<close> (\<^verbatim>\<open>tar.go\<close>).
    \<^verbatim>\<open>FsCopySpec\<close>, \<^verbatim>\<open>FsProps\<close>, \<^verbatim>\<open>TarRoundtrip\<close> and \<^verbatim>\<open>FsTermination\<close> hold their proofs.
  \<^item> \<^verbatim>\<open>KubeTypes\<close>: the API objects, a client as a record of functions over an unknown cluster state,
    and the record of the calls made. \<^verbatim>\<open>Containers\<close> (\<^verbatim>\<open>golang.go\<close>, \<^verbatim>\<open>java.go\<close>, \<^verbatim>\<open>node.go\<close>,
    \<^verbatim>\<open>executable.go\<close>, \<^verbatim>\<open>common.go\<close>), \<^verbatim>\<open>PodDefs\<close>, \<^verbatim>\<open>ServerSecrets\<close>, \<^verbatim>\<open>ExecutePod\<close>, \<^verbatim>\<open>LogStreams\<close> and
    \<^verbatim>\<open>ServerHandlers\<close> model \<^verbatim>\<open>server.go\<close>; the locale \<open>chaincode_platform\<close> is the interface to a
    language, \<open>logger\<close> the one to a log stream. \<^verbatim>\<open>ExecutePodProofs\<close>, \<^verbatim>\<open>PodProps\<close> and
    \<^verbatim>\<open>ServerProps\<close> hold the proofs.
  \<^item> \<^verbatim>\<open>FileTransfer\<close> (\<^verbatim>\<open>filetransfer/handler.go\<close>), with \<^verbatim>\<open>FileTransferProofs\<close> and \<^verbatim>\<open>FileStore\<close>, whose
    locales \<open>write_once\<close> and \<open>store_service\<close> state what a store promises, and \<^verbatim>\<open>FileConcurrent\<close>, where
    uploads are handled at the same time.
  \<^item> \<^verbatim>\<open>Descriptor\<close> (\<^verbatim>\<open>protos\<close> and what \<^verbatim>\<open>pkg/sidecar\<close> was generated with: tags, registration, embedded
    descriptors), \<^verbatim>\<open>Gzip\<close> (the decompression of the standard library), \<^verbatim>\<open>DescriptorProps\<close>.
  \<^item> \<^verbatim>\<open>Sidecar\<close> (the messages and stubs of \<^verbatim>\<open>pkg/sidecar\<close>), \<^verbatim>\<open>Commands\<close> (\<^verbatim>\<open>pkg/command\<close>),
    \<^verbatim>\<open>PodHandler\<close> (\<^verbatim>\<open>pkg/pod\<close>), \<^verbatim>\<open>Tls\<close> (\<^verbatim>\<open>pkg/tls\<close>, \<^verbatim>\<open>pkg/logger\<close>), \<^verbatim>\<open>Mains\<close> (the two programs), with
    the proofs in \<^verbatim>\<open>CommandProps\<close> and \<^verbatim>\<open>MainProps\<close>; \<^verbatim>\<open>ServerSecrets\<close> also holds \<^verbatim>\<open>pkg/util\<close>.
  \<^item> \<^verbatim>\<open>EndToEnd\<close>, \<^verbatim>\<open>BuildFlow\<close>, \<^verbatim>\<open>MetadataFlow\<close> and \<^verbatim>\<open>RunFlow\<close>: the build and the run command with the handlers of the
    server as the other end of their connections, and the pods' requests to the file server in between.
  \<^item> \<^verbatim>\<open>Doubles\<close>, \<^verbatim>\<open>FakeStreams\<close> (\<^verbatim>\<open>k8sbuilder/fakes\<close>), \<^verbatim>\<open>FakeServers\<close> (\<^verbatim>\<open>command/fakes\<close>,
    \<^verbatim>\<open>integration/fakes\<close>), \<^verbatim>\<open>DoubleProps\<close>: the test doubles; the locales \<open>spy\<close>, \<open>arguing_spy\<close>,
    \<open>returning_spy\<close> and \<open>double\<close> say what generated methods share, one interpretation for each method.

  \<^bold>\<open>What is shown.\<close>
  \<^item> Pod execution: for every interleaving of events, log goroutines and cancellation, the calls made
    to the cluster are fixed up to the logs opened, the deletion of a build pod is requested exactly once
    and of a run pod never, also when the set-up fails; before a regular return every opened log has been
    sent line by line, in order and once, up to the first line of 64 KiB if there is one, and all other
    messages report failed calls; success means the watch reported it, and from every state a final event makes the function return (\<^verbatim>\<open>ExecutePodProofs\<close>).
    One mutex keeps the goroutines apart in the stream and never blocks for good (\<^verbatim>\<open>LogStreams\<close>).
  \<^item> Handlers: validation before anything reaches the cluster, the result of a success, the error of
    every failure, the life of the secret on every way out, panics included, and the TLS files the
    chaincode finds where its environment says (\<^verbatim>\<open>ServerProps\<close>). Pods
    are well formed for every language, and no request path ends the quoting of their shell commands
    (\<^verbatim>\<open>PodProps\<close>).
  \<^item> File server: it reads and writes below its root only, for authorized requests only, and implements
    a write-once store for every sequence of requests (\<^verbatim>\<open>FileTransferProofs\<close>, \<^verbatim>\<open>FileStore\<close>); uploads
    handled at the same time behave as if handled in the order of their opens (\<^verbatim>\<open>FileConcurrent\<close>).
  \<^item> Files: a copied tree and an archive unpacked again are exactly the tree, with times and
    permissions; neither writes elsewhere; the two variants of copying agree; copying and archiving
    terminate whatever fails (\<^verbatim>\<open>FsProps\<close>, \<^verbatim>\<open>TarRoundtrip\<close>, \<^verbatim>\<open>FsCopyOther\<close>, \<^verbatim>\<open>FsTermination\<close>).
  \<^item> Composition: the URLs of the pods lead the file server to the same files, its credentials and certificate are those
    the pods get, what the goroutines log arrives on the standard error of the client, and each exit
    code has one cause (\<^verbatim>\<open>CommandProps\<close>, \<^verbatim>\<open>MainProps\<close>). A build command that returns without an error
    has been served by a handler that returned nil, with one pod of that build that succeeded and whose
    deletion was requested, and printed what the server sent (\<^verbatim>\<open>EndToEnd\<close>); the archive the pods
    downloaded is the given source tree, and what they uploaded is in the output directory
    (\<^verbatim>\<open>BuildFlow\<close>); the server found behind the paths of the request the metadata the peer gave
    (\<^verbatim>\<open>MetadataFlow\<close>). A run command
    that returns without an error has seen the pod of that run succeed, with a secret made of the TLS
    material of the peer and owned by the pod, and the chaincode the pod downloaded is the output of
    the build (\<^verbatim>\<open>RunFlow\<close>).
  \<^item> Generated code: the compressed descriptors in \<^verbatim>\<open>pkg/sidecar\<close> are the serialized interface
    definitions of \<^verbatim>\<open>protos\<close>, and the tags, names and services of the code agree with them
    (\<^verbatim>\<open>DescriptorProps\<close>).
  \<^item> Test doubles: what a double has recorded and answers next is determined by the history of
    operations on it, and behind a serialized stream it records what was logged (\<^verbatim>\<open>DoubleProps\<close>).
  \<^item> Some theorems state what the code does and should not do: either credential is enough, an archive
    can leave its destination, the private key of the file server is served, the secret of a run stays
    behind when its last lookup fails, a log ends at a line of 64 KiB, and a file uploaded as
    \<^verbatim>\<open>index.html\<close> cannot be downloaded.

  \<^bold>\<open>Bounds.\<close> \<open>CopyDir\<close> and \<open>tar_walk\<close> take a bound on the depth of directory trees; running out of it
  is a stack overflow. \<^verbatim>\<open>FsTermination\<close> shows that a bound above the depth of the file system is enough
  and that larger bounds give the same result. \<open>temp_dir_try\<close> retries as often as the library does. An execution of \<open>executePod\<close> is a
  finite schedule of steps; that a schedule leading to the return exists from every reachable state is
  a theorem. The JSON parser is bounded by the length of its input; the
  decompression terminates because every symbol and block takes at least one bit.

  \<^bold>\<open>Parameters.\<close> The Kubernetes cluster behind its client; the gRPC connection, which may act on the
  shared directory while it answers (in \<^verbatim>\<open>EndToEnd\<close> only the transport is left open); package zap; the
  stubs of the test doubles; key generation and signing; listening and dialling; the random
  bytes; the order \<open>ord\<close> in which Go visits a map; the text \<open>fl\<close> of a number after its trip through
  \<^verbatim>\<open>float64\<close>. Theorems that rely on their behaviour name it as a hypothesis.

  \<^bold>\<open>Not modelled.\<close> The wire encoding of the messages, which the protobuf library makes from the tags, and the fields it
  keeps for itself in a message (\<^verbatim>\<open>XXX_unrecognized\<close>, \<^verbatim>\<open>XXX_sizecache\<close>); log output other than
  the streams; range and conditional headers of HTTP, and downloads at the same time as an upload of the
  same place, except for the answer they get; the read-write mutexes of the test doubles, whose critical
  sections are single steps; symbolic links, access times changed by reading, and times finer or coarser
  than those stored; limits on the length of a path. An archive cut off inside an entry is modelled as
  ending before that entry, so the partial file that \<^verbatim>\<open>ExtractTar\<close> leaves of it before it returns the
  error is not; likewise the bytes that a failed \<^verbatim>\<open>CreateTar\<close> leaves after the last complete entry. The
  archive being written is taken to lie outside the tree that is walked. The embedded \<^verbatim>\<open>Send\<close> of a
  stream is a function that returns: a call held up by the flow control of gRPC is one that has not been
  scheduled yet. Where a model runs out of its bound on the depth of trees, the result is a panic, for
  which deferred calls run; in Go a stack overflow ends the process, and the bounds above keep it out.
  Of the start-up, the messages about a failed clean-up are not modelled, and the namespace of the
  clients is part of the parameter that stands for the cluster.
\<close>

end
